(* ===== verification/Prelude.thy ===== *)
theory Prelude
  imports Main "HOL-Library.Word"
begin

text \<open>
  Shared vocabulary of the development: byte strings, machine integers, Go error values
  and the result type of fallible functions, and the generic lemmas on lists and options
  that the component theories use.

  A Go \<open>string\<close> and a Go \<open>[]byte\<close> are both byte sequences; both are modelled by the
  HOL type \<open>string\<close> (a list of 8-bit characters), so the conversions \<open>[]byte(s)\<close> and
  \<open>string(b)\<close> of the source are the identity here.
\<close>

named_theorems view_simps \<open>equations that evaluate what a structure of objects looks like from outside\<close>

type_synonym bytes = string
type_synonym int32 = "32 word"
type_synonym int64 = "64 word"

section \<open>Error values\<close>

text \<open>
  A Go error is a message, or a message wrapped around a cause (\<open>fmt.Errorf\<close> with a
  final \<open>: %w\<close>, the only way the source wraps). \<open>error_text\<close> is its \<open>Error()\<close> method
  and \<open>errors_Is\<close> the unwrapping comparison of the standard library.
\<close>

datatype go_error =
    Err string
  | Wrap string go_error

type_synonym 'a result = "go_error + 'a"

fun error_text :: "go_error \<Rightarrow> string" where
  "error_text (Err m) = m"
| "error_text (Wrap p e) = p @ '': '' @ error_text e"

fun errors_Is :: "go_error \<Rightarrow> go_error \<Rightarrow> bool" where
  "errors_Is (Err m) t = (Err m = t)"
| "errors_Is (Wrap p e) t = (Wrap p e = t \<or> errors_Is e t)"

lemma errors_Is_refl [simp]: "errors_Is e e"
  by (cases e) simp_all

lemma errors_Is_Wrap [intro]: "errors_Is e t \<Longrightarrow> errors_Is (Wrap p e) t"
  by simp

section \<open>Bytes\<close>

abbreviation byte :: "char \<Rightarrow> nat" where
  "byte c \<equiv> of_char c"

abbreviation chr :: "nat \<Rightarrow> char" where
  "chr n \<equiv> char_of n"

lemma byte_less: "byte c < 256"
  by simp

lemma byte_chr: "n < 256 \<Longrightarrow> byte (chr n) = n"
  by (simp add: of_char_of)

lemma chr_byte [simp]: "chr (byte c) = c"
  by simp

text \<open>Characters given by their code evaluate to literals.\<close>

lemma chr_numeral [simp]:
  "chr (numeral k) = Char (bit (numeral k :: nat) 0) (bit (numeral k :: nat) 1)
     (bit (numeral k :: nat) 2) (bit (numeral k :: nat) 3) (bit (numeral k :: nat) 4)
     (bit (numeral k :: nat) 5) (bit (numeral k :: nat) 6) (bit (numeral k :: nat) 7)"
  by (rule char_of_def)

lemma bit_one_zero [simp]: "bit (Suc 0) 0"
  by (simp add: bit_Suc_0_iff)

lemma byte_eq_iff: "c = d \<longleftrightarrow> byte c = byte d"
  by (metis char_of_char)

section \<open>Lists and options\<close>

lemma find_append:
  "List.find P (xs @ ys) = (case List.find P xs of Some x \<Rightarrow> Some x | None \<Rightarrow> List.find P ys)"
  by (induction xs) auto

lemma take_drop_split: "n \<le> length xs \<Longrightarrow> take n xs @ drop n xs = xs"
  by simp

end
