(* ===== verification/Api_Types.thy ===== *)
theory Api_Types
  imports Prelude
begin

text \<open>
  The custom resources of \<open>api/v1alpha1\<close> and the Kubernetes metadata they embed: one record
  per Go struct, with the Go field names behind a prefix of the struct. Optional pointers
  are options, slices are lists (no hand-written code of the source tells a nil slice from an
  empty one), string-based enumerations stay strings with their declared constants. Of the
  imported metadata types only the fields that the source reads or writes are kept.
\<close>

section \<open>Imported metadata (\<open>metav1\<close>)\<close>

text \<open>
  Seconds since the zero time of Go, the precision at which \<open>metav1.Time\<close> is stored, so that
  \<open>IsZero\<close> is a test for 0.
\<close>

type_synonym Time = int

definition Time_IsZero :: "Time option \<Rightarrow> bool" where
  "Time_IsZero t = (case t of None \<Rightarrow> True | Some n \<Rightarrow> n = 0)"

datatype ConditionStatus = ConditionTrue | ConditionFalse | ConditionUnknown | ConditionOther string

record Condition =
  co_Type :: string
  co_Status :: ConditionStatus
  co_ObservedGeneration :: int64
  co_LastTransitionTime :: Time
  co_Reason :: string
  co_Message :: string

record TypeMeta =
  tm_Kind :: string
  tm_APIVersion :: string

record OwnerReference =
  or_Kind :: string
  or_Name :: string
  or_UID :: string
  or_Controller :: "bool option"

record ObjectMeta =
  om_Name :: string
  om_Namespace :: string
  om_UID :: string
  om_ResourceVersion :: string
  om_Generation :: int64
  om_DeletionTimestamp :: "Time option"
  om_Labels :: "string \<rightharpoonup> string"
  om_OwnerReferences :: "OwnerReference list"

section \<open>PVENodeImage\<close>

type_synonym DistributionType = string

definition DistributionRKE2 :: DistributionType where "DistributionRKE2 = ''rke2''"
definition DistributionK3s :: DistributionType where "DistributionK3s = ''k3s''"

type_synonym RebuildPolicyTrigger = string

definition RebuildOnSpecChange :: RebuildPolicyTrigger where "RebuildOnSpecChange = ''OnSpecChange''"
definition RebuildPeriodic :: RebuildPolicyTrigger where "RebuildPeriodic = ''Periodic''"
definition RebuildManual :: RebuildPolicyTrigger where "RebuildManual = ''Manual''"

record BaseImage =
  bi_URL :: string
  bi_Checksum :: string
  bi_ISOFile :: string

record Distribution =
  di_Type :: DistributionType
  di_Version :: string

record BuildConfig =
  bc_Node :: string
  bc_StoragePool :: string
  bc_ISOStoragePool :: string
  bc_Bridge :: string

record RebuildPolicy =
  rp_Trigger :: RebuildPolicyTrigger
  rp_Interval :: "int64 option"

record PVENodeImageSpec =
  is_BaseImage :: BaseImage
  is_Distribution :: Distribution
  is_Packages :: "string list"
  is_SSHAuthorizedKeys :: "string list"
  is_Timezone :: string
  is_BuildConfig :: BuildConfig
  is_RebuildPolicy :: RebuildPolicy

record PVENodeImageStatus =
  ist_Conditions :: "Condition list"
  ist_TemplateVMID :: "int32 option"
  ist_TemplateNode :: string
  ist_ObservedSpecHash :: string
  ist_LastBuildTime :: "Time option"

record PVENodeImage =
  im_TypeMeta :: TypeMeta
  im_ObjectMeta :: ObjectMeta
  im_Spec :: PVENodeImageSpec
  im_Status :: PVENodeImageStatus

section \<open>PVENodeClass\<close>

definition ConditionTypeTemplateResolved :: string where
  "ConditionTypeTemplateResolved = ''TemplateResolved''"

definition ConditionTypeNodeImageReady :: string where
  "ConditionTypeNodeImageReady = ''NodeImageReady''"

record NodeImageReference =
  nr_Name :: string

record InstanceType =
  it_Name :: string
  it_CPU :: int32
  it_MemoryMiB :: int32
  it_DiskGiB :: int32

record PlacementTarget =
  pt_Node :: string
  pt_Zone :: string

record NetworkConfig =
  nc_Bridge :: string
  nc_VLANTag :: "int32 option"
  nc_Firewall :: bool

record PVENodeClassSpec =
  cs_NodeImageRef :: NodeImageReference
  cs_InstanceTypes :: "InstanceType list"
  cs_PlacementTargets :: "PlacementTarget list"
  cs_StoragePool :: string
  cs_Network :: NetworkConfig
  cs_Tags :: "string list"

record PVENodeClassStatus =
  cst_Conditions :: "Condition list"

record PVENodeClass =
  nc_TypeMeta :: TypeMeta
  nc_ObjectMeta :: ObjectMeta
  nc_Spec :: PVENodeClassSpec
  nc_Status :: PVENodeClassStatus

section \<open>Zero values\<close>

text \<open>The zero value of a condition, what \<open>make\<close> fills a new slice with.\<close>

definition zeroCondition :: Condition where
  "zeroCondition = \<lparr>co_Type = '''', co_Status = ConditionOther '''', co_ObservedGeneration = 0,
     co_LastTransitionTime = 0, co_Reason = '''', co_Message = ''''\<rparr>"

section \<open>A sample resource\<close>

text \<open>A resource with every field of the record set, for the witnesses.\<close>

definition sampleSpec :: PVENodeImageSpec where
  "sampleSpec = \<lparr>
     is_BaseImage = \<lparr>bi_URL = ''https://example.com/ubuntu.iso'', bi_Checksum = ''sha256:abc123'',
                     bi_ISOFile = ''''\<rparr>,
     is_Distribution = \<lparr>di_Type = DistributionRKE2, di_Version = ''v1.33.4+rke2r1''\<rparr>,
     is_Packages = [''qemu-guest-agent'', ''curl''],
     is_SSHAuthorizedKeys = [''ssh-ed25519 AAAA test''],
     is_Timezone = ''UTC'',
     is_BuildConfig = \<lparr>bc_Node = ''pve-01'', bc_StoragePool = ''local-lvm'',
                       bc_ISOStoragePool = '''', bc_Bridge = ''vmbr0''\<rparr>,
     is_RebuildPolicy = \<lparr>rp_Trigger = RebuildOnSpecChange, rp_Interval = None\<rparr>\<rparr>"

definition sampleImage :: PVENodeImage where
  "sampleImage = \<lparr>
     im_TypeMeta = \<lparr>tm_Kind = ''PVENodeImage'', tm_APIVersion = ''karpenter.algo7.dev/v1alpha1''\<rparr>,
     im_ObjectMeta = \<lparr>om_Name = ''rke2-standard'', om_Namespace = '''', om_UID = ''uid-1'',
       om_ResourceVersion = ''1'', om_Generation = 1, om_DeletionTimestamp = None,
       om_Labels = Map.empty, om_OwnerReferences = []\<rparr>,
     im_Spec = sampleSpec,
     im_Status = \<lparr>ist_Conditions = [], ist_TemplateVMID = None, ist_TemplateNode = '''',
       ist_ObservedSpecHash = '''', ist_LastBuildTime = None\<rparr>\<rparr>"

end
