(* ===== verification/Kube.thy ===== *)
theory Kube
  imports Api_Types
begin

text \<open>
  What the reconcilers use of Kubernetes: requests and results, Jobs, the client of the API
  server and the library helpers. None of that code is part of the repository, so the client
  and the helpers are records of functions over an abstract cluster state \<open>'w\<close>, arguments of
  the model; what is relied on about them is stated as named hypotheses, each a documented
  behaviour of the Kubernetes API or of apimachinery.
\<close>

section \<open>Requests, results and Jobs\<close>

record NamespacedName =
  nn_Namespace :: string
  nn_Name :: string

text \<open>\<open>ctrl.Result\<close>, with the delay in nanoseconds as in \<open>time.Duration\<close>.\<close>

record Result =
  RequeueAfter :: int

definition Result0 :: Result where
  "Result0 = \<lparr>RequeueAfter = 0\<rparr>"

record JobCondition =
  jc_Type :: string
  jc_Status :: ConditionStatus

definition JobComplete :: string where "JobComplete = ''Complete''"
definition JobFailed :: string where "JobFailed = ''Failed''"

record Job =
  jb_ObjectMeta :: ObjectMeta
  jb_Conditions :: "JobCondition list"

record ListOptions =
  lo_Namespace :: string
  lo_MatchingLabels :: "string \<rightharpoonup> string"

section \<open>The client and the library helpers\<close>

record 'w kube_client =
  kc_Get :: "NamespacedName \<Rightarrow> 'w \<Rightarrow> PVENodeImage result"
  kc_List :: "ListOptions \<Rightarrow> 'w \<Rightarrow> Job list result"
  kc_StatusUpdate :: "PVENodeImage \<Rightarrow> 'w \<Rightarrow> go_error option \<times> 'w"

record kube_libs =
  kl_IsNotFound :: "go_error \<Rightarrow> bool"
  kl_yaml_Marshal :: "PVENodeImageSpec \<Rightarrow> bytes result"
  kl_SetStatusCondition :: "Time \<Rightarrow> Condition list \<Rightarrow> Condition \<Rightarrow> bool \<times> Condition list"

section \<open>Conditions by type\<close>

definition cond_of :: "string \<Rightarrow> Condition list \<Rightarrow> Condition option" where
  "cond_of ty cs = List.find (\<lambda>c. co_Type c = ty) cs"

text \<open>
  The documented merge of a new condition into an old one of its type: all fields are taken
  over, but the transition time moves only when the status changes.
\<close>

definition merge_condition :: "Time \<Rightarrow> Condition option \<Rightarrow> Condition \<Rightarrow> Condition" where
  "merge_condition now old new =
     new\<lparr>co_LastTransitionTime :=
       (case old of
          Some o1 \<Rightarrow> if co_Status o1 = co_Status new then co_LastTransitionTime o1
                     else if co_LastTransitionTime new = 0 then now else co_LastTransitionTime new
        | None \<Rightarrow> if co_LastTransitionTime new = 0 then now else co_LastTransitionTime new)\<rparr>"

text \<open>
  The contract of \<open>meta.SetStatusCondition\<close>: it updates the condition of the given type and no
  other, keeps one condition per type, and reports whether the condition list changed.
\<close>

definition SetStatusCondition_contract ::
    "(Time \<Rightarrow> Condition list \<Rightarrow> Condition \<Rightarrow> bool \<times> Condition list) \<Rightarrow> bool" where
  "SetStatusCondition_contract f \<longleftrightarrow>
     (\<forall>now cs c.
        (\<forall>ty. cond_of ty (snd (f now cs c)) =
           (if ty = co_Type c then Some (merge_condition now (cond_of ty cs) c) else cond_of ty cs)) \<and>
        (distinct (map co_Type cs) \<longrightarrow> distinct (map co_Type (snd (f now cs c)))) \<and>
        (fst (f now cs c) \<longleftrightarrow> snd (f now cs c) \<noteq> cs) \<and>
        (cond_of (co_Type c) cs = Some (merge_condition now (cond_of (co_Type c) cs) c)
           \<longrightarrow> snd (f now cs c) = cs))"

text \<open>
  The contract of the client. A request for an object is the pair of its namespace and name. A
  status update that succeeds replaces the status of the stored object and gives it a new
  resource version, and the next read returns that object (reads are up to date with the
  process's own writes; a cached reader is once its watch has caught up); other objects and the
  Jobs stay as they are, and an update that fails changes nothing. Listing returns objects of
  the requested namespace that carry the requested labels.
\<close>

definition key_of :: "PVENodeImage \<Rightarrow> NamespacedName" where
  "key_of img = \<lparr>nn_Namespace = om_Namespace (im_ObjectMeta img), nn_Name = om_Name (im_ObjectMeta img)\<rparr>"

text \<open>Equality up to the resource version.\<close>

definition same_but_version :: "PVENodeImage \<Rightarrow> PVENodeImage \<Rightarrow> bool" where
  "same_but_version a b \<longleftrightarrow>
     a\<lparr>im_ObjectMeta := (im_ObjectMeta a)\<lparr>om_ResourceVersion := ''''\<rparr>\<rparr> =
     b\<lparr>im_ObjectMeta := (im_ObjectMeta b)\<lparr>om_ResourceVersion := ''''\<rparr>\<rparr>"

definition client_contract :: "'w kube_client \<Rightarrow> bool" where
  "client_contract cl \<longleftrightarrow>
     (\<forall>req w img. kc_Get cl req w = Inr img \<longrightarrow> key_of img = req) \<and>
     (\<forall>img w w'. kc_StatusUpdate cl img w = (None, w') \<longrightarrow>
        (\<exists>old v. kc_Get cl (key_of img) w = Inr old \<and>
           kc_Get cl (key_of img) w' = Inr (old\<lparr>im_Status := im_Status img,
             im_ObjectMeta := (im_ObjectMeta old)\<lparr>om_ResourceVersion := v\<rparr>\<rparr>)) \<and>
        (\<forall>req. req \<noteq> key_of img \<longrightarrow> kc_Get cl req w' = kc_Get cl req w) \<and>
        (\<forall>opts. kc_List cl opts w' = kc_List cl opts w)) \<and>
     (\<forall>img w w' e. kc_StatusUpdate cl img w = (Some e, w') \<longrightarrow> w' = w) \<and>
     (\<forall>opts w jobs j. kc_List cl opts w = Inr jobs \<longrightarrow> j \<in> set jobs \<longrightarrow>
        om_Namespace (jb_ObjectMeta j) = lo_Namespace opts \<and>
        lo_MatchingLabels opts \<subseteq>\<^sub>m om_Labels (jb_ObjectMeta j))"

text \<open>
  The limit that the API server enforces on label values: at most 63 characters, so no Job it
  stores carries a longer one.
\<close>

definition label_limit :: "'w kube_client \<Rightarrow> bool" where
  "label_limit cl \<longleftrightarrow>
     (\<forall>opts w jobs j k v. kc_List cl opts w = Inr jobs \<longrightarrow> j \<in> set jobs \<longrightarrow>
        om_Labels (jb_ObjectMeta j) k = Some v \<longrightarrow> length v \<le> 63)"

text \<open>What listing by labels is: the Jobs of the list of the namespace that carry the labels, in its order.\<close>

definition selector_contract :: "'w kube_client \<Rightarrow> bool" where
  "selector_contract cl \<longleftrightarrow> (\<forall>ns m w part jobs.
     kc_List cl \<lparr>lo_Namespace = ns, lo_MatchingLabels = m\<rparr> w = Inr part \<longrightarrow>
     kc_List cl \<lparr>lo_Namespace = ns, lo_MatchingLabels = Map.empty\<rparr> w = Inr jobs \<longrightarrow>
     part = filter (\<lambda>j. m \<subseteq>\<^sub>m om_Labels (jb_ObjectMeta j)) jobs)"

lemma selector_contractD:
  "selector_contract cl \<Longrightarrow> kc_List cl \<lparr>lo_Namespace = ns, lo_MatchingLabels = m\<rparr> w = Inr part \<Longrightarrow>
     kc_List cl \<lparr>lo_Namespace = ns, lo_MatchingLabels = Map.empty\<rparr> w = Inr jobs \<Longrightarrow>
     part = filter (\<lambda>j. m \<subseteq>\<^sub>m om_Labels (jb_ObjectMeta j)) jobs"
  unfolding selector_contract_def by blast

section \<open>Consequences of the contracts\<close>

lemma SSC_lookup:
  assumes "SetStatusCondition_contract f"
  shows "cond_of ty (snd (f now cs c)) =
    (if ty = co_Type c then Some (merge_condition now (cond_of ty cs) c) else cond_of ty cs)"
  using assms by (simp add: SetStatusCondition_contract_def)

lemma SSC_distinct:
  "SetStatusCondition_contract f \<Longrightarrow> distinct (map co_Type cs) \<Longrightarrow>
     distinct (map co_Type (snd (f now cs c)))"
  by (simp add: SetStatusCondition_contract_def)

lemma SSC_changed:
  "SetStatusCondition_contract f \<Longrightarrow> fst (f now cs c) \<longleftrightarrow> snd (f now cs c) \<noteq> cs"
  by (simp add: SetStatusCondition_contract_def)

text \<open>Setting a condition to the fields it already has changes nothing.\<close>

lemma SSC_same:
  assumes "SetStatusCondition_contract f"
    and "cond_of (co_Type c) cs = Some old" "merge_condition now (Some old) c = old"
  shows "f now cs c = (False, cs)"
proof -
  have "cond_of (co_Type c) cs = Some (merge_condition now (cond_of (co_Type c) cs) c)"
    using assms(2,3) by simp
  then have "snd (f now cs c) = cs"
    using assms(1) by (simp only: SetStatusCondition_contract_def)
  moreover have "\<not> fst (f now cs c)"
    using SSC_changed [OF assms(1), of now cs c] calculation by simp
  ultimately show ?thesis by (metis prod.collapse)
qed

lemma merge_condition_fields [simp]:
  "co_Type (merge_condition now old c) = co_Type c"
  "co_Status (merge_condition now old c) = co_Status c"
  "co_Reason (merge_condition now old c) = co_Reason c"
  "co_Message (merge_condition now old c) = co_Message c"
  "co_ObservedGeneration (merge_condition now old c) = co_ObservedGeneration c"
  by (simp_all add: merge_condition_def)

lemma merge_condition_again:
  assumes "co_Type old = co_Type c" "co_Status old = co_Status c" "co_Reason old = co_Reason c"
    "co_Message old = co_Message c" "co_ObservedGeneration old = co_ObservedGeneration c"
  shows "merge_condition now (Some old) c = old"
  using assms by (simp add: merge_condition_def Condition.equality)

lemma cond_of_type: "cond_of ty cs = Some c \<Longrightarrow> co_Type c = ty"
  by (auto simp: cond_of_def find_Some_iff)

lemma client_Get_key: "client_contract cl \<Longrightarrow> kc_Get cl req w = Inr img \<Longrightarrow> key_of img = req"
  unfolding client_contract_def by blast

lemma client_Update_ok:
  assumes "client_contract cl" "kc_StatusUpdate cl img w = (None, w')"
  shows "\<exists>old v. kc_Get cl (key_of img) w = Inr old \<and>
      kc_Get cl (key_of img) w' = Inr (old\<lparr>im_Status := im_Status img,
        im_ObjectMeta := (im_ObjectMeta old)\<lparr>om_ResourceVersion := v\<rparr>\<rparr>)"
    and "req \<noteq> key_of img \<Longrightarrow> kc_Get cl req w' = kc_Get cl req w"
    and "kc_List cl opts w' = kc_List cl opts w"
  using assms unfolding client_contract_def by blast+

lemma client_Update_error:
  "client_contract cl \<Longrightarrow> kc_StatusUpdate cl img w = (Some e, w') \<Longrightarrow> w' = w"
  unfolding client_contract_def by blast

lemma client_List_match:
  assumes "client_contract cl" "kc_List cl opts w = Inr jobs" "j \<in> set jobs"
  shows "om_Namespace (jb_ObjectMeta j) = lo_Namespace opts"
    and "lo_MatchingLabels opts \<subseteq>\<^sub>m om_Labels (jb_ObjectMeta j)"
  using assms unfolding client_contract_def by blast+

lemma same_but_version_fields:
  assumes "same_but_version a b"
  shows "im_Spec a = im_Spec b" "im_Status a = im_Status b"
    "om_Generation (im_ObjectMeta a) = om_Generation (im_ObjectMeta b)"
    "om_DeletionTimestamp (im_ObjectMeta a) = om_DeletionTimestamp (im_ObjectMeta b)"
    "om_UID (im_ObjectMeta a) = om_UID (im_ObjectMeta b)"
    "om_Name (im_ObjectMeta a) = om_Name (im_ObjectMeta b)"
    "key_of a = key_of b"
  using assms
  by (cases a; cases b; simp add: same_but_version_def key_of_def;
      metis ObjectMeta.surjective ObjectMeta.update_convs ObjectMeta.ext_inject)+

end
