(* ===== verification/Go_Utf8.thy ===== *)
theory Go_Utf8
  imports Prelude
begin

text \<open>
  Go's \<open>unicode/utf8\<close> on byte strings: decoding the first rune of a string, encoding a
  rune, and the fact that a successful decode re-encodes to the bytes it consumed.
\<close>

section \<open>unicode/utf8\<close>

abbreviation RuneError :: nat where
  "RuneError \<equiv> 0xFFFD"

definition cont :: "nat \<Rightarrow> bool" where
  "cont b \<longleftrightarrow> 0x80 \<le> b \<and> b \<le> 0xBF"

text \<open>The range of the second byte that \<open>utf8.acceptRanges\<close> gives for a leading byte.\<close>

definition accept_lo :: "nat \<Rightarrow> nat" where
  "accept_lo b0 = (if b0 = 0xE0 then 0xA0 else if b0 = 0xF0 then 0x90 else 0x80)"

definition accept_hi :: "nat \<Rightarrow> nat" where
  "accept_hi b0 = (if b0 = 0xED then 0x9F else if b0 = 0xF4 then 0x8F else 0xBF)"

text \<open>\<open>utf8.DecodeRuneInString\<close>: the first rune and its width; \<open>(RuneError, 1)\<close> on bad encoding.\<close>

definition decodeRune :: "string \<Rightarrow> nat \<times> nat" where
  "decodeRune s = (case s of
     [] \<Rightarrow> (RuneError, 0)
   | c # cs \<Rightarrow>
      if byte c < 0x80 then (byte c, 1)
      else if byte c < 0xC2 \<or> 0xF4 < byte c then (RuneError, 1)
      else (case cs of
        [] \<Rightarrow> (RuneError, 1)
      | c1 # cs1 \<Rightarrow>
         if byte c1 < accept_lo (byte c) \<or> accept_hi (byte c) < byte c1 then (RuneError, 1)
         else if byte c < 0xE0 then ((byte c - 0xC0) * 64 + (byte c1 - 0x80), 2)
         else (case cs1 of
           [] \<Rightarrow> (RuneError, 1)
         | c2 # cs2 \<Rightarrow>
            if \<not> cont (byte c2) then (RuneError, 1)
            else if byte c < 0xF0 then
              ((byte c - 0xE0) * 4096 + (byte c1 - 0x80) * 64 + (byte c2 - 0x80), 3)
            else (case cs2 of
              [] \<Rightarrow> (RuneError, 1)
            | c3 # _ \<Rightarrow>
               if \<not> cont (byte c3) then (RuneError, 1)
               else ((byte c - 0xF0) * 262144 + (byte c1 - 0x80) * 4096
                     + (byte c2 - 0x80) * 64 + (byte c3 - 0x80), 4)))))"

text \<open>\<open>utf8.AppendRune\<close>: the encoding of a rune, that of \<open>RuneError\<close> for an invalid one.\<close>

definition encode3 :: "nat \<Rightarrow> string" where
  "encode3 r = [chr (0xE0 + r div 4096), chr (0x80 + r div 64 mod 64), chr (0x80 + r mod 64)]"

definition appendRune :: "nat \<Rightarrow> string" where
  "appendRune r =
     (if r < 0x80 then [chr r]
      else if r < 0x800 then [chr (0xC0 + r div 64), chr (0x80 + r mod 64)]
      else if 0xD800 \<le> r \<and> r \<le> 0xDFFF \<or> 0x10FFFF < r then encode3 RuneError
      else if r < 0x10000 then encode3 r
      else [chr (0xF0 + r div 262144), chr (0x80 + r div 4096 mod 64),
            chr (0x80 + r div 64 mod 64), chr (0x80 + r mod 64)])"

lemma decodeRune_Nil [simp]: "decodeRune [] = (RuneError, 0)"
  by (simp add: decodeRune_def)

lemma decodeRune_ascii [simp]: "byte c < 0x80 \<Longrightarrow> decodeRune (c # cs) = (byte c, 1)"
  by (simp add: decodeRune_def)

lemma decodeRune_width_pos: "0 < snd (decodeRune (c # cs))"
  by (simp add: decodeRune_def split: list.splits)

lemma decodeRune_width_le: "snd (decodeRune s) \<le> length s"
  by (simp add: decodeRune_def split: list.split)

text \<open>A successful decode of a non-ASCII rune re-encodes to the bytes it consumed.\<close>

lemma chr_byte_eq: "n = byte c \<Longrightarrow> chr n = c"
  by simp

text \<open>Splitting a number written in base 64 into its digits.\<close>

lemma base64_div: "z < 64 \<Longrightarrow> (a * 64 + z) div 64 = (a::nat)"
  by simp

lemma base64_mod: "z < 64 \<Longrightarrow> (a * 64 + z) mod 64 = (z::nat)"
  by (simp add: mod_mult_self3)

lemma base64_digits3:
  assumes "y < 64" "z < (64::nat)"
  shows "(x * 4096 + y * 64 + z) div 4096 = x" "(x * 4096 + y * 64 + z) div 64 mod 64 = y"
    "(x * 4096 + y * 64 + z) mod 64 = z"
proof -
  have h: "x * 4096 + y * 64 + z = (x * 64 + y) * 64 + z" by simp
  have d: "n div 4096 = n div 64 div 64" for n :: nat by (simp add: div_mult2_eq [symmetric])
  show "(x * 4096 + y * 64 + z) div 4096 = x" "(x * 4096 + y * 64 + z) div 64 mod 64 = y"
    "(x * 4096 + y * 64 + z) mod 64 = z"
    unfolding h d by (simp_all only: base64_div base64_mod assms)
qed

lemma base64_digits4:
  assumes "y < 64" "z < 64" "u < (64::nat)"
  shows "(x * 262144 + y * 4096 + z * 64 + u) div 262144 = x"
    "(x * 262144 + y * 4096 + z * 64 + u) div 4096 mod 64 = y"
    "(x * 262144 + y * 4096 + z * 64 + u) div 64 mod 64 = z"
    "(x * 262144 + y * 4096 + z * 64 + u) mod 64 = u"
proof -
  have h: "x * 262144 + y * 4096 + z * 64 + u = ((x * 64 + y) * 64 + z) * 64 + u" by simp
  have d: "n div 262144 = n div 64 div 64 div 64" "n div 4096 = n div 64 div 64" for n :: nat
    by (simp_all add: div_mult2_eq [symmetric])
  show "(x * 262144 + y * 4096 + z * 64 + u) div 262144 = x"
    "(x * 262144 + y * 4096 + z * 64 + u) div 4096 mod 64 = y"
    "(x * 262144 + y * 4096 + z * 64 + u) div 64 mod 64 = z"
    "(x * 262144 + y * 4096 + z * 64 + u) mod 64 = u"
    unfolding h d by (simp_all only: base64_div base64_mod assms)
qed

lemma encode_decode2:
  assumes "0xC2 \<le> b0" "b0 < 0xE0" "0x80 \<le> b1" "b1 \<le> 0xBF"
  shows "appendRune ((b0 - 0xC0) * 64 + (b1 - 0x80)) = [chr b0, chr b1]"
proof -
  define x y where "x = b0 - 0xC0" and "y = b1 - 0x80"
  then have "b0 = 0xC0 + x" "2 \<le> x" "x < 0x20" "b1 = 0x80 + y" "y < 64"
    using assms by auto
  then show ?thesis
    by (simp add: appendRune_def)
qed

lemma encode_decode3:
  assumes "0xE0 \<le> b0" "b0 < 0xF0" "accept_lo b0 \<le> b1" "b1 \<le> accept_hi b0" "cont b2"
  shows "appendRune ((b0 - 0xE0) * 4096 + (b1 - 0x80) * 64 + (b2 - 0x80)) = [chr b0, chr b1, chr b2]"
proof -
  define x y z where "x = b0 - 0xE0" and "y = b1 - 0x80" and "z = b2 - 0x80"
  then have b: "b0 = 0xE0 + x" "x < 16" "b1 = 0x80 + y" "y < 64" "b2 = 0x80 + z" "z < 64"
    and lo: "x = 0 \<Longrightarrow> 0x20 \<le> y" and hi: "x = 13 \<Longrightarrow> y < 0x20"
    using assms by (auto simp: accept_lo_def accept_hi_def cont_def split: if_splits)
  let ?r = "x * 4096 + y * 64 + z"
  have "0x800 \<le> ?r" using lo b by (cases "x = 0") auto
  moreover have "\<not> (0xD800 \<le> ?r \<and> ?r \<le> 0xDFFF)"
  proof (cases "x = 13")
    case True
    with hi b show ?thesis by simp
  next
    case False
    then have "x \<le> 12 \<or> 14 \<le> x" by arith
    with b show ?thesis by auto
  qed
  moreover have "?r < 0x10000" using b by auto
  ultimately show ?thesis
    using b base64_digits3 [of y z x] by (auto simp: appendRune_def encode3_def)
qed

lemma encode_decode4:
  assumes "0xF0 \<le> b0" "b0 \<le> 0xF4" "accept_lo b0 \<le> b1" "b1 \<le> accept_hi b0" "cont b2" "cont b3"
  shows "appendRune ((b0 - 0xF0) * 262144 + (b1 - 0x80) * 4096 + (b2 - 0x80) * 64 + (b3 - 0x80))
           = [chr b0, chr b1, chr b2, chr b3]"
proof -
  define x y z u where "x = b0 - 0xF0" and "y = b1 - 0x80" and "z = b2 - 0x80" and "u = b3 - 0x80"
  then have b: "b0 = 0xF0 + x" "x \<le> 4" "b1 = 0x80 + y" "y < 64" "b2 = 0x80 + z" "z < 64"
      "b3 = 0x80 + u" "u < 64"
    and lo: "x = 0 \<Longrightarrow> 0x10 \<le> y" and hi: "x = 4 \<Longrightarrow> y < 0x10"
    using assms by (auto simp: accept_lo_def accept_hi_def cont_def split: if_splits)
  let ?r = "x * 262144 + y * 4096 + z * 64 + u"
  have "0x10000 \<le> ?r" using lo b by (cases "x = 0") auto
  moreover have "?r \<le> 0x10FFFF" using hi b by (cases "x = 4") auto
  ultimately show ?thesis
    using b base64_digits4 [of y z u x] by (auto simp: appendRune_def)
qed

lemma decode_encode:
  assumes d: "decodeRune s = (r, w)" and s: "s \<noteq> []" and ok: "\<not> (w = 1 \<and> r = RuneError)"
  shows "appendRune r = take w s"
proof -
  obtain c cs where s_eq: "s = c # cs" using s by (cases s) auto
  show ?thesis
  proof (cases "byte c < 0x80")
    case True
    with d s_eq show ?thesis by (auto simp: appendRune_def)
  next
    case False
    with d s_eq ok have c: "0xC2 \<le> byte c" "byte c \<le> 0xF4"
      by (auto simp: decodeRune_def split: if_splits)
    with d s_eq ok False obtain c1 cs1 where cs: "cs = c1 # cs1"
      by (cases cs) (auto simp: decodeRune_def)
    with d s_eq ok False c have c1: "accept_lo (byte c) \<le> byte c1" "byte c1 \<le> accept_hi (byte c)"
      by (auto simp: decodeRune_def split: if_splits)
    show ?thesis
    proof (cases "byte c < 0xE0")
      case True
      with c1 c have "0x80 \<le> byte c1" "byte c1 \<le> 0xBF"
        by (auto simp: accept_lo_def accept_hi_def)
      with encode_decode2 [of "byte c" "byte c1"] True c c1 d s_eq cs False show ?thesis
        by (auto simp: decodeRune_def)
    next
      case e0: False
      with d s_eq ok False c c1 cs obtain c2 cs2 where cs1: "cs1 = c2 # cs2"
        by (cases cs1) (auto simp: decodeRune_def)
      with d s_eq ok False c c1 cs e0 have c2: "cont (byte c2)"
        by (auto simp: decodeRune_def split: if_splits)
      show ?thesis
      proof (cases "byte c < 0xF0")
        case True
        with encode_decode3 [of "byte c" "byte c1" "byte c2"] e0 c c1 c2 d s_eq cs cs1 False
        show ?thesis by (auto simp: decodeRune_def)
      next
        case f0: False
        with d s_eq ok False c c1 cs e0 c2 cs1 obtain c3 cs3 where cs2: "cs2 = c3 # cs3"
          by (cases cs2) (auto simp: decodeRune_def)
        with d s_eq ok False c c1 cs e0 c2 cs1 f0 have c3: "cont (byte c3)"
          by (auto simp: decodeRune_def split: if_splits)
        with encode_decode4 [of "byte c" "byte c1" "byte c2" "byte c3"]
          e0 f0 c c1 c2 d s_eq cs cs1 cs2 False
        show ?thesis by (auto simp: decodeRune_def)
      qed
    qed
  qed
qed

lemma appendRune_high: "0x80 \<le> r \<Longrightarrow> c \<in> set (appendRune r) \<Longrightarrow> 0x80 \<le> byte c"
  by (auto simp: appendRune_def encode3_def of_char_of split: if_splits)

end
