(* ===== verification/Go_Strings.thy ===== *)
theory Go_Strings
  imports Go_Utf8
begin

text \<open>
  Go's \<open>strings.TrimSpace\<close>: Unicode white space runes removed from both ends, decoding
  forwards at the front and backwards (\<open>utf8.DecodeLastRuneInString\<close>) at the end.
\<close>

definition isSpaceRune :: "nat \<Rightarrow> bool" where
  "isSpaceRune r \<longleftrightarrow> r \<in> {9, 10, 11, 12, 13, 0x20, 0x85, 0xA0, 0x1680, 0x2028, 0x2029, 0x202F, 0x205F, 0x3000}
     \<or> 0x2000 \<le> r \<and> r \<le> 0x200A"

text \<open>
  The last rune: a byte below 0x80 is one; otherwise the nearest earlier byte within the last
  four that is no continuation byte starts it, and it must decode to exactly the rest.
\<close>

definition decodeLastRune :: "string \<Rightarrow> nat \<times> nat" where
  "decodeLastRune s =
     (if s = [] then (RuneError, 0)
      else if byte (last s) < 0x80 then (byte (last s), 1)
      else (case List.find (\<lambda>i. \<not> cont (byte (s ! i))) (rev [length s - 4 ..< length s - 1]) of
              None \<Rightarrow> (RuneError, 1)
            | Some i \<Rightarrow> (let (r, w) = decodeRune (drop i s)
                         in if i + w = length s then (r, w) else (RuneError, 1))))"

function trimLeft :: "string \<Rightarrow> string" where
  "trimLeft [] = []"
| "trimLeft (c # cs) =
     (let (r, w) = decodeRune (c # cs)
      in if isSpaceRune r then trimLeft (drop (w - 1) cs) else c # cs)"
  by pat_completeness auto
termination
  by (relation "measure length") auto

function trimRight :: "string \<Rightarrow> string" where
  "trimRight s =
     (if s = [] then []
      else let (r, w) = decodeLastRune s
           in if isSpaceRune r then trimRight (take (length s - max 1 w) s) else s)"
  by pat_completeness auto
termination
  by (relation "measure length") auto

declare trimRight.simps [simp del]

definition strings_TrimSpace :: "string \<Rightarrow> string" where
  "strings_TrimSpace s = trimRight (trimLeft s)"

text \<open>What trimming guarantees at each end.\<close>

lemma trimLeft_head: "trimLeft s = [] \<or> \<not> isSpaceRune (fst (decodeRune (trimLeft s)))"
  by (induction s rule: trimLeft.induct) (auto split: prod.split)

lemma trimRight_last: "trimRight s = [] \<or> \<not> isSpaceRune (fst (decodeLastRune (trimRight s)))"
proof (induction s rule: trimRight.induct)
  case (1 s)
  obtain r w where d: "decodeLastRune s = (r, w)" by fastforce
  show ?case
  proof (cases "s \<noteq> [] \<and> isSpaceRune r")
    case True
    with 1 d have "trimRight (take (length s - max 1 w) s) = [] \<or>
        \<not> isSpaceRune (fst (decodeLastRune (trimRight (take (length s - max 1 w) s))))"
      by simp
    moreover have "trimRight s = trimRight (take (length s - max 1 w) s)"
      by (subst trimRight.simps) (simp add: True d)
    ultimately show ?thesis by simp
  next
    case False
    then have "trimRight s = s"
      by (subst trimRight.simps) (auto simp: d)
    with False d show ?thesis by auto
  qed
qed

lemma TrimSpace_empty: "strings_TrimSpace [] = []"
  by (simp add: strings_TrimSpace_def trimRight.simps)

lemma TrimSpace_last:
  "strings_TrimSpace s \<noteq> [] \<Longrightarrow> \<not> isSpaceRune (fst (decodeLastRune (strings_TrimSpace s)))"
  using trimRight_last [of "trimLeft s"] by (auto simp: strings_TrimSpace_def)

lemma trimLeft_suffix: "\<exists>p. s = p @ trimLeft s"
proof (induction s rule: trimLeft.induct)
  case 1
  then show ?case by simp
next
  case (2 c cs)
  obtain r w where d: "decodeRune (c # cs) = (r, w)" by fastforce
  show ?case
  proof (cases "isSpaceRune r")
    case True
    with 2 d have "\<exists>p. drop (w - 1) cs = p @ trimLeft (drop (w - 1) cs)" by fastforce
    then obtain p where "drop (w - 1) cs = p @ trimLeft (drop (w - 1) cs)" ..
    then have "c # cs = (c # take (w - 1) cs @ p) @ trimLeft (drop (w - 1) cs)"
      by (metis append_Cons append_assoc append_take_drop_id)
    moreover have "trimLeft (c # cs) = trimLeft (drop (w - 1) cs)" using True d by simp
    ultimately show ?thesis by (simp only:) blast
  next
    case False
    with d show ?thesis by simp
  qed
qed

lemma trimRight_prefix: "\<exists>q. s = trimRight s @ q"
proof (induction s rule: trimRight.induct)
  case (1 s)
  obtain r w where d: "decodeLastRune s = (r, w)" by fastforce
  show ?case
  proof (cases "s \<noteq> [] \<and> isSpaceRune r")
    case True
    let ?t = "take (length s - max 1 w) s"
    from True 1 d have "\<exists>q. ?t = trimRight ?t @ q" by fastforce
    then obtain q where "?t = trimRight ?t @ q" ..
    moreover have "trimRight s = trimRight ?t"
      by (subst trimRight.simps) (simp add: True d)
    ultimately have "s = trimRight s @ (q @ drop (length s - max 1 w) s)"
      by (metis append_assoc append_take_drop_id)
    then show ?thesis by blast
  next
    case False
    then have "trimRight s = s"
      by (subst trimRight.simps) (auto simp: d)
    then show ?thesis by simp
  qed
qed

lemma TrimSpace_infix: "\<exists>p q. s = p @ strings_TrimSpace s @ q"
  using trimLeft_suffix [of s] trimRight_prefix [of "trimLeft s"]
  by (metis strings_TrimSpace_def)

end
