(* ===== verification/Namespace.thy ===== *)
theory Namespace
  imports Go_Strings
begin

text \<open>
  \<open>internal/controller/namespace.go\<close>: the namespace of the controller, resolved once from the
  environment, the service account file or a default, and cached behind a \<open>sync.Once\<close>. The
  environment of the process is a record of the two sources; the package variables are the
  record \<open>ns_cache\<close>.
\<close>

section \<open>The code\<close>

definition serviceAccountNamespaceFile :: string where
  "serviceAccountNamespaceFile = ''/var/run/secrets/kubernetes.io/serviceaccount/namespace''"

definition podNamespaceEnvVar :: string where
  "podNamespaceEnvVar = ''POD_NAMESPACE''"

definition defaultNamespace :: string where
  "defaultNamespace = ''karpenter''"

text \<open>\<open>os.Getenv\<close> gives the empty string for an unset variable; \<open>os.ReadFile\<close> can fail.\<close>

record process_env =
  env_Getenv :: "string \<Rightarrow> string"
  env_ReadFile :: "string \<Rightarrow> bytes result"

record ns_cache =
  namespaceOnce :: bool
  cachedNamespace :: string

definition ns_init :: ns_cache where
  "ns_init = \<lparr>namespaceOnce = False, cachedNamespace = ''''\<rparr>"

text \<open>The function passed to \<open>namespaceOnce.Do\<close>: the value it leaves in \<open>cachedNamespace\<close>.\<close>

definition resolveNamespace :: "process_env \<Rightarrow> string" where
  "resolveNamespace env =
     (let ns = strings_TrimSpace (env_Getenv env podNamespaceEnvVar)
      in if ns \<noteq> '''' then ns
         else (case env_ReadFile env serviceAccountNamespaceFile of
                 Inl err \<Rightarrow> defaultNamespace
               | Inr data \<Rightarrow>
                   (let ns = strings_TrimSpace data
                    in if ns \<noteq> '''' then ns else defaultNamespace)))"

definition controllerNamespace :: "process_env \<Rightarrow> ns_cache \<Rightarrow> string \<times> ns_cache" where
  "controllerNamespace env st =
     (let st' = (if namespaceOnce st then st
                 else st\<lparr>namespaceOnce := True, cachedNamespace := resolveNamespace env\<rparr>)
      in (cachedNamespace st', st'))"

section \<open>Invariant of the cache\<close>

definition ns_inv :: "ns_cache \<Rightarrow> bool" where
  "ns_inv st \<longleftrightarrow> (namespaceOnce st \<longrightarrow> cachedNamespace st \<noteq> '''')"

lemma ns_inv_init: "ns_inv ns_init"
  by (simp add: ns_inv_def ns_init_def)

lemma resolveNamespace_nonempty: "resolveNamespace env \<noteq> ''''"
  by (auto simp: resolveNamespace_def defaultNamespace_def Let_def split: sum.splits)

lemma controllerNamespace_inv: "ns_inv st \<Longrightarrow> ns_inv (snd (controllerNamespace env st))"
  by (auto simp: controllerNamespace_def ns_inv_def Let_def resolveNamespace_nonempty)

lemma controllerNamespace_once: "namespaceOnce (snd (controllerNamespace env st))"
  by (simp add: controllerNamespace_def Let_def)

lemma controllerNamespace_cached:
  "namespaceOnce st \<Longrightarrow> controllerNamespace env st = (cachedNamespace st, st)"
  by (simp add: controllerNamespace_def Let_def)

text \<open>Any number of calls, each in its own environment.\<close>

fun ns_calls :: "process_env list \<Rightarrow> ns_cache \<Rightarrow> string list" where
  "ns_calls [] st = []"
| "ns_calls (e # es) st = (let (n, st') = controllerNamespace e st in n # ns_calls es st')"

lemma ns_calls_cached: "namespaceOnce st \<Longrightarrow> ns_calls es st = replicate (length es) (cachedNamespace st)"
  by (induction es) (simp_all add: controllerNamespace_cached)

section \<open>Properties\<close>

text \<open>
  All calls in a process return the namespace that the first one resolved, however
  the environment changes between them.
\<close>

theorem controllerNamespace_stable:
  "ns_calls (e # es) ns_init = replicate (Suc (length es)) (resolveNamespace e)"
  by (simp add: controllerNamespace_def ns_init_def ns_calls_cached Let_def)

text \<open>
  The order of the sources: a namespace that is not blank in the environment wins,
  then one in the service account file, and otherwise the default; the result is never blank.
\<close>

theorem resolveNamespace_order:
  "resolveNamespace env \<noteq> '''' \<and>
   resolveNamespace env =
     (let fromEnv = strings_TrimSpace (env_Getenv env ''POD_NAMESPACE'');
          fromFile = (case env_ReadFile env ''/var/run/secrets/kubernetes.io/serviceaccount/namespace''
                      of Inl _ \<Rightarrow> '''' | Inr d \<Rightarrow> strings_TrimSpace d)
      in hd (filter (\<lambda>n. n \<noteq> '''') [fromEnv, fromFile, ''karpenter'']))"
  using resolveNamespace_nonempty [of env]
  by (auto simp: resolveNamespace_def podNamespaceEnvVar_def serviceAccountNamespaceFile_def
      defaultNamespace_def Let_def split: sum.splits)

end
