(* ===== verification/Go_Text.thy ===== *)
theory Go_Text
  imports Go_Utf8
begin

text \<open>
  Hexadecimal and decimal digits as the source writes them: \<open>hex.EncodeToString\<close>, the shift
  loops of \<open>strconv\<close> and the verb \<open>%d\<close> of \<open>fmt\<close>, on byte strings. Readers of both are the
  references for the round trips.
\<close>

section \<open>Hexadecimal and decimal digits\<close>

definition lowerhex :: "nat \<Rightarrow> char" where
  "lowerhex d = (if d < 10 then chr (48 + d) else chr (87 + d))"

text \<open>\<open>hex.EncodeToString\<close>: two lower-case digits per byte.\<close>

definition hex_EncodeToString :: "bytes \<Rightarrow> string" where
  "hex_EncodeToString bs = concat (map (\<lambda>c. [lowerhex (byte c div 16), lowerhex (byte c mod 16)]) bs)"

text \<open>The low \<open>4 * k\<close> bits of a number, most significant digit first: the shift loops of \<open>strconv\<close>.\<close>

fun hexN :: "nat \<Rightarrow> nat \<Rightarrow> string" where
  "hexN 0 r = []"
| "hexN (Suc k) r = lowerhex (r div 16 ^ k mod 16) # hexN k r"

text \<open>The verb \<open>%d\<close>.\<close>

fun dec :: "nat \<Rightarrow> string" where
  "dec n = (if n < 10 then [chr (48 + n)] else dec (n div 10) @ [chr (48 + n mod 10)])"

declare dec.simps [simp del]

definition fmt_d :: "int \<Rightarrow> string" where
  "fmt_d i = (if i < 0 then CHR ''-'' # dec (nat (- i)) else dec (nat i))"

definition hexval :: "char \<Rightarrow> nat option" where
  "hexval c = (if 48 \<le> byte c \<and> byte c \<le> 57 then Some (byte c - 48)
               else if 97 \<le> byte c \<and> byte c \<le> 102 then Some (byte c - 87) else None)"

fun readHex :: "nat \<Rightarrow> nat \<Rightarrow> string \<Rightarrow> (nat \<times> string) option" where
  "readHex 0 acc s = Some (acc, s)"
| "readHex (Suc k) acc [] = None"
| "readHex (Suc k) acc (c # cs) =
     (case hexval c of None \<Rightarrow> None | Some d \<Rightarrow> readHex k (acc * 16 + d) cs)"

lemma length_hex_EncodeToString [simp]: "length (hex_EncodeToString bs) = 2 * length bs"
  by (induction bs) (simp_all add: hex_EncodeToString_def)

lemma byte_lowerhex: "d < 16 \<Longrightarrow> byte (lowerhex d) = (if d < 10 then 48 + d else 87 + d)"
  by (simp add: lowerhex_def of_char_of)

lemma hexval_lowerhex [simp]: "d < 16 \<Longrightarrow> hexval (lowerhex d) = Some d"
  by (simp add: hexval_def byte_lowerhex)

lemma lowerhex_inj: "d < 16 \<Longrightarrow> e < 16 \<Longrightarrow> lowerhex d = lowerhex e \<Longrightarrow> d = e"
  by (metis hexval_lowerhex option.inject)

lemma nibble_bound: "byte c div 16 < 16"
  by (rule less_mult_imp_div_less) (simp add: byte_less)

lemma div_mod_eq: "m div 16 = n div 16 \<Longrightarrow> m mod 16 = n mod 16 \<Longrightarrow> m = (n::nat)"
  by (metis div_mult_mod_eq)

lemma lowerhex_printable: "d < 16 \<Longrightarrow> 48 \<le> byte (lowerhex d) \<and> byte (lowerhex d) \<le> 102"
  by (simp add: byte_lowerhex)

lemma length_hexN [simp]: "length (hexN k r) = k"
  by (induction k) simp_all

lemma hexN_range: "c \<in> set (hexN k r) \<Longrightarrow> 48 \<le> byte c \<and> byte c \<le> 102"
  by (induction k) (auto simp: lowerhex_printable)

lemma readHex_length: "readHex k acc s = Some (n, t) \<Longrightarrow> length t \<le> length s"
  by (induction k acc s rule: readHex.induct) (auto split: option.splits)

text \<open>Reading back the digits that \<open>hexN\<close> wrote.\<close>

lemma readHex_hexN: "readHex k acc (hexN k r @ t) = Some (acc * 16 ^ k + r mod 16 ^ k, t)"
proof (induction k arbitrary: acc)
  case 0
  then show ?case by simp
next
  case (Suc k)
  have m: "r mod 16 ^ Suc k = 16 ^ k * (r div 16 ^ k mod 16) + r mod 16 ^ k"
    by (simp only: power_Suc2 mod_mult2_eq)
  have "readHex (Suc k) acc (hexN (Suc k) r @ t)
      = Some ((acc * 16 + r div 16 ^ k mod 16) * 16 ^ k + r mod 16 ^ k, t)"
    by (simp add: Suc.IH)
  also have "(acc * 16 + r div 16 ^ k mod 16) * 16 ^ k + r mod 16 ^ k
      = acc * 16 ^ Suc k + r mod 16 ^ Suc k"
    unfolding m by (simp add: algebra_simps)
  finally show ?case .
qed

lemma hex_EncodeToString_inj: "hex_EncodeToString a = hex_EncodeToString b \<Longrightarrow> a = b"
proof (induction a arbitrary: b)
  case Nil
  then show ?case by (cases b) (simp_all add: hex_EncodeToString_def)
next
  case (Cons c a)
  then obtain d b' where b: "b = d # b'"
    by (cases b) (auto simp: hex_EncodeToString_def)
  with Cons.prems have l: "lowerhex (byte c div 16) = lowerhex (byte d div 16)"
      "lowerhex (byte c mod 16) = lowerhex (byte d mod 16)"
    and r: "hex_EncodeToString a = hex_EncodeToString b'"
    by (simp_all add: hex_EncodeToString_def)
  have "byte c div 16 = byte d div 16" "byte c mod 16 = byte d mod 16"
    using lowerhex_inj [OF nibble_bound nibble_bound l(1)] lowerhex_inj [OF _ _ l(2)] by auto
  then have "byte c = byte d" by (rule div_mod_eq)
  then have "c = d" by (simp only: byte_eq_iff)
  with Cons.IH [OF r] b show ?case by simp
qed

text \<open>Decimal digits read back.\<close>

definition readDec :: "string \<Rightarrow> nat" where
  "readDec s = foldl (\<lambda>a c. a * 10 + (byte c - 48)) 0 s"

definition isDigit :: "char \<Rightarrow> bool" where
  "isDigit c \<longleftrightarrow> 48 \<le> byte c \<and> byte c \<le> 57"

lemma dec_digits: "c \<in> set (dec n) \<Longrightarrow> isDigit c"
proof (induction n rule: dec.induct)
  case (1 n)
  then show ?case
    by (cases "n < 10") (auto simp: dec.simps [of n] isDigit_def of_char_of)
qed

lemma dec_nonempty [simp]: "dec n \<noteq> []"
  by (simp add: dec.simps [of n])

lemma readDec_dec: "readDec (dec n) = n"
proof (induction n rule: dec.induct)
  case (1 n)
  then show ?case
    by (cases "n < 10") (simp_all add: dec.simps [of n] readDec_def of_char_of)
qed

lemma dec_inj: "dec m = dec n \<Longrightarrow> m = n"
  by (metis readDec_dec)

definition readInt :: "string \<Rightarrow> int" where
  "readInt s = (case s of [] \<Rightarrow> 0
     | c # cs \<Rightarrow> if c = CHR ''-'' then - int (readDec cs) else int (readDec s))"

lemma readInt_fmt_d: "readInt (fmt_d i) = i"
proof (cases "i < 0")
  case True
  then show ?thesis by (simp add: readInt_def fmt_d_def readDec_dec)
next
  case False
  obtain c cs where d: "dec (nat i) = c # cs" by (cases "dec (nat i)") auto
  then have "isDigit c" using dec_digits [of c "nat i"] by simp
  then have "c \<noteq> CHR ''-''" by (auto simp: isDigit_def)
  with d False readDec_dec [of "nat i"] show ?thesis
    by (simp add: readInt_def fmt_d_def)
qed

lemma fmt_d_chars: "c \<in> set (fmt_d i) \<Longrightarrow> isDigit c \<or> c = CHR ''-''"
  by (auto simp: fmt_d_def dest: dec_digits split: if_splits)

end
