(* ===== verification/Go_Sha256.thy ===== *)
theory Go_Sha256
  imports Go_Text
begin

unbundle bit_operations_syntax

text \<open>
  Go's \<open>crypto/sha256.Sum256\<close> on byte strings (FIPS 180-4), executable over 32-bit words:
  padding, message schedule, compression of one block, and the digest as 32 bytes.
\<close>

type_synonym word32 = "32 word"
type_synonym digest_state = "word32 list"

text \<open>
  The constants as the standard defines them: the first 32 bits of the fractional parts of the
  cube roots of the first sixty-four primes, and of the square roots of the first eight. The
  root of a number is found bit by bit.
\<close>

fun root_bits :: "nat \<Rightarrow> int \<Rightarrow> nat \<Rightarrow> int \<Rightarrow> int" where
  "root_bits e n 0 r = r"
| "root_bits e n (Suc i) r = root_bits e n i (if (r + 2 ^ i) ^ e \<le> n then r + 2 ^ i else r)"

lemma root_bits_floor:
  "r ^ e \<le> n \<Longrightarrow> n < (r + 2 ^ i) ^ e \<Longrightarrow>
     root_bits e n i r ^ e \<le> n \<and> n < (root_bits e n i r + 1) ^ e"
proof (induction i arbitrary: r)
  case (Suc i)
  have eq: "r + 2 ^ i + 2 ^ i = r + 2 ^ Suc i" by simp
  show ?case
  proof (cases "(r + 2 ^ i) ^ e \<le> n")
    case True
    then show ?thesis using Suc.IH [OF True] Suc.prems(2) unfolding eq by (simp only: root_bits.simps if_True)
  next
    case False
    then have "n < (r + 2 ^ i) ^ e" by simp
    from Suc.IH [OF Suc.prems(1) this] show ?thesis using False by (simp only: root_bits.simps if_False)
  qed
qed simp

definition first_primes :: "int list" where
  "first_primes = [
    2, 3, 5, 7, 11, 13, 17, 19, 23, 29, 31, 37, 41, 43, 47, 53,
    59, 61, 67, 71, 73, 79, 83, 89, 97, 101, 103, 107, 109, 113, 127, 131,
    137, 139, 149, 151, 157, 163, 167, 173, 179, 181, 191, 193, 197, 199, 211, 223,
    227, 229, 233, 239, 241, 251, 257, 263, 269, 271, 277, 281, 283, 293, 307, 311]"

text \<open>\<open>2 ^ 36\<close> bounds the roots: the largest is that of \<open>311 * 2 ^ 96\<close>.\<close>

definition sha_k :: "word32 list" where
  "sha_k = map (\<lambda>p. word_of_int (root_bits 3 (p * 2 ^ 96) 36 0)) first_primes"

definition sha_init :: digest_state where
  "sha_init = map (\<lambda>p. word_of_int (root_bits 2 (p * 2 ^ 64) 36 0)) (take 8 first_primes)"

lemma length_sha_init [simp]: "length sha_init = 8"
  by (simp add: sha_init_def first_primes_def)

definition big_sigma0 :: "word32 \<Rightarrow> word32" where
  "big_sigma0 x = word_rotr 2 x XOR word_rotr 13 x XOR word_rotr 22 x"

definition big_sigma1 :: "word32 \<Rightarrow> word32" where
  "big_sigma1 x = word_rotr 6 x XOR word_rotr 11 x XOR word_rotr 25 x"

definition small_sigma0 :: "word32 \<Rightarrow> word32" where
  "small_sigma0 x = word_rotr 7 x XOR word_rotr 18 x XOR drop_bit 3 x"

definition small_sigma1 :: "word32 \<Rightarrow> word32" where
  "small_sigma1 x = word_rotr 17 x XOR word_rotr 19 x XOR drop_bit 10 x"

definition sha_ch :: "word32 \<Rightarrow> word32 \<Rightarrow> word32 \<Rightarrow> word32" where
  "sha_ch e f g = (e AND f) XOR (NOT e AND g)"

definition sha_maj :: "word32 \<Rightarrow> word32 \<Rightarrow> word32 \<Rightarrow> word32" where
  "sha_maj a b c = (a AND b) XOR (a AND c) XOR (b AND c)"

text \<open>One round on the eight working variables.\<close>

fun sha_round :: "digest_state \<Rightarrow> word32 \<times> word32 \<Rightarrow> digest_state" where
  "sha_round [a, b, c, d, e, f, g, h] (k, w) =
     (let t1 = h + big_sigma1 e + sha_ch e f g + k + w;
          t2 = big_sigma0 a + sha_maj a b c
      in [t1 + t2, a, b, c, d + t1, e, f, g])"
| "sha_round st kw = st"

text \<open>
  The message schedule: a window of the last sixteen words (oldest first) produces the next
  word, \<open>n\<close> more times.
\<close>

fun sha_expand :: "nat \<Rightarrow> word32 list \<Rightarrow> word32 list" where
  "sha_expand 0 win = []"
| "sha_expand (Suc n) win =
     (let w = small_sigma1 (win ! 14) + win ! 9 + small_sigma0 (win ! 1) + win ! 0
      in w # sha_expand n (tl win @ [w]))"

definition be_word :: "bytes \<Rightarrow> word32" where
  "be_word bs = foldl (\<lambda>a c. a * 256 + of_nat (byte c)) 0 bs"

fun be_words :: "nat \<Rightarrow> bytes \<Rightarrow> word32 list" where
  "be_words 0 bs = []"
| "be_words (Suc n) bs = be_word (take 4 bs) # be_words n (drop 4 bs)"

definition sha_compress :: "digest_state \<Rightarrow> bytes \<Rightarrow> digest_state" where
  "sha_compress st block =
     (let w16 = be_words 16 block
      in map2 (+) st (foldl sha_round st (zip sha_k (w16 @ sha_expand 48 w16))))"

text \<open>The low \<open>k\<close> bytes of a word, most significant first.\<close>

fun be_bytes :: "nat \<Rightarrow> 'a::len word \<Rightarrow> bytes" where
  "be_bytes 0 w = []"
| "be_bytes (Suc k) w = chr (unat (drop_bit (8 * k) w AND 255)) # be_bytes k w"

text \<open>Padding: a one bit, zeros up to 56 modulo 64, the length in bits as 64 bits.\<close>

definition sha_pad :: "bytes \<Rightarrow> bytes" where
  "sha_pad m = m @ [chr 0x80] @ replicate ((119 - length m mod 64) mod 64) (chr 0)
               @ be_bytes 8 (of_nat (8 * length m) :: 64 word)"

fun sha_blocks :: "nat \<Rightarrow> digest_state \<Rightarrow> bytes \<Rightarrow> digest_state" where
  "sha_blocks 0 st bs = st"
| "sha_blocks (Suc n) st bs = sha_blocks n (sha_compress st (take 64 bs)) (drop 64 bs)"

definition sha256_Sum256 :: "bytes \<Rightarrow> bytes" where
  "sha256_Sum256 m =
     (let p = sha_pad m
      in concat (map (\<lambda>w. be_bytes 4 w) (sha_blocks (length p div 64) sha_init p)))"

section \<open>Lengths\<close>

lemma length_be_bytes [simp]: "length (be_bytes k n) = k"
  by (induction k) simp_all

lemma pad_to_block: "64 dvd n + 1 + (119 - n mod 64) mod 64 + (8::nat)"
proof -
  define q r where "q = n div 64" and "r = n mod 64"
  then have n: "n = 64 * q + r" and r: "r < 64" by simp_all
  have "(119 - r) mod 64 = (if r \<le> 55 then 55 - r else 119 - r)"
    using r by (cases "r \<le> 55") (simp_all add: mod_if)
  then have "n + 1 + (119 - r) mod 64 + 8 = 64 * (if r \<le> 55 then q + 1 else q + 2)"
    using n r by auto
  then show ?thesis unfolding r_def by simp
qed

lemma sha_pad_blocks: "64 dvd length (sha_pad m)"
proof -
  have "length (sha_pad m) = length m + 1 + (119 - length m mod 64) mod 64 + 8"
    by (simp add: sha_pad_def)
  with pad_to_block [of "length m"] show ?thesis by (simp only:)
qed

lemma length_sha_round: "length st = 8 \<Longrightarrow> length (sha_round st kw) = 8"
  by (induction st kw rule: sha_round.induct) (simp_all add: Let_def)

lemma length_sha_rounds: "length st = 8 \<Longrightarrow> length (foldl sha_round st kws) = 8"
  by (induction kws arbitrary: st) (simp_all add: length_sha_round)

lemma length_sha_compress: "length st = 8 \<Longrightarrow> length (sha_compress st b) = 8"
  by (simp add: sha_compress_def Let_def length_sha_rounds)

lemma length_sha_blocks: "length st = 8 \<Longrightarrow> length (sha_blocks n st bs) = 8"
  by (induction n arbitrary: st bs) (simp_all add: length_sha_compress)

lemma length_sha256 [simp]: "length (sha256_Sum256 m) = 32"
proof -
  have "length (concat (map (\<lambda>w. be_bytes 4 w) ws)) = 4 * length ws" for ws :: "word32 list"
    by (induction ws) simp_all
  then show ?thesis
    by (simp add: sha256_Sum256_def Let_def length_sha_blocks)
qed

end
