(* ===== verification/Image_Reconciler.thy ===== *)
theory Image_Reconciler
  imports Kube Namespace Go_Sha256
begin

text \<open>
  \<open>internal/controller/pvenodeimage_controller.go\<close>: the reconciler of \<open>PVENodeImage\<close>. The
  arguments are the client of the API server, the library helpers, the process environment
  and the clock \<open>clk\<close>, whose \<open>i\<close>-th reading within a pass is \<open>clk i\<close>; the state is the
  cluster and the namespace cache of the process. Logging is left out.
\<close>

section \<open>Constants\<close>

definition ConditionTypeBuilding :: string where "ConditionTypeBuilding = ''Building''"
definition ConditionTypeBuildSucceeded :: string where "ConditionTypeBuildSucceeded = ''BuildSucceeded''"

definition ReasonBuildPending :: string where "ReasonBuildPending = ''BuildPending''"
definition ReasonBuildStarted :: string where "ReasonBuildStarted = ''BuildStarted''"
definition ReasonBuildInProgress :: string where "ReasonBuildInProgress = ''BuildInProgress''"
definition ReasonBuildComplete :: string where "ReasonBuildComplete = ''BuildComplete''"
definition ReasonBuildFailed :: string where "ReasonBuildFailed = ''BuildFailed''"
definition ReasonSpecChanged :: string where "ReasonSpecChanged = ''SpecChanged''"
definition ReasonTemplateCurrent :: string where "ReasonTemplateCurrent = ''TemplateCurrent''"

text \<open>Thirty seconds, in nanoseconds.\<close>

definition requeueWhileBuilding :: int where "requeueWhileBuilding = 30 * 1000000000"

definition labelSpecHash :: string where "labelSpecHash = ''karpenter.algo7.dev/spec-hash''"
definition labelManagedByCR :: string where "labelManagedByCR = ''karpenter.algo7.dev/pvenodeimage''"

lemmas reason_defs = ReasonBuildPending_def ReasonBuildStarted_def ReasonBuildInProgress_def
  ReasonBuildComplete_def ReasonBuildFailed_def ReasonSpecChanged_def ReasonTemplateCurrent_def

lemmas cond_type_defs = ConditionTypeBuilding_def ConditionTypeBuildSucceeded_def

section \<open>Helpers\<close>

fun isOwnedBy_loop :: "OwnerReference list \<Rightarrow> string \<Rightarrow> bool" where
  "isOwnedBy_loop [] uid = False"
| "isOwnedBy_loop (ref # refs) uid = (if or_UID ref = uid then True else isOwnedBy_loop refs uid)"

definition isOwnedBy :: "Job \<Rightarrow> PVENodeImage \<Rightarrow> bool" where
  "isOwnedBy obj owner =
     isOwnedBy_loop (om_OwnerReferences (jb_ObjectMeta obj)) (om_UID (im_ObjectMeta owner))"

fun finished_loop :: "JobCondition list \<Rightarrow> bool" where
  "finished_loop [] = False"
| "finished_loop (c # cs) =
     (if (jc_Type c = JobComplete \<or> jc_Type c = JobFailed) \<and> jc_Status c = ConditionTrue
      then True else finished_loop cs)"

definition isJobFinished :: "Job \<Rightarrow> bool" where
  "isJobFinished job = finished_loop (jb_Conditions job)"

fun succeeded_loop :: "JobCondition list \<Rightarrow> bool" where
  "succeeded_loop [] = False"
| "succeeded_loop (c # cs) =
     (if jc_Type c = JobComplete \<and> jc_Status c = ConditionTrue then True else succeeded_loop cs)"

definition jobSucceeded :: "Job \<Rightarrow> bool" where
  "jobSucceeded job = succeeded_loop (jb_Conditions job)"

definition hashSpec :: "kube_libs \<Rightarrow> PVENodeImageSpec \<Rightarrow> string result" where
  "hashSpec lib spec =
     (case kl_yaml_Marshal lib spec of
        Inl err \<Rightarrow> Inl (Wrap ''marshal spec'' err)
      | Inr data \<Rightarrow> Inr (hex_EncodeToString (sha256_Sum256 data)))"

definition setCondition ::
    "kube_libs \<Rightarrow> Time \<Rightarrow> PVENodeImage \<Rightarrow> string \<Rightarrow> ConditionStatus \<Rightarrow> string \<Rightarrow> string
       \<Rightarrow> bool \<times> PVENodeImage" where
  "setCondition lib now img condType condStatus reason message =
     (let (changed, cs) = kl_SetStatusCondition lib now (ist_Conditions (im_Status img))
            \<lparr>co_Type = condType, co_Status = condStatus,
             co_ObservedGeneration = om_Generation (im_ObjectMeta img),
             co_LastTransitionTime = 0, co_Reason = reason, co_Message = message\<rparr>
      in (changed, img\<lparr>im_Status := (im_Status img)\<lparr>ist_Conditions := cs\<rparr>\<rparr>))"

text \<open>The state of a controller process: the cluster and the package variables of \<open>namespace.go\<close>.\<close>

record 'w process =
  pr_Cluster :: 'w
  pr_Namespace :: ns_cache

definition updateStatusIfChanged ::
    "'w kube_client \<Rightarrow> PVENodeImage \<Rightarrow> bool \<Rightarrow> 'w process \<Rightarrow> go_error option \<times> 'w process" where
  "updateStatusIfChanged cl img changed s =
     (if \<not> changed then (None, s)
      else (case kc_StatusUpdate cl img (pr_Cluster s) of
              (Some err, w) \<Rightarrow> (Some (Wrap ''update status'' err), s\<lparr>pr_Cluster := w\<rparr>)
            | (None, w) \<Rightarrow> (None, s\<lparr>pr_Cluster := w\<rparr>)))"

fun findOwned :: "Job list \<Rightarrow> PVENodeImage \<Rightarrow> Job option" where
  "findOwned [] img = None"
| "findOwned (j # jobs) img = (if isOwnedBy j img then Some j else findOwned jobs img)"

definition findBuildJob ::
    "'w kube_client \<Rightarrow> process_env \<Rightarrow> PVENodeImage \<Rightarrow> string \<Rightarrow> 'w process
       \<Rightarrow> Job option result \<times> 'w process" where
  "findBuildJob cl env img desiredHash s =
     (let (ns, cache) = controllerNamespace env (pr_Namespace s);
          s' = s\<lparr>pr_Namespace := cache\<rparr>
      in case kc_List cl \<lparr>lo_Namespace = ns,
                lo_MatchingLabels = [labelSpecHash \<mapsto> desiredHash,
                                     labelManagedByCR \<mapsto> om_Name (im_ObjectMeta img)]\<rparr> (pr_Cluster s') of
           Inl err \<Rightarrow> (Inl err, s')
         | Inr jobs \<Rightarrow> (Inr (findOwned jobs img), s'))"

section \<open>Reconcile\<close>

text \<open>
  The body after the job lookup, one case of the source each. Every
  \<open>statusChanged = setCondition(...) || statusChanged\<close> evaluates the call first.
\<close>

definition reconcilePending ::
    "'w kube_client \<Rightarrow> kube_libs \<Rightarrow> (nat \<Rightarrow> Time) \<Rightarrow> PVENodeImage \<Rightarrow> 'w process
       \<Rightarrow> (Result \<times> go_error option) \<times> 'w process" where
  "reconcilePending cl lib clk img s =
     (let (c1, img) = setCondition lib (clk 0) img ConditionTypeBuilding ConditionTrue
            ReasonBuildPending ''Build Job not yet created'';
          (c2, img) = setCondition lib (clk 1) img ConditionTypeBuildSucceeded ConditionFalse
            ReasonSpecChanged ''Build in progress for new spec''
      in case updateStatusIfChanged cl img (c2 \<or> c1) s of
           (Some err, s) \<Rightarrow> ((Result0, Some err), s)
         | (None, s) \<Rightarrow> ((\<lparr>RequeueAfter = requeueWhileBuilding\<rparr>, None), s))"

definition reconcileRunning ::
    "'w kube_client \<Rightarrow> kube_libs \<Rightarrow> (nat \<Rightarrow> Time) \<Rightarrow> PVENodeImage \<Rightarrow> 'w process
       \<Rightarrow> (Result \<times> go_error option) \<times> 'w process" where
  "reconcileRunning cl lib clk img s =
     (let (c1, img) = setCondition lib (clk 0) img ConditionTypeBuilding ConditionTrue
            ReasonBuildInProgress ''Packer build is running'';
          (c2, img) = setCondition lib (clk 1) img ConditionTypeBuildSucceeded ConditionFalse
            ReasonBuildInProgress ''Build in progress''
      in case updateStatusIfChanged cl img (c2 \<or> c1) s of
           (Some err, s) \<Rightarrow> ((Result0, Some err), s)
         | (None, s) \<Rightarrow> ((\<lparr>RequeueAfter = requeueWhileBuilding\<rparr>, None), s))"

definition reconcileSucceeded ::
    "'w kube_client \<Rightarrow> kube_libs \<Rightarrow> (nat \<Rightarrow> Time) \<Rightarrow> PVENodeImage \<Rightarrow> string \<Rightarrow> 'w process
       \<Rightarrow> (Result \<times> go_error option) \<times> 'w process" where
  "reconcileSucceeded cl lib clk img desiredHash s =
     (let img = img\<lparr>im_Status := (im_Status img)\<lparr>ist_ObservedSpecHash := desiredHash,
                                               ist_LastBuildTime := Some (clk 0)\<rparr>\<rparr>;
          statusChanged = True;
          (c1, img) = setCondition lib (clk 1) img ConditionTypeBuilding ConditionFalse
            ReasonBuildComplete ''Build completed successfully'';
          (c2, img) = setCondition lib (clk 2) img ConditionTypeBuildSucceeded ConditionTrue
            ReasonBuildComplete ''Template built and available'';
          (err, s) = updateStatusIfChanged cl img statusChanged s
      in ((Result0, err), s))"

definition reconcileFailed ::
    "'w kube_client \<Rightarrow> kube_libs \<Rightarrow> (nat \<Rightarrow> Time) \<Rightarrow> PVENodeImage \<Rightarrow> 'w process
       \<Rightarrow> (Result \<times> go_error option) \<times> 'w process" where
  "reconcileFailed cl lib clk img s =
     (let (c1, img) = setCondition lib (clk 0) img ConditionTypeBuilding ConditionFalse
            ReasonBuildFailed ''Packer build failed; see Job logs'';
          (c2, img) = setCondition lib (clk 1) img ConditionTypeBuildSucceeded ConditionFalse
            ReasonBuildFailed ''Most recent build failed'';
          (err, s) = updateStatusIfChanged cl img (c2 \<or> c1) s
      in ((Result0, err), s))"

definition reconcileCurrent ::
    "'w kube_client \<Rightarrow> kube_libs \<Rightarrow> (nat \<Rightarrow> Time) \<Rightarrow> PVENodeImage \<Rightarrow> 'w process
       \<Rightarrow> (Result \<times> go_error option) \<times> 'w process" where
  "reconcileCurrent cl lib clk img s =
     (let (c1, img) = setCondition lib (clk 0) img ConditionTypeBuilding ConditionFalse
            ReasonBuildComplete ''Template is up to date'';
          (c2, img) = setCondition lib (clk 1) img ConditionTypeBuildSucceeded ConditionTrue
            ReasonTemplateCurrent ''Template matches current spec'';
          (err, s) = updateStatusIfChanged cl img (c2 \<or> c1) s
      in ((Result0, err), s))"

definition Reconcile ::
    "'w kube_client \<Rightarrow> kube_libs \<Rightarrow> process_env \<Rightarrow> (nat \<Rightarrow> Time) \<Rightarrow> NamespacedName \<Rightarrow> 'w process
       \<Rightarrow> (Result \<times> go_error option) \<times> 'w process" where
  "Reconcile cl lib env clk req s =
     (case kc_Get cl req (pr_Cluster s) of
        Inl err \<Rightarrow>
          (if kl_IsNotFound lib err then ((Result0, None), s)
           else ((Result0, Some (Wrap ''fetch PVENodeImage'' err)), s))
      | Inr img \<Rightarrow>
          if \<not> Time_IsZero (om_DeletionTimestamp (im_ObjectMeta img)) then ((Result0, None), s)
          else (case hashSpec lib (im_Spec img) of
            Inl err \<Rightarrow> ((Result0, Some (Wrap ''hash spec'' err)), s)
          | Inr desiredHash \<Rightarrow>
              if ist_ObservedSpecHash (im_Status img) = desiredHash \<and> ist_TemplateVMID (im_Status img) \<noteq> None
              then reconcileCurrent cl lib clk img s
              else (case findBuildJob cl env img desiredHash s of
                (Inl err, s) \<Rightarrow> ((Result0, Some (Wrap ''find build job'' err)), s)
              | (Inr None, s) \<Rightarrow> reconcilePending cl lib clk img s
              | (Inr (Some job), s) \<Rightarrow>
                  if \<not> isJobFinished job then reconcileRunning cl lib clk img s
                  else if jobSucceeded job then reconcileSucceeded cl lib clk img desiredHash s
                  else reconcileFailed cl lib clk img s)))"

end
