(* ===== verification/Image_Decision.thy ===== *)
theory Image_Decision
  imports Image_Reconciler
begin

text \<open>
  The reconciler as a decision followed by one action. The abstract specification is a
  table: each phase of an image has the pair of conditions it must show, whether the pass
  asks to be called again, and whether it records a build. \<open>Reconcile\<close> is proved equal to
  deciding the phase and acting on the table (\<open>Reconcile_refines\<close>); the properties of single
  passes follow from that equation and the contracts of the client and the helpers.
\<close>

section \<open>Loops of the helpers\<close>

lemma isOwnedBy_iff:
  "isOwnedBy j img \<longleftrightarrow> (\<exists>r \<in> set (om_OwnerReferences (jb_ObjectMeta j)). or_UID r = om_UID (im_ObjectMeta img))"
proof -
  have "isOwnedBy_loop refs u \<longleftrightarrow> (\<exists>r \<in> set refs. or_UID r = u)" for refs u
    by (induction refs) auto
  then show ?thesis by (simp add: isOwnedBy_def)
qed

lemma isJobFinished_iff:
  "isJobFinished j \<longleftrightarrow>
     (\<exists>c \<in> set (jb_Conditions j). jc_Type c \<in> {JobComplete, JobFailed} \<and> jc_Status c = ConditionTrue)"
proof -
  have "finished_loop cs \<longleftrightarrow>
      (\<exists>c \<in> set cs. jc_Type c \<in> {JobComplete, JobFailed} \<and> jc_Status c = ConditionTrue)" for cs
    by (induction cs) auto
  then show ?thesis by (simp add: isJobFinished_def)
qed

lemma jobSucceeded_iff:
  "jobSucceeded j \<longleftrightarrow>
     (\<exists>c \<in> set (jb_Conditions j). jc_Type c = JobComplete \<and> jc_Status c = ConditionTrue)"
proof -
  have "succeeded_loop cs \<longleftrightarrow>
      (\<exists>c \<in> set cs. jc_Type c = JobComplete \<and> jc_Status c = ConditionTrue)" for cs
    by (induction cs) auto
  then show ?thesis by (simp add: jobSucceeded_def)
qed

lemma findOwned_find: "findOwned jobs img = List.find (\<lambda>j. isOwnedBy j img) jobs"
  by (induction jobs) simp_all

lemma findOwned_Some: "findOwned jobs img = Some j \<Longrightarrow> j \<in> set jobs \<and> isOwnedBy j img"
  by (auto simp: findOwned_find find_Some_iff)

lemma hashSpec_length: "hashSpec lib spec = Inr h \<Longrightarrow> length h = 64"
  by (auto simp: hashSpec_def split: sum.splits)

section \<open>The table of phases\<close>

datatype phase = Pending | Running | Succeeded | Failed | Current

datatype decision = Ignore | Abort go_error | Act phase string PVENodeImage

fun building_row :: "phase \<Rightarrow> ConditionStatus \<times> string \<times> string" where
  "building_row Pending = (ConditionTrue, ReasonBuildPending, ''Build Job not yet created'')"
| "building_row Running = (ConditionTrue, ReasonBuildInProgress, ''Packer build is running'')"
| "building_row Succeeded = (ConditionFalse, ReasonBuildComplete, ''Build completed successfully'')"
| "building_row Failed = (ConditionFalse, ReasonBuildFailed, ''Packer build failed; see Job logs'')"
| "building_row Current = (ConditionFalse, ReasonBuildComplete, ''Template is up to date'')"

fun succeeded_row :: "phase \<Rightarrow> ConditionStatus \<times> string \<times> string" where
  "succeeded_row Pending = (ConditionFalse, ReasonSpecChanged, ''Build in progress for new spec'')"
| "succeeded_row Running = (ConditionFalse, ReasonBuildInProgress, ''Build in progress'')"
| "succeeded_row Succeeded = (ConditionTrue, ReasonBuildComplete, ''Template built and available'')"
| "succeeded_row Failed = (ConditionFalse, ReasonBuildFailed, ''Most recent build failed'')"
| "succeeded_row Current = (ConditionTrue, ReasonTemplateCurrent, ''Template matches current spec'')"

definition requeues :: "phase \<Rightarrow> bool" where
  "requeues p \<longleftrightarrow> p \<in> {Pending, Running}"

definition delay :: "phase \<Rightarrow> Result" where
  "delay p = (if requeues p then \<lparr>RequeueAfter = requeueWhileBuilding\<rparr> else Result0)"

definition job_phase :: "Job option \<Rightarrow> phase" where
  "job_phase oj = (case oj of None \<Rightarrow> Pending
     | Some j \<Rightarrow> if \<not> isJobFinished j then Running else if jobSucceeded j then Succeeded else Failed)"

definition is_current :: "PVENodeImage \<Rightarrow> string \<Rightarrow> bool" where
  "is_current img h \<longleftrightarrow> ist_ObservedSpecHash (im_Status img) = h \<and> ist_TemplateVMID (im_Status img) \<noteq> None"

section \<open>Decision and action\<close>

definition decide ::
    "'w kube_client \<Rightarrow> kube_libs \<Rightarrow> process_env \<Rightarrow> NamespacedName \<Rightarrow> 'w process \<Rightarrow> decision \<times> 'w process" where
  "decide cl lib env req s =
     (case kc_Get cl req (pr_Cluster s) of
        Inl err \<Rightarrow> (if kl_IsNotFound lib err then Ignore else Abort (Wrap ''fetch PVENodeImage'' err), s)
      | Inr img \<Rightarrow>
          if \<not> Time_IsZero (om_DeletionTimestamp (im_ObjectMeta img)) then (Ignore, s)
          else (case hashSpec lib (im_Spec img) of
            Inl err \<Rightarrow> (Abort (Wrap ''hash spec'' err), s)
          | Inr h \<Rightarrow>
              if is_current img h then (Act Current h img, s)
              else (case findBuildJob cl env img h s of
                (Inl err, s) \<Rightarrow> (Abort (Wrap ''find build job'' err), s)
              | (Inr oj, s) \<Rightarrow> (Act (job_phase oj) h img, s))))"

definition row_condition :: "ConditionStatus \<times> string \<times> string \<Rightarrow> string \<Rightarrow> PVENodeImage \<Rightarrow> Condition" where
  "row_condition row ty img = \<lparr>co_Type = ty, co_Status = fst row,
     co_ObservedGeneration = om_Generation (im_ObjectMeta img), co_LastTransitionTime = 0,
     co_Reason = fst (snd row), co_Message = snd (snd row)\<rparr>"

text \<open>What a phase records besides the conditions, and the clock reading that its first condition takes.\<close>

definition record_build :: "phase \<Rightarrow> string \<Rightarrow> Time \<Rightarrow> PVENodeImage \<Rightarrow> PVENodeImage" where
  "record_build p h now img =
     (if p = Succeeded
      then img\<lparr>im_Status := (im_Status img)\<lparr>ist_ObservedSpecHash := h, ist_LastBuildTime := Some now\<rparr>\<rparr>
      else img)"

definition target_conditions :: "kube_libs \<Rightarrow> phase \<Rightarrow> (nat \<Rightarrow> Time) \<Rightarrow> PVENodeImage \<Rightarrow> bool \<times> Condition list" where
  "target_conditions lib p clk img =
     (let k = (if p = Succeeded then 1 else 0);
          r1 = kl_SetStatusCondition lib (clk k) (ist_Conditions (im_Status img))
                 (row_condition (building_row p) ConditionTypeBuilding img);
          r2 = kl_SetStatusCondition lib (clk (Suc k)) (snd r1)
                 (row_condition (succeeded_row p) ConditionTypeBuildSucceeded img)
      in (fst r2 \<or> fst r1, snd r2))"

definition target_image :: "kube_libs \<Rightarrow> phase \<Rightarrow> string \<Rightarrow> (nat \<Rightarrow> Time) \<Rightarrow> PVENodeImage \<Rightarrow> PVENodeImage" where
  "target_image lib p h clk img =
     (let img0 = record_build p h (clk 0) img
      in img0\<lparr>im_Status := (im_Status img0)\<lparr>ist_Conditions := snd (target_conditions lib p clk img)\<rparr>\<rparr>)"

definition act ::
    "'w kube_client \<Rightarrow> kube_libs \<Rightarrow> (nat \<Rightarrow> Time) \<Rightarrow> phase \<Rightarrow> string \<Rightarrow> PVENodeImage \<Rightarrow> 'w process
       \<Rightarrow> (Result \<times> go_error option) \<times> 'w process" where
  "act cl lib clk p h img s =
     (case updateStatusIfChanged cl (target_image lib p h clk img)
             (p = Succeeded \<or> fst (target_conditions lib p clk img)) s of
        (Some err, s) \<Rightarrow> ((Result0, Some err), s)
      | (None, s) \<Rightarrow> ((delay p, None), s))"

lemmas reconcile_case_defs = reconcilePending_def reconcileRunning_def reconcileSucceeded_def
  reconcileFailed_def reconcileCurrent_def

lemmas act_defs = act_def target_image_def target_conditions_def record_build_def row_condition_def
  setCondition_def delay_def requeues_def

lemma case_cases_act:
  "reconcilePending cl lib clk img s = act cl lib clk Pending h img s"
  "reconcileRunning cl lib clk img s = act cl lib clk Running h img s"
  "reconcileFailed cl lib clk img s = act cl lib clk Failed h img s"
  "reconcileCurrent cl lib clk img s = act cl lib clk Current h img s"
  "reconcileSucceeded cl lib clk img h s = act cl lib clk Succeeded h img s"
  by (simp_all add: reconcile_case_defs act_defs Let_def case_prod_beta numeral_2_eq_2 split: option.split)

lemma reconcile_job_case:
  "(case findBuildJob cl env img h s of
      (Inl err, s) \<Rightarrow> ((Result0, Some (Wrap ''find build job'' err)), s)
    | (Inr None, s) \<Rightarrow> reconcilePending cl lib clk img s
    | (Inr (Some job), s) \<Rightarrow>
        if \<not> isJobFinished job then reconcileRunning cl lib clk img s
        else if jobSucceeded job then reconcileSucceeded cl lib clk img h s
        else reconcileFailed cl lib clk img s)
   = (case findBuildJob cl env img h s of
      (Inl err, s) \<Rightarrow> ((Result0, Some (Wrap ''find build job'' err)), s)
    | (Inr oj, s) \<Rightarrow> act cl lib clk (job_phase oj) h img s)"
  by (simp add: case_cases_act [where h = h] job_phase_def split: prod.split sum.split option.split)

text \<open>The code is the decision followed by the action: every branch, errors included.\<close>

lemma Reconcile_decide_act:
  "Reconcile cl lib env clk req s =
     (case decide cl lib env req s of
        (Ignore, s') \<Rightarrow> ((Result0, None), s')
      | (Abort e, s') \<Rightarrow> ((Result0, Some e), s')
      | (Act p h img, s') \<Rightarrow> act cl lib clk p h img s')"
proof (cases "kc_Get cl req (pr_Cluster s)")
  case (Inl err)
  then show ?thesis by (simp add: Reconcile_def decide_def)
next
  case (Inr img)
  show ?thesis
  proof (cases "Time_IsZero (om_DeletionTimestamp (im_ObjectMeta img))")
    case False
    with Inr show ?thesis by (simp add: Reconcile_def decide_def)
  next
    case True
    show ?thesis
    proof (cases "hashSpec lib (im_Spec img)")
      case (Inl err)
      with Inr True show ?thesis by (simp add: Reconcile_def decide_def)
    next
      case h: (Inr h)
      have "Reconcile cl lib env clk req s =
        (if is_current img h then act cl lib clk Current h img s
         else (case findBuildJob cl env img h s of
            (Inl err, s) \<Rightarrow> ((Result0, Some (Wrap ''find build job'' err)), s)
          | (Inr oj, s) \<Rightarrow> act cl lib clk (job_phase oj) h img s))"
        unfolding Reconcile_def Inr h sum.case reconcile_job_case
        by (auto simp: True is_current_def case_cases_act(4) [where h = h])
      with Inr True h show ?thesis
        by (auto simp: decide_def split: prod.split sum.split)
    qed
  qed
qed

section \<open>What a decision says\<close>

lemma findBuildJob_cluster: "pr_Cluster (snd (findBuildJob cl env img h s)) = pr_Cluster s"
  by (simp add: findBuildJob_def Let_def split: prod.split sum.split)

lemma findBuildJob_clusterD: "findBuildJob cl env img h s = (x, s') \<Longrightarrow> pr_Cluster s' = pr_Cluster s"
  using findBuildJob_cluster [of cl env img h s] by simp

lemma decide_cluster: "decide cl lib env req s = (d, s') \<Longrightarrow> pr_Cluster s' = pr_Cluster s"
  by (auto simp: decide_def dest: findBuildJob_clusterD split: sum.splits if_splits prod.splits)

lemma decide_ActD:
  assumes "decide cl lib env req s = (Act p h img, s')"
  shows "kc_Get cl req (pr_Cluster s) = Inr img"
    and "Time_IsZero (om_DeletionTimestamp (im_ObjectMeta img))"
    and "hashSpec lib (im_Spec img) = Inr h"
    and "if is_current img h then p = Current \<and> s' = s
         else \<exists>oj. findBuildJob cl env img h s = (Inr oj, s') \<and> p = job_phase oj"
  using assms by (auto simp: decide_def split: sum.splits if_splits prod.splits)

lemma decide_ActI:
  assumes "kc_Get cl req (pr_Cluster s) = Inr img"
    and "Time_IsZero (om_DeletionTimestamp (im_ObjectMeta img))"
    and "hashSpec lib (im_Spec img) = Inr h"
    and "if is_current img h then p = Current \<and> s' = s
         else \<exists>oj. findBuildJob cl env img h s = (Inr oj, s') \<and> p = job_phase oj"
  shows "decide cl lib env req s = (Act p h img, s')"
  using assms by (auto simp: decide_def split: if_splits)

section \<open>What an action leaves behind\<close>

lemma record_build_fields [simp]:
  "im_ObjectMeta (record_build p h t img) = im_ObjectMeta img"
  "im_Spec (record_build p h t img) = im_Spec img"
  "im_TypeMeta (record_build p h t img) = im_TypeMeta img"
  "ist_Conditions (im_Status (record_build p h t img)) = ist_Conditions (im_Status img)"
  "ist_TemplateVMID (im_Status (record_build p h t img)) = ist_TemplateVMID (im_Status img)"
  "ist_TemplateNode (im_Status (record_build p h t img)) = ist_TemplateNode (im_Status img)"
  "ist_ObservedSpecHash (im_Status (record_build p h t img)) =
     (if p = Succeeded then h else ist_ObservedSpecHash (im_Status img))"
  "ist_LastBuildTime (im_Status (record_build p h t img)) =
     (if p = Succeeded then Some t else ist_LastBuildTime (im_Status img))"
  by (simp_all add: record_build_def)

lemma target_image_fields [simp]:
  "im_ObjectMeta (target_image lib p h clk img) = im_ObjectMeta img"
  "im_Spec (target_image lib p h clk img) = im_Spec img"
  "im_TypeMeta (target_image lib p h clk img) = im_TypeMeta img"
  "key_of (target_image lib p h clk img) = key_of img"
  "ist_Conditions (im_Status (target_image lib p h clk img)) = snd (target_conditions lib p clk img)"
  "ist_TemplateVMID (im_Status (target_image lib p h clk img)) = ist_TemplateVMID (im_Status img)"
  "ist_TemplateNode (im_Status (target_image lib p h clk img)) = ist_TemplateNode (im_Status img)"
  "ist_ObservedSpecHash (im_Status (target_image lib p h clk img)) =
     (if p = Succeeded then h else ist_ObservedSpecHash (im_Status img))"
  "ist_LastBuildTime (im_Status (target_image lib p h clk img)) =
     (if p = Succeeded then Some (clk 0) else ist_LastBuildTime (im_Status img))"
  by (simp_all add: target_image_def Let_def key_of_def)

definition has_row :: "PVENodeImage \<Rightarrow> string \<Rightarrow> ConditionStatus \<times> string \<times> string \<Rightarrow> bool" where
  "has_row img ty row \<longleftrightarrow> (\<exists>c. cond_of ty (ist_Conditions (im_Status img)) = Some c \<and>
     (co_Status c, co_Reason c, co_Message c) = row \<and>
     co_ObservedGeneration c = om_Generation (im_ObjectMeta img))"

lemma types_differ [simp]:
  "ConditionTypeBuilding \<noteq> ConditionTypeBuildSucceeded"
  "ConditionTypeBuildSucceeded \<noteq> ConditionTypeBuilding"
  by (simp_all add: cond_type_defs)

lemma row_condition_type [simp]: "co_Type (row_condition row ty img) = ty"
  by (simp add: row_condition_def)

lemma target_lookup:
  assumes "SetStatusCondition_contract (kl_SetStatusCondition lib)"
  shows "\<exists>t. cond_of ConditionTypeBuilding (snd (target_conditions lib p clk img)) =
      Some (merge_condition t (cond_of ConditionTypeBuilding (ist_Conditions (im_Status img)))
              (row_condition (building_row p) ConditionTypeBuilding img))"
    and "\<exists>t. cond_of ConditionTypeBuildSucceeded (snd (target_conditions lib p clk img)) =
      Some (merge_condition t (cond_of ConditionTypeBuildSucceeded (ist_Conditions (im_Status img)))
              (row_condition (succeeded_row p) ConditionTypeBuildSucceeded img))"
    and "ty \<noteq> ConditionTypeBuilding \<Longrightarrow> ty \<noteq> ConditionTypeBuildSucceeded \<Longrightarrow>
      cond_of ty (snd (target_conditions lib p clk img)) = cond_of ty (ist_Conditions (im_Status img))"
  by (auto simp: target_conditions_def Let_def SSC_lookup [OF assms])

lemma target_rows:
  assumes "SetStatusCondition_contract (kl_SetStatusCondition lib)"
  shows "has_row (target_image lib p h clk img) ConditionTypeBuilding (building_row p)"
    and "has_row (target_image lib p h clk img) ConditionTypeBuildSucceeded (succeeded_row p)"
  using target_lookup(1,2) [OF assms, of p clk img]
  by (auto simp: has_row_def row_condition_def)

lemma target_distinct:
  assumes "SetStatusCondition_contract (kl_SetStatusCondition lib)"
    and "distinct (map co_Type (ist_Conditions (im_Status img)))"
  shows "distinct (map co_Type (snd (target_conditions lib p clk img)))"
  using SSC_distinct [OF assms(1)] assms(2) by (simp add: target_conditions_def Let_def)

lemma target_image_update:
  "target_image lib p h clk img = img\<lparr>im_Status := (im_Status img)\<lparr>
     ist_Conditions := snd (target_conditions lib p clk img),
     ist_ObservedSpecHash := (if p = Succeeded then h else ist_ObservedSpecHash (im_Status img)),
     ist_LastBuildTime := (if p = Succeeded then Some (clk 0) else ist_LastBuildTime (im_Status img))\<rparr>\<rparr>"
  by (simp add: target_image_def record_build_def Let_def)

lemma unchanged_conditions:
  assumes "SetStatusCondition_contract (kl_SetStatusCondition lib)"
    and "\<not> fst (target_conditions lib p clk img)"
  shows "snd (target_conditions lib p clk img) = ist_Conditions (im_Status img)"
  using assms(2) by (auto simp: target_conditions_def Let_def SSC_changed [OF assms(1)])

lemma unchanged_target:
  assumes "SetStatusCondition_contract (kl_SetStatusCondition lib)"
    and "\<not> fst (target_conditions lib p clk img)" "p \<noteq> Succeeded"
  shows "target_image lib p h clk img = img"
  using assms(3)
  by (simp add: target_image_def Let_def unchanged_conditions [OF assms(1,2)] record_build_def)

text \<open>Conditions that already show the phase are left alone.\<close>

lemma rows_unchanged:
  assumes ssc: "SetStatusCondition_contract (kl_SetStatusCondition lib)"
    and b: "has_row img ConditionTypeBuilding (building_row p)"
    and s: "has_row img ConditionTypeBuildSucceeded (succeeded_row p)"
  shows "target_conditions lib p clk img = (False, ist_Conditions (im_Status img))"
proof -
  have same: "kl_SetStatusCondition lib t (ist_Conditions (im_Status img)) (row_condition row ty img)
      = (False, ist_Conditions (im_Status img))" if row: "has_row img ty row" for row ty t
  proof -
    obtain c where c: "cond_of ty (ist_Conditions (im_Status img)) = Some c"
      "(co_Status c, co_Reason c, co_Message c) = row"
      "co_ObservedGeneration c = om_Generation (im_ObjectMeta img)"
      using row by (auto simp: has_row_def)
    show ?thesis
      by (rule SSC_same [OF ssc, where old = c])
        (use c cond_of_type [OF c(1)] in \<open>auto simp: row_condition_def intro!: merge_condition_again\<close>)
  qed
  show ?thesis by (simp add: target_conditions_def Let_def same [OF b] same [OF s])
qed

text \<open>An action that ends without error: the stored object is the target, and nothing else moved.\<close>

lemma act_ok:
  assumes cl: "client_contract cl" and ssc: "SetStatusCondition_contract (kl_SetStatusCondition lib)"
    and get: "kc_Get cl req (pr_Cluster s) = Inr img"
    and act: "act cl lib clk p h img s = ((r, None), s')"
  shows "\<exists>stored. kc_Get cl req (pr_Cluster s') = Inr stored \<and>
      same_but_version stored (target_image lib p h clk img)"
    and "r = delay p" and "pr_Namespace s' = pr_Namespace s"
    and "kc_List cl opts (pr_Cluster s') = kc_List cl opts (pr_Cluster s)"
    and "req' \<noteq> req \<Longrightarrow> kc_Get cl req' (pr_Cluster s') = kc_Get cl req' (pr_Cluster s)"
proof -
  have key: "key_of (target_image lib p h clk img) = req"
    using client_Get_key [OF cl get] by simp
  let ?ch = "p = Succeeded \<or> fst (target_conditions lib p clk img)"
  have "r = delay p \<and> pr_Namespace s' = pr_Namespace s \<and>
      (\<exists>stored. kc_Get cl req (pr_Cluster s') = Inr stored \<and>
         same_but_version stored (target_image lib p h clk img)) \<and>
      kc_List cl opts (pr_Cluster s') = kc_List cl opts (pr_Cluster s) \<and>
      (req' \<noteq> req \<longrightarrow> kc_Get cl req' (pr_Cluster s') = kc_Get cl req' (pr_Cluster s))"
  proof (cases ?ch)
    case False
    with act have "s' = s" "r = delay p" by (simp_all add: act_def updateStatusIfChanged_def)
    moreover have "target_image lib p h clk img = img"
      using False by (intro unchanged_target [OF ssc]) auto
    ultimately show ?thesis using get by (simp add: same_but_version_def)
  next
    case True
    obtain e w where u: "kc_StatusUpdate cl (target_image lib p h clk img) (pr_Cluster s) = (e, w)"
      by fastforce
    with act True have e: "e = None" "s' = s\<lparr>pr_Cluster := w\<rparr>" "r = delay p"
      by (auto simp: act_def updateStatusIfChanged_def split: option.splits)
    note ok = client_Update_ok [OF cl u [unfolded e(1)]]
    have "same_but_version (img\<lparr>im_Status := im_Status (target_image lib p h clk img),
        im_ObjectMeta := (im_ObjectMeta img)\<lparr>om_ResourceVersion := v\<rparr>\<rparr>) (target_image lib p h clk img)" for v
      by (simp add: same_but_version_def PVENodeImage.equality)
    then show ?thesis using ok(1) ok(2) [of req'] ok(3) [of opts] e key get by auto
  qed
  then show "\<exists>stored. kc_Get cl req (pr_Cluster s') = Inr stored \<and>
      same_but_version stored (target_image lib p h clk img)"
    and "r = delay p" and "pr_Namespace s' = pr_Namespace s"
    and "kc_List cl opts (pr_Cluster s') = kc_List cl opts (pr_Cluster s)"
    and "req' \<noteq> req \<Longrightarrow> kc_Get cl req' (pr_Cluster s') = kc_Get cl req' (pr_Cluster s)"
    by blast+
qed

end
