(* ===== verification/Kube_Memory.thy ===== *)
theory Kube_Memory
  imports Kube
begin

text \<open>
  An API server held in memory: stored images with optimistic locking on the resource version,
  and a list of Jobs. It satisfies every hypothesis of the theory of the client, so these can
  hold together, and it is the concrete client of the witnesses.
\<close>

section \<open>The library helpers\<close>

fun replace_condition :: "Time \<Rightarrow> Condition \<Rightarrow> Condition list \<Rightarrow> Condition list" where
  "replace_condition now c [] = [merge_condition now None c]"
| "replace_condition now c (x # xs) =
     (if co_Type x = co_Type c then merge_condition now (Some x) c # xs
      else x # replace_condition now c xs)"

definition mem_SetStatusCondition :: "Time \<Rightarrow> Condition list \<Rightarrow> Condition \<Rightarrow> bool \<times> Condition list" where
  "mem_SetStatusCondition now cs c = (replace_condition now c cs \<noteq> cs, replace_condition now c cs)"

definition mem_libs :: kube_libs where
  "mem_libs = \<lparr>
     kl_IsNotFound = (\<lambda>e. e = Err ''not found''),
     kl_yaml_Marshal = (\<lambda>spec. Inr (di_Version (is_Distribution spec))),
     kl_SetStatusCondition = mem_SetStatusCondition\<rparr>"

lemma cond_of_Cons: "cond_of ty (c # cs) = (if co_Type c = ty then Some c else cond_of ty cs)"
  by (simp add: cond_of_def)

lemma cond_of_Nil [simp]: "cond_of ty [] = None"
  by (simp add: cond_of_def)

lemma replace_condition_lookup:
  "cond_of ty (replace_condition now c cs) =
     (if ty = co_Type c then Some (merge_condition now (cond_of ty cs) c) else cond_of ty cs)"
  by (induction cs) (auto simp: cond_of_Cons)

lemma replace_condition_types:
  "set (map co_Type (replace_condition now c cs)) = insert (co_Type c) (set (map co_Type cs))"
  by (induction cs) auto

lemma replace_condition_distinct:
  "distinct (map co_Type cs) \<Longrightarrow> distinct (map co_Type (replace_condition now c cs))"
proof (induction cs)
  case (Cons x xs)
  then show ?case using replace_condition_types [of now c xs] by auto
qed simp

lemma replace_condition_same:
  "cond_of (co_Type c) cs = Some (merge_condition now (cond_of (co_Type c) cs) c) \<Longrightarrow>
     replace_condition now c cs = cs"
  by (induction cs) (auto simp: cond_of_Cons split: if_splits)

lemma mem_SetStatusCondition_ok: "SetStatusCondition_contract mem_SetStatusCondition"
  by (simp add: SetStatusCondition_contract_def mem_SetStatusCondition_def replace_condition_lookup
      replace_condition_distinct replace_condition_same)

section \<open>The client\<close>

record memory =
  mw_Images :: "PVENodeImage list"
  mw_Jobs :: "Job list"

definition mem_Get :: "NamespacedName \<Rightarrow> memory \<Rightarrow> PVENodeImage result" where
  "mem_Get req w = (case List.find (\<lambda>i. key_of i = req) (mw_Images w) of
     None \<Rightarrow> Inl (Err ''not found'') | Some img \<Rightarrow> Inr img)"

definition mem_matches :: "ListOptions \<Rightarrow> Job \<Rightarrow> bool" where
  "mem_matches opts j \<longleftrightarrow> om_Namespace (jb_ObjectMeta j) = lo_Namespace opts \<and>
     (lo_MatchingLabels opts \<subseteq>\<^sub>m om_Labels (jb_ObjectMeta j))"

text \<open>The API server stores only the Jobs that its admission \<open>adm\<close> lets pass.\<close>

definition mem_List :: "(Job \<Rightarrow> bool) \<Rightarrow> ListOptions \<Rightarrow> memory \<Rightarrow> Job list result" where
  "mem_List adm opts w = Inr (filter (\<lambda>j. mem_matches opts j \<and> adm j) (mw_Jobs w))"

definition set_stored :: "PVENodeImage \<Rightarrow> PVENodeImage \<Rightarrow> PVENodeImage" where
  "set_stored img old = (if key_of old = key_of img
     then old\<lparr>im_Status := im_Status img, im_ObjectMeta := (im_ObjectMeta old)
            \<lparr>om_ResourceVersion := CHR ''+'' # om_ResourceVersion (im_ObjectMeta old)\<rparr>\<rparr>
     else old)"

definition mem_StatusUpdate :: "PVENodeImage \<Rightarrow> memory \<Rightarrow> go_error option \<times> memory" where
  "mem_StatusUpdate img w = (case mem_Get (key_of img) w of
     Inl e \<Rightarrow> (Some e, w)
   | Inr old \<Rightarrow>
       if om_ResourceVersion (im_ObjectMeta old) = om_ResourceVersion (im_ObjectMeta img)
       then (None, w\<lparr>mw_Images := map (set_stored img) (mw_Images w)\<rparr>)
       else (Some (Err ''conflict''), w))"

definition mem_client :: "(Job \<Rightarrow> bool) \<Rightarrow> memory kube_client" where
  "mem_client adm = \<lparr>kc_Get = mem_Get, kc_List = mem_List adm, kc_StatusUpdate = mem_StatusUpdate\<rparr>"

lemma mem_client_simps [simp]:
  "kc_Get (mem_client adm) = mem_Get"
  "kc_List (mem_client adm) = mem_List adm"
  "kc_StatusUpdate (mem_client adm) = mem_StatusUpdate"
  by (simp_all add: mem_client_def)

lemma set_stored_key [simp]: "key_of (set_stored img old) = key_of old"
  by (simp add: set_stored_def key_of_def)

lemma find_map_set_stored:
  "List.find (\<lambda>i. key_of i = req) (map (set_stored img) is) =
     map_option (set_stored img) (List.find (\<lambda>i. key_of i = req) is)"
  by (induction "is") auto

lemma mem_Get_key: "mem_Get req w = Inr img \<Longrightarrow> key_of img = req"
  by (auto simp: mem_Get_def find_Some_iff split: option.splits)

lemma mem_Get_update:
  "mem_Get req (w\<lparr>mw_Images := map (set_stored img) (mw_Images w)\<rparr>) =
     map_sum id (set_stored img) (mem_Get req w)"
  by (simp add: mem_Get_def find_map_set_stored split: option.split)

lemma mem_StatusUpdate_ok:
  assumes u: "mem_StatusUpdate img w = (None, w')"
  shows "\<exists>old v. mem_Get (key_of img) w = Inr old \<and>
      mem_Get (key_of img) w' = Inr (old\<lparr>im_Status := im_Status img,
        im_ObjectMeta := (im_ObjectMeta old)\<lparr>om_ResourceVersion := v\<rparr>\<rparr>)"
    and "req \<noteq> key_of img \<Longrightarrow> mem_Get req w' = mem_Get req w"
    and "mw_Jobs w' = mw_Jobs w"
proof -
  obtain old where old: "mem_Get (key_of img) w = Inr old"
    and w': "w' = w\<lparr>mw_Images := map (set_stored img) (mw_Images w)\<rparr>"
    using u by (auto simp: mem_StatusUpdate_def split: sum.splits if_splits)
  have "mem_Get (key_of img) w' = Inr (set_stored img old)"
    using old by (simp add: w' mem_Get_update)
  then show "\<exists>old v. mem_Get (key_of img) w = Inr old \<and>
      mem_Get (key_of img) w' = Inr (old\<lparr>im_Status := im_Status img,
        im_ObjectMeta := (im_ObjectMeta old)\<lparr>om_ResourceVersion := v\<rparr>\<rparr>)"
    using old mem_Get_key [OF old] by (auto simp: set_stored_def)
  show "mw_Jobs w' = mw_Jobs w" by (simp add: w')
  assume other: "req \<noteq> key_of img"
  show "mem_Get req w' = mem_Get req w"
  proof (cases "mem_Get req w")
    case (Inr i)
    then have "set_stored img i = i"
      using other mem_Get_key [of req w i] by (simp add: set_stored_def)
    with Inr show ?thesis by (simp add: w' mem_Get_update)
  qed (simp add: w' mem_Get_update)
qed

lemma mem_StatusUpdate_error: "mem_StatusUpdate img w = (Some e, w') \<Longrightarrow> w' = w"
  by (simp add: mem_StatusUpdate_def split: sum.splits if_splits)

lemma mem_client_ok: "client_contract (mem_client adm)"
  unfolding client_contract_def mem_client_simps
proof (intro conjI)
  show "\<forall>req w img. mem_Get req w = Inr img \<longrightarrow> key_of img = req"
    using mem_Get_key by blast
  show "\<forall>img w w' e. mem_StatusUpdate img w = (Some e, w') \<longrightarrow> w' = w"
    using mem_StatusUpdate_error by blast
  show "\<forall>opts w jobs j. mem_List adm opts w = Inr jobs \<longrightarrow> j \<in> set jobs \<longrightarrow>
      om_Namespace (jb_ObjectMeta j) = lo_Namespace opts \<and>
      lo_MatchingLabels opts \<subseteq>\<^sub>m om_Labels (jb_ObjectMeta j)"
    by (auto simp: mem_List_def mem_matches_def)
  show "\<forall>img w w'. mem_StatusUpdate img w = (None, w') \<longrightarrow>
      (\<exists>old v. mem_Get (key_of img) w = Inr old \<and>
        mem_Get (key_of img) w' = Inr (old\<lparr>im_Status := im_Status img,
          im_ObjectMeta := (im_ObjectMeta old)\<lparr>om_ResourceVersion := v\<rparr>\<rparr>)) \<and>
      (\<forall>req. req \<noteq> key_of img \<longrightarrow> mem_Get req w' = mem_Get req w) \<and>
      (\<forall>opts. mem_List adm opts w' = mem_List adm opts w)"
    by (intro allI impI conjI)
      (blast intro: mem_StatusUpdate_ok(1,2), blast intro: mem_StatusUpdate_ok(2),
       simp add: mem_List_def mem_StatusUpdate_ok(3))
qed

lemma mem_client_selects: "selector_contract (mem_client adm)"
  by (auto simp: selector_contract_def mem_List_def mem_matches_def intro!: filter_cong)

text \<open>Admission as the API server has it for labels, and none.\<close>

text \<open>Admission as the API server has it for labels, and none.\<close>

definition short_labels :: "Job \<Rightarrow> bool" where
  "short_labels j \<longleftrightarrow> (\<forall>v \<in> ran (om_Labels (jb_ObjectMeta j)). length v \<le> 63)"

lemma mem_client_label_limit: "label_limit (mem_client short_labels)"
  by (auto simp: label_limit_def mem_List_def short_labels_def ran_def)

end
