(* ===== verification/Image_Passes.thy ===== *)
theory Image_Passes
  imports Image_Decision Kube_Memory
begin

text \<open>
  What one pass of \<open>Reconcile\<close> does: the phase it shows, the writes it makes, the errors and
  delays it returns, which Job counts as the build of the current spec, and what follows when
  the pass is repeated.
\<close>

section \<open>Facts of one pass\<close>

lemma Reconcile_Act:
  "decide cl lib env req s = (Act p h img, s1) \<Longrightarrow> Reconcile cl lib env clk req s = act cl lib clk p h img s1"
  by (simp add: Reconcile_decide_act)

lemma Reconcile_cases:
  assumes "Reconcile cl lib env clk req s = (out, s')"
  obtains (ignore) "decide cl lib env req s = (Ignore, s')" "out = (Result0, None)"
  | (abort) e where "decide cl lib env req s = (Abort e, s')" "out = (Result0, Some e)"
  | (act) p h img s1 where "decide cl lib env req s = (Act p h img, s1)"
      "act cl lib clk p h img s1 = (out, s')"
  using assms by (auto simp: Reconcile_decide_act split: prod.splits decision.splits)

text \<open>The two ways an action ends, whatever the client does.\<close>

lemma act_cases:
  assumes "act cl lib clk p h img s = (out, s')"
  obtains (ok) "out = (delay p, None)" "pr_Namespace s' = pr_Namespace s"
      "(p \<noteq> Succeeded \<and> \<not> fst (target_conditions lib p clk img) \<and> s' = s) \<or>
       kc_StatusUpdate cl (target_image lib p h clk img) (pr_Cluster s) = (None, pr_Cluster s')"
  | (error) e where "out = (Result0, Some (Wrap ''update status'' e))" "pr_Namespace s' = pr_Namespace s"
      "kc_StatusUpdate cl (target_image lib p h clk img) (pr_Cluster s) = (Some e, pr_Cluster s')"
  using assms by (auto simp: act_def updateStatusIfChanged_def split: if_splits prod.splits option.splits)

lemma findBuildJob_SomeD:
  assumes "client_contract cl" "findBuildJob cl env img h s = (Inr (Some j), s')"
  shows "om_Namespace (jb_ObjectMeta j) = fst (controllerNamespace env (pr_Namespace s))"
    and "om_Labels (jb_ObjectMeta j) labelSpecHash = Some h"
    and "om_Labels (jb_ObjectMeta j) labelManagedByCR = Some (om_Name (im_ObjectMeta img))"
    and "isOwnedBy j img"
proof -
  let ?opts = "\<lparr>lo_Namespace = fst (controllerNamespace env (pr_Namespace s)),
    lo_MatchingLabels = [labelSpecHash \<mapsto> h, labelManagedByCR \<mapsto> om_Name (im_ObjectMeta img)]\<rparr>"
  obtain jobs where l: "kc_List cl ?opts (pr_Cluster s) = Inr jobs" and f: "findOwned jobs img = Some j"
    using assms(2) by (auto simp: findBuildJob_def Let_def split: prod.splits sum.splits)
  note m = client_List_match [OF assms(1) l, of j] findOwned_Some [OF f]
  have "labelSpecHash \<noteq> labelManagedByCR" by (simp add: labelSpecHash_def labelManagedByCR_def)
  then show "om_Namespace (jb_ObjectMeta j) = fst (controllerNamespace env (pr_Namespace s))"
    and "om_Labels (jb_ObjectMeta j) labelSpecHash = Some h"
    and "om_Labels (jb_ObjectMeta j) labelManagedByCR = Some (om_Name (im_ObjectMeta img))"
    and "isOwnedBy j img"
    using m by (auto simp: map_le_def dest: bspec)
qed

lemma findBuildJob_None_limit:
  assumes "client_contract cl" "label_limit cl" "length h > 63"
    and f: "findBuildJob cl env img h s = (Inr oj, s')"
  shows "oj = None"
proof (rule ccontr)
  let ?opts = "\<lparr>lo_Namespace = fst (controllerNamespace env (pr_Namespace s)),
    lo_MatchingLabels = [labelSpecHash \<mapsto> h, labelManagedByCR \<mapsto> om_Name (im_ObjectMeta img)]\<rparr>"
  assume "oj \<noteq> None"
  then obtain j where j: "findBuildJob cl env img h s = (Inr (Some j), s')" using f by auto
  obtain jobs where l: "kc_List cl ?opts (pr_Cluster s) = Inr jobs" and o: "findOwned jobs img = Some j"
    using j by (auto simp: findBuildJob_def Let_def split: prod.splits sum.splits)
  have "length h \<le> 63"
    using assms(2) l findOwned_Some [OF o] findBuildJob_SomeD(2) [OF assms(1) j]
    unfolding label_limit_def by blast
  then show False using assms(3) by simp
qed

lemma find_of_filter: "List.find P (filter Q xs) = List.find (\<lambda>x. Q x \<and> P x) xs"
  by (induction xs) auto

section \<open>A sample cluster\<close>

text \<open>One image and at most one Job of it, in the memory client, for the witnesses.\<close>

definition sampleReq :: NamespacedName where
  "sampleReq = \<lparr>nn_Namespace = '''', nn_Name = ''rke2-standard''\<rparr>"

definition sampleEnv :: process_env where
  "sampleEnv = \<lparr>env_Getenv = (\<lambda>v. ''''), env_ReadFile = (\<lambda>p. Inl (Err ''no such file''))\<rparr>"

definition sampleHash :: string where
  "sampleHash = hex_EncodeToString (sha256_Sum256 (di_Version (is_Distribution sampleSpec)))"

definition sampleJob :: "JobCondition list \<Rightarrow> Job" where
  "sampleJob conds = \<lparr>jb_ObjectMeta = \<lparr>om_Name = ''build-1'', om_Namespace = ''karpenter'',
       om_UID = ''uid-2'', om_ResourceVersion = ''1'', om_Generation = 1, om_DeletionTimestamp = None,
       om_Labels = [labelSpecHash \<mapsto> sampleHash, labelManagedByCR \<mapsto> ''rke2-standard''],
       om_OwnerReferences = [\<lparr>or_Kind = ''PVENodeImage'', or_Name = ''rke2-standard'', or_UID = ''uid-1'',
         or_Controller = Some True\<rparr>]\<rparr>,
     jb_Conditions = conds\<rparr>"

definition sampleCluster :: "PVENodeImage \<Rightarrow> Job list \<Rightarrow> memory" where
  "sampleCluster img jobs = \<lparr>mw_Images = [img], mw_Jobs = jobs\<rparr>"

definition sampleProcess :: "PVENodeImage \<Rightarrow> Job list \<Rightarrow> memory process" where
  "sampleProcess img jobs = \<lparr>pr_Cluster = sampleCluster img jobs, pr_Namespace = ns_init\<rparr>"

definition sampleCache :: ns_cache where
  "sampleCache = \<lparr>namespaceOnce = True, cachedNamespace = ''karpenter''\<rparr>"

definition completeJob :: Job where
  "completeJob = sampleJob [\<lparr>jc_Type = JobComplete, jc_Status = ConditionTrue\<rparr>]"

abbreviation anyJob :: "Job \<Rightarrow> bool" where
  "anyJob \<equiv> (\<lambda>_. True)"

abbreviation clock :: "nat \<Rightarrow> Time" where
  "clock \<equiv> (\<lambda>i. 1000 + int i)"

definition with_vmid :: "int32 \<Rightarrow> PVENodeImage \<Rightarrow> PVENodeImage" where
  "with_vmid v img = img\<lparr>im_Status := (im_Status img)\<lparr>ist_TemplateVMID := Some v\<rparr>\<rparr>"

lemma sample_fields [simp]:
  "key_of sampleImage = sampleReq" "im_Spec sampleImage = sampleSpec"
  "om_DeletionTimestamp (im_ObjectMeta sampleImage) = None"
  "om_Name (im_ObjectMeta sampleImage) = ''rke2-standard''" "om_UID (im_ObjectMeta sampleImage) = ''uid-1''"
  "om_ResourceVersion (im_ObjectMeta sampleImage) = ''1''"
  "ist_TemplateVMID (im_Status sampleImage) = None" "ist_ObservedSpecHash (im_Status sampleImage) = ''''"
  "ist_Conditions (im_Status sampleImage) = []" "ist_LastBuildTime (im_Status sampleImage) = None"
  by (simp_all add: sampleImage_def key_of_def sampleReq_def)

lemma with_vmid_fields [simp]:
  "key_of (with_vmid v img) = key_of img" "im_Spec (with_vmid v img) = im_Spec img"
  "im_ObjectMeta (with_vmid v img) = im_ObjectMeta img"
  "ist_TemplateVMID (im_Status (with_vmid v img)) = Some v"
  "ist_ObservedSpecHash (im_Status (with_vmid v img)) = ist_ObservedSpecHash (im_Status img)"
  "ist_Conditions (im_Status (with_vmid v img)) = ist_Conditions (im_Status img)"
  by (simp_all add: with_vmid_def key_of_def)

lemma sample_process [simp]:
  "pr_Cluster (sampleProcess img jobs) = sampleCluster img jobs"
  "pr_Namespace (sampleProcess img jobs) = ns_init"
  by (simp_all add: sampleProcess_def)

lemma sample_libs [simp]:
  "kl_SetStatusCondition mem_libs = mem_SetStatusCondition"
  "kl_IsNotFound mem_libs e \<longleftrightarrow> e = Err ''not found''"
  "hashSpec mem_libs sampleSpec = Inr sampleHash"
  by (simp_all add: mem_libs_def hashSpec_def sampleHash_def)

lemma sample_Get [simp]: "mem_Get req (sampleCluster img jobs) =
    (if key_of img = req then Inr img else Inl (Err ''not found''))"
  by (simp add: mem_Get_def sampleCluster_def)

lemma sampleHash_length [simp]: "length sampleHash = 64"
  by (simp add: sampleHash_def)

lemma sampleHash_nonempty [simp]: "'''' \<noteq> sampleHash" "sampleHash \<noteq> ''''"
  using sampleHash_length by (metis list.size(3) zero_neq_numeral)+

lemma sample_namespace: "controllerNamespace sampleEnv ns_init = (''karpenter'', sampleCache)"
proof -
  have "resolveNamespace sampleEnv = ''karpenter''"
    by (simp add: resolveNamespace_def sampleEnv_def defaultNamespace_def TrimSpace_empty)
  then show ?thesis by (simp add: controllerNamespace_def ns_init_def Let_def sampleCache_def)
qed

lemma sampleJob_matches:
  "mem_matches \<lparr>lo_Namespace = ''karpenter'',
     lo_MatchingLabels = [labelSpecHash \<mapsto> sampleHash, labelManagedByCR \<mapsto> ''rke2-standard'']\<rparr> (sampleJob conds)"
  by (simp add: mem_matches_def sampleJob_def)

lemma sampleJob_owned: "om_UID (im_ObjectMeta img) = ''uid-1'' \<Longrightarrow> isOwnedBy (sampleJob conds) img"
  by (simp add: isOwnedBy_def sampleJob_def)

lemma sample_findBuildJob:
  assumes "om_UID (im_ObjectMeta img) = ''uid-1''" "om_Name (im_ObjectMeta img) = ''rke2-standard''"
  shows "findBuildJob (mem_client anyJob) sampleEnv img sampleHash (sampleProcess img [sampleJob conds]) =
      (Inr (Some (sampleJob conds)), (sampleProcess img [sampleJob conds])\<lparr>pr_Namespace := sampleCache\<rparr>)"
    and "findBuildJob (mem_client adm) sampleEnv img sampleHash (sampleProcess img []) =
      (Inr None, (sampleProcess img [])\<lparr>pr_Namespace := sampleCache\<rparr>)"
  using assms sampleJob_owned [of img conds]
  by (simp_all add: findBuildJob_def sample_namespace mem_List_def sampleCluster_def sampleJob_matches)

lemma completeJob_phase: "job_phase (Some completeJob) = Succeeded"
  by (simp add: completeJob_def sampleJob_def job_phase_def isJobFinished_def jobSucceeded_def)

text \<open>The sample pass in three phases.\<close>

lemma sample_decide:
  assumes "im_ObjectMeta img = im_ObjectMeta sampleImage" "im_Spec img = sampleSpec"
    and "ist_ObservedSpecHash (im_Status img) = ''''"
  shows "decide (mem_client adm) mem_libs sampleEnv sampleReq (sampleProcess img []) =
      (Act Pending sampleHash img, (sampleProcess img [])\<lparr>pr_Namespace := sampleCache\<rparr>)"
    and "decide (mem_client anyJob) mem_libs sampleEnv sampleReq (sampleProcess img [completeJob]) =
      (Act Succeeded sampleHash img, (sampleProcess img [completeJob])\<lparr>pr_Namespace := sampleCache\<rparr>)"
proof -
  have "key_of img = sampleReq" using assms(1) sample_fields(1) unfolding key_of_def by simp
  then show "decide (mem_client adm) mem_libs sampleEnv sampleReq (sampleProcess img []) =
      (Act Pending sampleHash img, (sampleProcess img [])\<lparr>pr_Namespace := sampleCache\<rparr>)"
    and "decide (mem_client anyJob) mem_libs sampleEnv sampleReq (sampleProcess img [completeJob]) =
      (Act Succeeded sampleHash img, (sampleProcess img [completeJob])\<lparr>pr_Namespace := sampleCache\<rparr>)"
    using assms sample_findBuildJob [of img] completeJob_phase unfolding completeJob_def
    by (simp_all add: decide_def Time_IsZero_def is_current_def job_phase_def)
qed

lemma sample_act:
  assumes "key_of img = sampleReq"
  shows "\<exists>s'. act (mem_client adm) mem_libs clk p h img ((sampleProcess img jobs)\<lparr>pr_Namespace := c\<rparr>) =
     ((delay p, None), s')"
  using assms by (auto simp: act_def updateStatusIfChanged_def mem_StatusUpdate_def)

lemma sample_pass:
  "\<exists>s'. Reconcile (mem_client adm) mem_libs sampleEnv clk sampleReq (sampleProcess sampleImage []) =
     ((delay Pending, None), s')"
  "\<exists>s'. Reconcile (mem_client anyJob) mem_libs sampleEnv clk sampleReq (sampleProcess sampleImage [completeJob]) =
     ((delay Succeeded, None), s')"
  using sample_act [of sampleImage] sample_decide [of sampleImage] by (simp_all add: Reconcile_Act)

lemma mem_libs_ok: "SetStatusCondition_contract (kl_SetStatusCondition mem_libs)"
  by (simp add: mem_SetStatusCondition_ok)

section \<open>Properties of one pass\<close>

text \<open>
  Claim C1. \<open>Reconcile\<close> implements the table of phases, on every branch: it decides on a phase
  (or to ignore the request, or on an error), shows the two conditions that the table gives for
  the phase, records the build if the phase is \<open>Succeeded\<close>, submits the status if that changed
  anything or the phase is \<open>Succeeded\<close>, and asks for the delay of the phase.
\<close>

theorem Reconcile_refines:
  "Reconcile cl lib env clk req s =
     (case decide cl lib env req s of
        (Ignore, s') \<Rightarrow> ((Result0, None), s')
      | (Abort e, s') \<Rightarrow> ((Result0, Some e), s')
      | (Act p h img, s') \<Rightarrow> act cl lib clk p h img s')"
  by (rule Reconcile_decide_act)

text \<open>
  Claim C2. After a pass that returns no error, the stored image is the one the pass has read, up
  to its resource version, with these fields of the status replaced and nothing else: the two
  conditions are exactly the pair of the phase, at the generation the pass has read, the
  conditions of other types are as before and no type comes twice if none did; and the hash and the time of
  the build are those of this pass if the phase is \<open>Succeeded\<close> and the old ones otherwise.
\<close>

theorem Reconcile_shows_phase:
  assumes cl: "client_contract cl" and ssc: "SetStatusCondition_contract (kl_SetStatusCondition lib)"
    and dec: "decide cl lib env req s = (Act p h img, s1)"
    and rec: "Reconcile cl lib env clk req s = ((r, None), s')"
  shows "\<exists>stored conds. kc_Get cl req (pr_Cluster s') = Inr stored \<and>
      same_but_version stored (img\<lparr>im_Status := (im_Status img)\<lparr>ist_Conditions := conds,
        ist_ObservedSpecHash := (if p = Succeeded then h else ist_ObservedSpecHash (im_Status img)),
        ist_LastBuildTime := (if p = Succeeded then Some (clk 0) else ist_LastBuildTime (im_Status img))\<rparr>\<rparr>) \<and>
      has_row stored ConditionTypeBuilding (building_row p) \<and>
      has_row stored ConditionTypeBuildSucceeded (succeeded_row p) \<and>
      (\<forall>ty. ty \<noteq> ConditionTypeBuilding \<longrightarrow> ty \<noteq> ConditionTypeBuildSucceeded \<longrightarrow>
         cond_of ty conds = cond_of ty (ist_Conditions (im_Status img))) \<and>
      (distinct (map co_Type (ist_Conditions (im_Status img))) \<longrightarrow> distinct (map co_Type conds)) \<and>
      r = delay p"
proof -
  have get: "kc_Get cl req (pr_Cluster s1) = Inr img"
    using decide_ActD(1) [OF dec] decide_cluster [OF dec] by simp
  have act: "act cl lib clk p h img s1 = ((r, None), s')"
    using rec Reconcile_Act [OF dec] by simp
  obtain st where st: "kc_Get cl req (pr_Cluster s') = Inr st"
    "same_but_version st (target_image lib p h clk img)"
    using act_ok(1) [OF cl ssc get act] by blast
  note f = same_but_version_fields [OF st(2)]
  have "has_row st ConditionTypeBuilding (building_row p)" "has_row st ConditionTypeBuildSucceeded (succeeded_row p)"
    using target_rows [OF ssc, of p h clk img] by (simp_all add: f has_row_def)
  moreover have "distinct (map co_Type (ist_Conditions (im_Status img))) \<longrightarrow>
      distinct (map co_Type (snd (target_conditions lib p clk img)))"
    by (intro impI target_distinct [OF ssc])
  ultimately show ?thesis
    using st act_ok(2) [OF cl ssc get act] target_lookup(3) [OF ssc, of _ p clk img]
    unfolding target_image_update by blast
qed

theorem Reconcile_shows_phase_witness:
  "\<exists>stored s'. Reconcile (mem_client anyJob) mem_libs sampleEnv clock sampleReq
        (sampleProcess sampleImage [completeJob]) = ((Result0, None), s') \<and>
      kc_Get (mem_client anyJob) sampleReq (pr_Cluster s') = Inr stored \<and>
      has_row stored ConditionTypeBuilding (building_row Succeeded) \<and>
      has_row stored ConditionTypeBuildSucceeded (succeeded_row Succeeded) \<and>
      im_Spec stored = sampleSpec \<and> ist_TemplateVMID (im_Status stored) = None \<and>
      ist_ObservedSpecHash (im_Status stored) = sampleHash \<and> ist_LastBuildTime (im_Status stored) = Some 1000"
proof -
  let ?s = "sampleProcess sampleImage [completeJob]"
  let ?s1 = "?s\<lparr>pr_Namespace := sampleCache\<rparr>"
  have dec: "decide (mem_client anyJob) mem_libs sampleEnv sampleReq ?s = (Act Succeeded sampleHash sampleImage, ?s1)"
    by (rule sample_decide(2)) simp_all
  obtain s' where rec: "Reconcile (mem_client anyJob) mem_libs sampleEnv clock sampleReq ?s = ((Result0, None), s')"
    by (simp add: Reconcile_Act [OF dec] act_def updateStatusIfChanged_def mem_StatusUpdate_def
        delay_def requeues_def)
  obtain stored conds where st: "kc_Get (mem_client anyJob) sampleReq (pr_Cluster s') = Inr stored"
    "same_but_version stored (sampleImage\<lparr>im_Status := (im_Status sampleImage)\<lparr>ist_Conditions := conds,
       ist_ObservedSpecHash := sampleHash, ist_LastBuildTime := Some 1000\<rparr>\<rparr>)"
    "has_row stored ConditionTypeBuilding (building_row Succeeded)"
    "has_row stored ConditionTypeBuildSucceeded (succeeded_row Succeeded)"
    using Reconcile_shows_phase [OF mem_client_ok mem_libs_ok dec rec] by auto
  show ?thesis
    using rec st(1,3,4) same_but_version_fields(1,2) [OF st(2)]
    by (intro exI [of _ stored] exI [of _ s']) simp
qed

text \<open>What a pass may touch.\<close>

lemma pass_touches:
  assumes cl: "client_contract cl"
    and rec: "Reconcile cl lib env clk req s = ((r, e), s')"
  shows "(req' \<noteq> req \<longrightarrow> kc_Get cl req' (pr_Cluster s') = kc_Get cl req' (pr_Cluster s)) \<and>
    kc_List cl opts (pr_Cluster s') = kc_List cl opts (pr_Cluster s) \<and>
    (e \<noteq> None \<longrightarrow> pr_Cluster s' = pr_Cluster s) \<and>
    (\<forall>img. kc_Get cl req (pr_Cluster s) = Inr img \<longrightarrow>
       (\<exists>img'. kc_Get cl req (pr_Cluster s') = Inr img' \<and>
          same_but_version (img'\<lparr>im_Status := im_Status img\<rparr>) img))"
  using rec
proof (cases rule: Reconcile_cases)
  case ignore
  then show ?thesis using decide_cluster [OF ignore(1)] by (simp add: same_but_version_def)
next
  case (abort e')
  then show ?thesis using decide_cluster [OF abort(1)] by (simp add: same_but_version_def)
next
  case (act p h img s1)
  note w = decide_cluster [OF act(1)] and get = decide_ActD(1) [OF act(1)]
  have key: "key_of (target_image lib p h clk img) = req" using client_Get_key [OF cl get] by simp
  from act(2) show ?thesis
  proof (cases rule: act_cases)
    case (error e')
    then show ?thesis using client_Update_error [OF cl error(3)] w get by (simp add: same_but_version_def)
  next
    case ok
    from ok(3) show ?thesis
    proof
      assume "p \<noteq> Succeeded \<and> \<not> fst (target_conditions lib p clk img) \<and> s' = s1"
      then show ?thesis using w get ok(1) by (simp add: same_but_version_def)
    next
      assume u: "kc_StatusUpdate cl (target_image lib p h clk img) (pr_Cluster s1) = (None, pr_Cluster s')"
      note upd = client_Update_ok [OF cl u, unfolded key w]
      have "same_but_version (img\<lparr>im_ObjectMeta := (im_ObjectMeta img)\<lparr>om_ResourceVersion := v\<rparr>,
          im_Status := im_Status img\<rparr>) img" for v
        by (simp add: same_but_version_def)
      then show ?thesis using upd(1) upd(2) [of req'] upd(3) [of opts] get ok(1)
        by auto
    qed
  qed
qed

text \<open>
  Claim C19. Whatever the outcome of a pass, an error included, it touches nothing but the
  status of the image it was called for: the other images and all Jobs are as before, and an
  error of the pass leaves the whole cluster as it was.
\<close>

theorem Reconcile_frame:
  assumes cl: "client_contract cl"
    and rec: "Reconcile cl lib env clk req s = ((r, e), s')"
  shows "(req' \<noteq> req \<longrightarrow> kc_Get cl req' (pr_Cluster s') = kc_Get cl req' (pr_Cluster s)) \<and>
    kc_List cl opts (pr_Cluster s') = kc_List cl opts (pr_Cluster s) \<and>
    (e \<noteq> None \<longrightarrow> pr_Cluster s' = pr_Cluster s) \<and>
    (\<forall>img. kc_Get cl req (pr_Cluster s) = Inr img \<longrightarrow>
       (\<exists>img'. kc_Get cl req (pr_Cluster s') = Inr img' \<and>
          same_but_version (img'\<lparr>im_Status := im_Status img\<rparr>) img))"
  using assms by (rule pass_touches)

theorem Reconcile_frame_witness:
  "kc_List (mem_client anyJob) \<lparr>lo_Namespace = ''karpenter'', lo_MatchingLabels = Map.empty\<rparr>
     (pr_Cluster (snd (Reconcile (mem_client anyJob) mem_libs sampleEnv clock sampleReq
        (sampleProcess sampleImage [completeJob])))) = Inr [completeJob]"
proof -
  let ?out = "Reconcile (mem_client anyJob) mem_libs sampleEnv clock sampleReq
        (sampleProcess sampleImage [completeJob])"
  have e: "?out = ((fst (fst ?out), snd (fst ?out)), snd ?out)" by simp
  show ?thesis
    using Reconcile_frame [OF mem_client_ok e, of sampleReq "\<lparr>lo_Namespace = ''karpenter'', lo_MatchingLabels = Map.empty\<rparr>"]
    by (simp add: mem_List_def sampleCluster_def mem_matches_def completeJob_def sampleJob_def)
qed

text \<open>
  Claim C28. The result of a pass: it asks to be called again after thirty seconds exactly when
  it ends without error in phase \<open>Pending\<close> or \<open>Running\<close>; with an error, and otherwise, the
  result is empty, so an error is never combined with a delay. An error is wrapped with the step
  that failed, and that step did fail with the wrapped error: the read of the image (but not when
  it is gone), the hash of its spec, the search for its Job, or the update of the status the
  phase asks for.
\<close>

theorem Reconcile_result:
  assumes "Reconcile cl lib env clk req s = ((r, e), s')"
  shows "r = (if e = None \<and> (\<exists>p h img s1. decide cl lib env req s = (Act p h img, s1) \<and> p \<in> {Pending, Running})
              then \<lparr>RequeueAfter = 30000000000\<rparr> else \<lparr>RequeueAfter = 0\<rparr>) \<and>
    (\<forall>err. e = Some err \<longrightarrow>
      (\<exists>cause. err = Wrap ''fetch PVENodeImage'' cause \<and>
         kc_Get cl req (pr_Cluster s) = Inl cause \<and> \<not> kl_IsNotFound lib cause) \<or>
      (\<exists>img cause. err = Wrap ''hash spec'' cause \<and>
         kc_Get cl req (pr_Cluster s) = Inr img \<and> hashSpec lib (im_Spec img) = Inl cause) \<or>
      (\<exists>img h cause. err = Wrap ''find build job'' cause \<and>
         kc_Get cl req (pr_Cluster s) = Inr img \<and> hashSpec lib (im_Spec img) = Inr h \<and>
         findBuildJob cl env img h s = (Inl cause, s')) \<or>
      (\<exists>p h img s1 cause. err = Wrap ''update status'' cause \<and>
         decide cl lib env req s = (Act p h img, s1) \<and>
         kc_StatusUpdate cl (target_image lib p h clk img) (pr_Cluster s) = (Some cause, pr_Cluster s')))"
  using assms
proof (cases rule: Reconcile_cases)
  case ignore
  then show ?thesis by (simp add: Result0_def)
next
  case (abort e')
  from abort(1) show ?thesis
    using abort(2) by (auto simp: decide_def Result0_def split: sum.splits if_splits prod.splits)
next
  case (act p h img s1)
  from act(2) show ?thesis
  proof (cases rule: act_cases)
    case ok
    then show ?thesis by (auto simp: act(1) delay_def requeues_def Result0_def requeueWhileBuilding_def)
  next
    case (error err)
    then show ?thesis using act(1) decide_cluster [OF act(1)] by (auto simp: Result0_def)
  qed
qed

theorem Reconcile_result_witness:
  "\<exists>s'. Reconcile (mem_client anyJob) mem_libs sampleEnv clock sampleReq (sampleProcess sampleImage []) =
     ((\<lparr>RequeueAfter = 30000000000\<rparr>, None), s')"
proof -
  let ?s = "sampleProcess sampleImage []"
  let ?s1 = "?s\<lparr>pr_Namespace := sampleCache\<rparr>"
  have dec: "decide (mem_client anyJob) mem_libs sampleEnv sampleReq ?s = (Act Pending sampleHash sampleImage, ?s1)"
    by (rule sample_decide(1)) simp_all
  obtain r s' where rec: "Reconcile (mem_client anyJob) mem_libs sampleEnv clock sampleReq ?s = ((r, None), s')"
    using sample_pass(1) by blast
  show ?thesis using rec Reconcile_result [OF rec] dec by auto
qed

text \<open>
  Nothing is done for an image that is gone or is being deleted: no write, no error,
  no delay, and the namespace is not even resolved.
\<close>

theorem Reconcile_leaves_deleted_alone:
  assumes "(\<exists>e. kc_Get cl req (pr_Cluster s) = Inl e \<and> kl_IsNotFound lib e) \<or>
     (\<exists>img. kc_Get cl req (pr_Cluster s) = Inr img \<and>
        \<not> Time_IsZero (om_DeletionTimestamp (im_ObjectMeta img)))"
  shows "Reconcile cl lib env clk req s = ((Result0, None), s)"
  using assms by (auto simp: Reconcile_def)

theorem Reconcile_leaves_deleted_alone_witness:
  "Reconcile (mem_client anyJob) mem_libs sampleEnv clock \<lparr>nn_Namespace = '''', nn_Name = ''other''\<rparr>
     (sampleProcess sampleImage [completeJob]) = ((Result0, None), sampleProcess sampleImage [completeJob])"
  by (rule Reconcile_leaves_deleted_alone) (simp add: sampleReq_def)

text \<open>The same phase is decided on again when only the status and the version of the image moved.\<close>

lemma decide_again:
  assumes dec: "decide cl lib env req s = (Act p h img, s1)"
    and get: "kc_Get cl req (pr_Cluster t) = Inr img'"
    and same: "same_but_version img' img''" "im_Spec img'' = im_Spec img" "im_ObjectMeta img'' = im_ObjectMeta img"
      "is_current img'' h = is_current img h"
    and list: "\<And>opts. kc_List cl opts (pr_Cluster t) = kc_List cl opts (pr_Cluster s)"
    and ns: "pr_Namespace t = pr_Namespace s1"
  shows "decide cl lib env req t = (Act p h img', t)"
proof (rule decide_ActI [OF get])
  note f = same_but_version_fields [OF same(1)]
  show "Time_IsZero (om_DeletionTimestamp (im_ObjectMeta img'))"
    using decide_ActD(2) [OF dec] f(4) same(3) by simp
  show "hashSpec lib (im_Spec img') = Inr h"
    using decide_ActD(3) [OF dec] f(1) same(2) by simp
  have cur: "is_current img' h = is_current img h"
    using same(4) f(2) by (simp add: is_current_def)
  have own: "isOwnedBy j img' = isOwnedBy j img" for j
    using f(5) same(3) by (simp add: isOwnedBy_def)
  have cache: "controllerNamespace env (pr_Namespace t) = (fst (controllerNamespace env (pr_Namespace s)), pr_Namespace t)"
    if "findBuildJob cl env img h s = (Inr oj, s1)" for oj
  proof -
    have "pr_Namespace s1 = snd (controllerNamespace env (pr_Namespace s))"
      using that by (auto simp: findBuildJob_def Let_def split: prod.splits sum.splits)
    then show ?thesis using ns by (auto simp: controllerNamespace_def Let_def)
  qed
  have "findBuildJob cl env img' h t = (Inr oj, t)" if "findBuildJob cl env img h s = (Inr oj, s1)" for oj
    using that cache [OF that] list f(6) same(3) own
    by (auto simp: findBuildJob_def Let_def findOwned_find split: prod.splits sum.splits)
  then show "if is_current img' h then p = Current \<and> t = t
      else \<exists>oj. findBuildJob cl env img' h t = (Inr oj, t) \<and> p = job_phase oj"
    using decide_ActD(4) [OF dec] cur by (auto split: if_splits)
qed

lemma quiet_pass:
  assumes cl: "client_contract cl" and ssc: "SetStatusCondition_contract (kl_SetStatusCondition lib)"
    and dec: "decide cl lib env req s = (Act p h img, s1)" and p: "p \<noteq> Succeeded"
    and rec: "Reconcile cl lib env clk req s = ((r, None), s')"
  shows "Reconcile cl lib env clk' req s' = ((r, None), s')"
proof -
  have get: "kc_Get cl req (pr_Cluster s1) = Inr img"
    using decide_ActD(1) [OF dec] decide_cluster [OF dec] by simp
  have act: "act cl lib clk p h img s1 = ((r, None), s')"
    using rec Reconcile_Act [OF dec] by simp
  note ok = act_ok [OF cl ssc get act]
  obtain st where st: "kc_Get cl req (pr_Cluster s') = Inr st"
    "same_but_version st (target_image lib p h clk img)"
    using ok(1) by blast
  note f = same_but_version_fields [OF st(2)]
  have "kc_List cl opts (pr_Cluster s') = kc_List cl opts (pr_Cluster s)" for opts
    using ok(4) decide_cluster [OF dec] by simp
  then have dec': "decide cl lib env req s' = (Act p h st, s')"
    by (intro decide_again [OF dec st(1) st(2)]) (simp_all add: is_current_def p ok(3))
  have "target_conditions lib p clk' st = (False, ist_Conditions (im_Status st))"
    using target_rows [OF ssc, of p h clk img]
    by (intro rows_unchanged [OF ssc]) (simp_all add: has_row_def f)
  then show ?thesis
    using Reconcile_Act [OF dec', of clk'] p ok(2)
    by (simp add: act_def updateStatusIfChanged_def)
qed

text \<open>
  A pass that has shown its phase is quiet when it is repeated: unless the phase is
  \<open>Succeeded\<close>, a second pass over the same image and Jobs decides on the same phase, returns the
  same result and makes no write at all, whatever its clock.
\<close>

theorem Reconcile_quiet:
  assumes cl: "client_contract cl" and ssc: "SetStatusCondition_contract (kl_SetStatusCondition lib)"
    and dec: "decide cl lib env req s = (Act p h img, s1)" and p: "p \<noteq> Succeeded"
    and rec: "Reconcile cl lib env clk req s = ((r, None), s')"
  shows "Reconcile cl lib env clk' req s' = ((r, None), s')"
  using assms by (rule quiet_pass)

theorem Reconcile_quiet_witness:
  "\<exists>r s'. Reconcile (mem_client anyJob) mem_libs sampleEnv clock sampleReq (sampleProcess sampleImage []) = ((r, None), s') \<and>
     Reconcile (mem_client anyJob) mem_libs sampleEnv (\<lambda>i. 5000 + int i) sampleReq s' = ((r, None), s')"
proof -
  let ?s = "sampleProcess sampleImage []"
  let ?s1 = "?s\<lparr>pr_Namespace := sampleCache\<rparr>"
  have dec: "decide (mem_client anyJob) mem_libs sampleEnv sampleReq ?s = (Act Pending sampleHash sampleImage, ?s1)"
    by (rule sample_decide(1)) simp_all
  obtain r s' where rec: "Reconcile (mem_client anyJob) mem_libs sampleEnv clock sampleReq ?s = ((r, None), s')"
    using sample_pass(1) by blast
  show ?thesis using rec Reconcile_quiet [OF mem_client_ok mem_libs_ok dec _ rec] by blast
qed

text \<open>
  The pass never ends for an image without template: after a pass in phase
  \<open>Succeeded\<close> that returned no error, the next pass is in phase \<open>Succeeded\<close> again, submits the
  status once more and moves the time of the last build to its own clock, although the Job and
  the spec have not changed.
\<close>

theorem Succeeded_never_settles:
  assumes cl: "client_contract cl" and ssc: "SetStatusCondition_contract (kl_SetStatusCondition lib)"
    and dec: "decide cl lib env req s = (Act Succeeded h img, s1)"
    and vmid: "ist_TemplateVMID (im_Status img) = None"
    and rec: "Reconcile cl lib env clk req s = ((r, None), s')"
  shows "\<exists>img'. decide cl lib env req s' = (Act Succeeded h img', s') \<and>
    (\<forall>clk' r' s''. Reconcile cl lib env clk' req s' = ((r', None), s'') \<longrightarrow>
       kc_StatusUpdate cl (target_image lib Succeeded h clk' img') (pr_Cluster s') = (None, pr_Cluster s'') \<and>
       (\<exists>img''. kc_Get cl req (pr_Cluster s'') = Inr img'' \<and>
          ist_LastBuildTime (im_Status img'') = Some (clk' 0)))"
proof -
  have get: "kc_Get cl req (pr_Cluster s1) = Inr img"
    using decide_ActD(1) [OF dec] decide_cluster [OF dec] by simp
  have act: "act cl lib clk Succeeded h img s1 = ((r, None), s')"
    using rec Reconcile_Act [OF dec] by simp
  note ok = act_ok [OF cl ssc get act]
  obtain st where st: "kc_Get cl req (pr_Cluster s') = Inr st"
    "same_but_version st (target_image lib Succeeded h clk img)"
    using ok(1) by blast
  have "kc_List cl opts (pr_Cluster s') = kc_List cl opts (pr_Cluster s)" for opts
    using ok(4) decide_cluster [OF dec] by simp
  then have dec': "decide cl lib env req s' = (Act Succeeded h st, s')"
    by (intro decide_again [OF dec st(1) st(2)]) (simp_all add: is_current_def vmid ok(3))
  have "kc_StatusUpdate cl (target_image lib Succeeded h clk' st) (pr_Cluster s') = (None, pr_Cluster s'') \<and>
      (\<exists>img''. kc_Get cl req (pr_Cluster s'') = Inr img'' \<and>
          ist_LastBuildTime (im_Status img'') = Some (clk' 0))"
    if "Reconcile cl lib env clk' req s' = ((r', None), s'')" for clk' r' s''
  proof -
    have a: "act cl lib clk' Succeeded h st s' = ((r', None), s'')"
      using that Reconcile_Act [OF dec'] by simp
    obtain st2 where st2: "kc_Get cl req (pr_Cluster s'') = Inr st2"
      "same_but_version st2 (target_image lib Succeeded h clk' st)"
      using act_ok(1) [OF cl ssc st(1) a] by blast
    show ?thesis using st2 same_but_version_fields(2) [OF st2(2)] a
      by (auto elim: act_cases)
  qed
  with dec' show ?thesis by blast
qed

theorem Succeeded_never_settles_witness:
  "\<exists>r s' img'. Reconcile (mem_client anyJob) mem_libs sampleEnv clock sampleReq
        (sampleProcess sampleImage [completeJob]) = ((r, None), s') \<and>
     decide (mem_client anyJob) mem_libs sampleEnv sampleReq s' = (Act Succeeded sampleHash img', s')"
proof -
  let ?s = "sampleProcess sampleImage [completeJob]"
  let ?s1 = "?s\<lparr>pr_Namespace := sampleCache\<rparr>"
  have dec: "decide (mem_client anyJob) mem_libs sampleEnv sampleReq ?s = (Act Succeeded sampleHash sampleImage, ?s1)"
    by (rule sample_decide(2)) simp_all
  obtain r s' where rec: "Reconcile (mem_client anyJob) mem_libs sampleEnv clock sampleReq ?s = ((r, None), s')"
    using sample_pass(2) by blast
  show ?thesis
    using rec Succeeded_never_settles [OF mem_client_ok mem_libs_ok dec _ rec] by auto
qed

text \<open>
  Claim C36. A template built for an older spec is reported as current: if the image already has
  a template, a pass in phase \<open>Succeeded\<close> for a new spec records the new hash and keeps the old
  template, so that the next pass finds the old template up to date.
\<close>

theorem stale_template_becomes_current:
  assumes cl: "client_contract cl" and ssc: "SetStatusCondition_contract (kl_SetStatusCondition lib)"
    and dec: "decide cl lib env req s = (Act Succeeded h img, s1)"
    and vmid: "ist_TemplateVMID (im_Status img) = Some v"
    and rec: "Reconcile cl lib env clk req s = ((r, None), s')"
  shows "ist_ObservedSpecHash (im_Status img) \<noteq> h \<and>
    (\<exists>img'. decide cl lib env req s' = (Act Current h img', s') \<and>
       ist_TemplateVMID (im_Status img') = Some v)"
proof -
  have get: "kc_Get cl req (pr_Cluster s1) = Inr img"
    using decide_ActD(1) [OF dec] decide_cluster [OF dec] by simp
  have act: "act cl lib clk Succeeded h img s1 = ((r, None), s')"
    using rec Reconcile_Act [OF dec] by simp
  obtain st where st: "kc_Get cl req (pr_Cluster s') = Inr st"
    "same_but_version st (target_image lib Succeeded h clk img)"
    using act_ok(1) [OF cl ssc get act] by blast
  note f = same_but_version_fields [OF st(2)]
  have "is_current st h" using f(2) vmid by (simp add: is_current_def)
  then have "decide cl lib env req s' = (Act Current h st, s')"
    using decide_ActD(2,3) [OF dec] f by (intro decide_ActI [OF st(1)]) simp_all
  moreover have "ist_ObservedSpecHash (im_Status img) \<noteq> h"
    using decide_ActD(4) [OF dec] vmid by (auto simp: is_current_def)
  ultimately show ?thesis using f(2) vmid by auto
qed

theorem stale_template_becomes_current_witness:
  "\<exists>r s' img'. Reconcile (mem_client anyJob) mem_libs sampleEnv clock sampleReq
        (sampleProcess (with_vmid 9000 sampleImage) [completeJob]) = ((r, None), s') \<and>
     decide (mem_client anyJob) mem_libs sampleEnv sampleReq s' = (Act Current sampleHash img', s') \<and>
     ist_TemplateVMID (im_Status img') = Some 9000"
proof -
  let ?img = "with_vmid 9000 sampleImage"
  let ?s = "sampleProcess ?img [completeJob]"
  let ?s1 = "?s\<lparr>pr_Namespace := sampleCache\<rparr>"
  have dec: "decide (mem_client anyJob) mem_libs sampleEnv sampleReq ?s = (Act Succeeded sampleHash ?img, ?s1)"
    by (rule sample_decide(2)) simp_all
  obtain r s' where rec: "Reconcile (mem_client anyJob) mem_libs sampleEnv clock sampleReq ?s = ((r, None), s')"
    by (metis sample_act with_vmid_fields(1) sample_fields(1) Reconcile_Act [OF dec])
  show ?thesis
    using rec stale_template_becomes_current [OF mem_client_ok mem_libs_ok dec _ rec] by auto
qed

text \<open>
  Claim C33. The Job that counts as the build of an image is the first one, among all Jobs of the
  controller's namespace, that carries the hash of the spec and the name of the image in the two
  labels and has an owner reference with the image's UID; none is found exactly when no Job of
  the namespace is such a one; an error is the one of listing. The search changes nothing in the
  cluster. (That a list by labels is the part of the list of the namespace that carries them is
  the client's contract.)
\<close>

theorem findBuildJob_correct:
  assumes cl: "client_contract cl" and sel: "selector_contract cl"
    and f: "findBuildJob cl env img h s = (res, s')"
    and all: "kc_List cl \<lparr>lo_Namespace = fst (controllerNamespace env (pr_Namespace s)), lo_MatchingLabels = Map.empty\<rparr>
      (pr_Cluster s) = Inr jobs"
    and build: "build = (\<lambda>j. om_Labels (jb_ObjectMeta j) ''karpenter.algo7.dev/spec-hash'' = Some h \<and>
       om_Labels (jb_ObjectMeta j) ''karpenter.algo7.dev/pvenodeimage'' = Some (om_Name (im_ObjectMeta img)) \<and>
       om_UID (im_ObjectMeta img) \<in> or_UID ` set (om_OwnerReferences (jb_ObjectMeta j)))"
  shows "pr_Cluster s' = pr_Cluster s \<and>
    (case res of
       Inl e \<Rightarrow> (\<exists>opts. kc_List cl opts (pr_Cluster s) = Inl e \<and>
         lo_Namespace opts = fst (controllerNamespace env (pr_Namespace s)))
     | Inr oj \<Rightarrow> oj = List.find build jobs \<and> (oj = None \<longleftrightarrow> (\<forall>j \<in> set jobs. \<not> build j)) \<and>
         (\<forall>j. oj = Some j \<longrightarrow> om_Namespace (jb_ObjectMeta j) = fst (controllerNamespace env (pr_Namespace s))))"
proof (rule conjI)
  show "pr_Cluster s' = pr_Cluster s" by (rule findBuildJob_clusterD [OF f])
  let ?ns = "fst (controllerNamespace env (pr_Namespace s))"
  let ?m = "[labelSpecHash \<mapsto> h, labelManagedByCR \<mapsto> om_Name (im_ObjectMeta img)]"
  have own: "isOwnedBy j img \<longleftrightarrow> om_UID (im_ObjectMeta img) \<in> or_UID ` set (om_OwnerReferences (jb_ObjectMeta j))" for j
    by (force simp: isOwnedBy_iff image_iff)
  have labels: "?m \<subseteq>\<^sub>m l \<longleftrightarrow> l ''karpenter.algo7.dev/spec-hash'' = Some h \<and>
      l ''karpenter.algo7.dev/pvenodeimage'' = Some (om_Name (im_ObjectMeta img))" for l
    by (auto simp: map_le_def labelSpecHash_def labelManagedByCR_def dest: bspec)
  have b: "build = (\<lambda>j. ?m \<subseteq>\<^sub>m om_Labels (jb_ObjectMeta j) \<and> isOwnedBy j img)"
    unfolding build by (simp only: own labels conj_assoc)
  show "case res of
       Inl e \<Rightarrow> (\<exists>opts. kc_List cl opts (pr_Cluster s) = Inl e \<and> lo_Namespace opts = ?ns)
     | Inr oj \<Rightarrow> oj = List.find build jobs \<and> (oj = None \<longleftrightarrow> (\<forall>j \<in> set jobs. \<not> build j)) \<and>
         (\<forall>j. oj = Some j \<longrightarrow> om_Namespace (jb_ObjectMeta j) = ?ns)"
  proof (cases res)
    case (Inl e)
    then show ?thesis using f by (auto simp: findBuildJob_def Let_def split: prod.splits sum.splits)
  next
    case (Inr oj)
    obtain part where part: "kc_List cl \<lparr>lo_Namespace = ?ns, lo_MatchingLabels = ?m\<rparr> (pr_Cluster s) = Inr part"
      "oj = findOwned part img"
      using f Inr by (auto simp: findBuildJob_def Let_def split: prod.splits sum.splits)
    have "oj = List.find build jobs"
      unfolding part(2) selector_contractD [OF sel part(1) all] findOwned_find b by (rule find_of_filter)
    moreover have "\<forall>j. oj = Some j \<longrightarrow> om_Namespace (jb_ObjectMeta j) = ?ns"
      using findBuildJob_SomeD(1) [OF cl] f Inr by blast
    ultimately show ?thesis by (auto simp: Inr find_None_iff)
  qed
qed

theorem findBuildJob_correct_witness:
  "findBuildJob (mem_client anyJob) sampleEnv sampleImage sampleHash (sampleProcess sampleImage [completeJob]) =
     (Inr (Some completeJob), (sampleProcess sampleImage [completeJob])\<lparr>pr_Namespace := sampleCache\<rparr>) \<and>
   Some completeJob = List.find (\<lambda>j. om_Labels (jb_ObjectMeta j) ''karpenter.algo7.dev/spec-hash'' = Some sampleHash \<and>
       om_Labels (jb_ObjectMeta j) ''karpenter.algo7.dev/pvenodeimage'' = Some (om_Name (im_ObjectMeta sampleImage)) \<and>
       om_UID (im_ObjectMeta sampleImage) \<in> or_UID ` set (om_OwnerReferences (jb_ObjectMeta completeJob))) [completeJob]"
proof -
  have f: "findBuildJob (mem_client anyJob) sampleEnv sampleImage sampleHash (sampleProcess sampleImage [completeJob]) =
     (Inr (Some completeJob), (sampleProcess sampleImage [completeJob])\<lparr>pr_Namespace := sampleCache\<rparr>)"
    unfolding completeJob_def by (rule sample_findBuildJob(1)) simp_all
  have "om_Namespace (jb_ObjectMeta completeJob) = ''karpenter''" by (simp add: completeJob_def sampleJob_def)
  then have all: "kc_List (mem_client anyJob) \<lparr>lo_Namespace = fst (controllerNamespace sampleEnv
        (pr_Namespace (sampleProcess sampleImage [completeJob]))), lo_MatchingLabels = Map.empty\<rparr>
      (pr_Cluster (sampleProcess sampleImage [completeJob])) = Inr [completeJob]"
    by (simp add: sample_namespace mem_List_def mem_matches_def sampleCluster_def)
  show ?thesis
    using f findBuildJob_correct [OF mem_client_ok mem_client_selects f all refl] by (auto split: if_splits)
qed

text \<open>
  The search for the build Job can never succeed on a cluster that enforces the limit
  of 63 characters on label values: the label compares with a hash of 64 characters. Every pass
  over a live image whose search does not fail is then in phase \<open>Pending\<close> or \<open>Current\<close>; the
  phases of a running, succeeded or failed build cannot occur.
\<close>

theorem label_limit_hides_jobs:
  assumes "client_contract cl" "label_limit cl"
    and "decide cl lib env req s = (Act p h img, s')"
  shows "p \<in> {Pending, Current}"
proof -
  have "length h = 64" using decide_ActD(3) [OF assms(3)] by (rule hashSpec_length)
  then show ?thesis
    using decide_ActD(4) [OF assms(3)] findBuildJob_None_limit [OF assms(1,2), of h env img s _ s']
    by (auto simp: job_phase_def split: if_splits)
qed

theorem label_limit_hides_jobs_witness:
  "\<exists>p h img s'. decide (mem_client short_labels) mem_libs sampleEnv sampleReq (sampleProcess sampleImage [])
     = (Act p h img, s') \<and> p \<in> {Pending, Current}"
proof -
  let ?s = "sampleProcess sampleImage []"
  have dec: "decide (mem_client short_labels) mem_libs sampleEnv sampleReq ?s =
      (Act Pending sampleHash sampleImage, ?s\<lparr>pr_Namespace := sampleCache\<rparr>)"
    by (rule sample_decide(1)) simp_all
  show ?thesis using label_limit_hides_jobs [OF mem_client_ok mem_client_label_limit dec] dec by blast
qed

text \<open>
  Claim C26. The status never claims a success that did not happen: if a pass without error
  leaves the image with \<open>BuildSucceeded\<close> true, then either the image had a template for the
  hash of its spec, or a Job owned by the image and labelled with that hash is complete.
\<close>

theorem BuildSucceeded_sound:
  assumes cl: "client_contract cl" and ssc: "SetStatusCondition_contract (kl_SetStatusCondition lib)"
    and dec: "decide cl lib env req s = (Act p h img, s1)"
    and rec: "Reconcile cl lib env clk req s = ((r, None), s')"
    and stored: "kc_Get cl req (pr_Cluster s') = Inr stored"
    and true: "cond_of ConditionTypeBuildSucceeded (ist_Conditions (im_Status stored)) = Some c"
      "co_Status c = ConditionTrue"
  shows "hashSpec lib (im_Spec stored) = Inr h \<and>
    ((ist_ObservedSpecHash (im_Status img) = h \<and> ist_TemplateVMID (im_Status img) \<noteq> None) \<or>
     (\<exists>j. findBuildJob cl env img h s = (Inr (Some j), s1) \<and> isOwnedBy j img \<and>
        om_Labels (jb_ObjectMeta j) labelSpecHash = Some h \<and>
        (\<exists>jc \<in> set (jb_Conditions j). jc_Type jc = JobComplete \<and> jc_Status jc = ConditionTrue)))"
proof -
  have get: "kc_Get cl req (pr_Cluster s1) = Inr img"
    using decide_ActD(1) [OF dec] decide_cluster [OF dec] by simp
  have act: "act cl lib clk p h img s1 = ((r, None), s')"
    using rec Reconcile_Act [OF dec] by simp
  have sv: "same_but_version stored (target_image lib p h clk img)"
    using act_ok(1) [OF cl ssc get act] stored by auto
  note f = same_but_version_fields [OF sv]
  have "succeeded_row p = (ConditionTrue, co_Reason c, co_Message c)"
    using target_rows(2) [OF ssc, of p h clk img] true f(2) by (auto simp: has_row_def)
  then have p: "p = Succeeded \<or> p = Current" by (cases p) simp_all
  have h: "hashSpec lib (im_Spec stored) = Inr h" using decide_ActD(3) [OF dec] f(1) by simp
  show ?thesis
  proof (cases "is_current img h")
    case True
    with h show ?thesis by (simp add: is_current_def)
  next
    case False
    then obtain oj where oj: "findBuildJob cl env img h s = (Inr oj, s1)" "p = job_phase oj"
      using decide_ActD(4) [OF dec] by auto
    with p obtain j where "oj = Some j" "jobSucceeded j"
      by (cases oj) (auto simp: job_phase_def split: if_splits)
    with h oj findBuildJob_SomeD [OF cl] show ?thesis by (auto simp: jobSucceeded_iff)
  qed
qed

theorem BuildSucceeded_sound_witness:
  "\<exists>r s' stored c. decide (mem_client anyJob) mem_libs sampleEnv sampleReq (sampleProcess sampleImage [completeJob]) =
        (Act Succeeded sampleHash sampleImage, (sampleProcess sampleImage [completeJob])\<lparr>pr_Namespace := sampleCache\<rparr>) \<and>
     Reconcile (mem_client anyJob) mem_libs sampleEnv clock sampleReq (sampleProcess sampleImage [completeJob]) =
       ((r, None), s') \<and>
     kc_Get (mem_client anyJob) sampleReq (pr_Cluster s') = Inr stored \<and>
     cond_of ConditionTypeBuildSucceeded (ist_Conditions (im_Status stored)) = Some c \<and> co_Status c = ConditionTrue \<and>
     hashSpec mem_libs (im_Spec stored) = Inr sampleHash \<and>
     (\<exists>j. findBuildJob (mem_client anyJob) sampleEnv sampleImage sampleHash (sampleProcess sampleImage [completeJob]) =
        (Inr (Some j), (sampleProcess sampleImage [completeJob])\<lparr>pr_Namespace := sampleCache\<rparr>) \<and>
        isOwnedBy j sampleImage \<and>
        (\<exists>jc \<in> set (jb_Conditions j). jc_Type jc = JobComplete \<and> jc_Status jc = ConditionTrue))"
proof -
  let ?s = "sampleProcess sampleImage [completeJob]"
  let ?s1 = "?s\<lparr>pr_Namespace := sampleCache\<rparr>"
  have dec: "decide (mem_client anyJob) mem_libs sampleEnv sampleReq ?s = (Act Succeeded sampleHash sampleImage, ?s1)"
    by (rule sample_decide(2)) simp_all
  have find: "findBuildJob (mem_client anyJob) sampleEnv sampleImage sampleHash ?s = (Inr (Some completeJob), ?s1)"
    unfolding completeJob_def by (rule sample_findBuildJob(1)) simp_all
  obtain r s' where rec: "Reconcile (mem_client anyJob) mem_libs sampleEnv clock sampleReq ?s = ((r, None), s')"
    using sample_pass(2) by blast
  have act: "act (mem_client anyJob) mem_libs clock Succeeded sampleHash sampleImage ?s1 = ((r, None), s')"
    using rec Reconcile_Act [OF dec] by simp
  obtain stored where st: "kc_Get (mem_client anyJob) sampleReq (pr_Cluster s') = Inr stored"
    "same_but_version stored (target_image mem_libs Succeeded sampleHash clock sampleImage)"
    using act_ok(1) [OF mem_client_ok mem_libs_ok _ act, of sampleReq] by auto
  obtain c where c: "cond_of ConditionTypeBuildSucceeded (ist_Conditions (im_Status stored)) = Some c"
    "co_Status c = ConditionTrue"
    using target_rows(2) [OF mem_libs_ok, of Succeeded sampleHash clock sampleImage]
      same_but_version_fields(2) [OF st(2)] by (auto simp: has_row_def)
  have "\<not> (ist_ObservedSpecHash (im_Status sampleImage) = sampleHash \<and> ist_TemplateVMID (im_Status sampleImage) \<noteq> None)"
    by simp
  with BuildSucceeded_sound [OF mem_client_ok mem_libs_ok dec rec st(1) c] dec rec st(1) c
  show ?thesis by blast
qed

text \<open>
  The hash of a spec is a string of 64 characters, so that cutting its first twelve
  for the log is in range; marshalling errors come back wrapped; and two specs have the same
  hash exactly when the SHA-256 sums of their YAML agree, in particular when the YAML does.
\<close>

theorem hashSpec_identifies_sum:
  "(case kl_yaml_Marshal lib a of
      Inl err \<Rightarrow> hashSpec lib a = Inl (Wrap ''marshal spec'' err)
    | Inr da \<Rightarrow> (\<exists>ha. hashSpec lib a = Inr ha \<and> length ha = 64 \<and> 12 \<le> length ha \<and>
        (\<forall>b db hb. kl_yaml_Marshal lib b = Inr db \<longrightarrow> hashSpec lib b = Inr hb \<longrightarrow>
           (ha = hb \<longleftrightarrow> sha256_Sum256 da = sha256_Sum256 db))))"
  by (auto simp: hashSpec_def dest: hex_EncodeToString_inj split: sum.split)

theorem hashSpec_identifies_sum_witness:
  "\<exists>ha. hashSpec mem_libs sampleSpec = Inr ha \<and> length ha = 64 \<and>
     (ha = sampleHash \<longleftrightarrow> sha256_Sum256 ''v1.33.4+rke2r1'' = sha256_Sum256 ''v1.33.4+rke2r1'')"
proof -
  have y: "kl_yaml_Marshal mem_libs sampleSpec = Inr ''v1.33.4+rke2r1''"
    by (simp add: mem_libs_def sampleSpec_def)
  show ?thesis using hashSpec_identifies_sum [of mem_libs sampleSpec] y sample_libs(3)
    by (simp only: sum.case) blast
qed

end
