(* ===== verification/Image_Trace.thy ===== *)
theory Image_Trace
  imports Image_Passes
begin

text \<open>
  The controller over time. A run interleaves passes of \<open>Reconcile\<close>, each with its own clock
  and environment, with restarts of the process and with steps of the rest of the cluster. The
  rest of the cluster may create, delete and edit images and Jobs at will, but leaves the status
  of an image to this controller, its only writer. The invariant by rule induction says
  which statuses can ever be stored.
\<close>

section \<open>Runs\<close>

definition emptyStatus :: PVENodeImageStatus where
  "emptyStatus = \<lparr>ist_Conditions = [], ist_TemplateVMID = None, ist_TemplateNode = '''',
     ist_ObservedSpecHash = '''', ist_LastBuildTime = None\<rparr>"

definition fresh_cluster :: "'w kube_client \<Rightarrow> 'w \<Rightarrow> bool" where
  "fresh_cluster cl w \<longleftrightarrow> (\<forall>req img. kc_Get cl req w = Inr img \<longrightarrow> im_Status img = emptyStatus)"

definition environment_step :: "'w kube_client \<Rightarrow> 'w \<Rightarrow> 'w \<Rightarrow> bool" where
  "environment_step cl w w' \<longleftrightarrow>
     (\<forall>req img'. kc_Get cl req w' = Inr img' \<longrightarrow> im_Status img' = emptyStatus \<or>
        (\<exists>img. kc_Get cl req w = Inr img \<and> im_Status img' = im_Status img))"

inductive controller_step :: "'w kube_client \<Rightarrow> kube_libs \<Rightarrow> 'w process \<Rightarrow> 'w process \<Rightarrow> bool"
  for cl lib where
  pass: "Reconcile cl lib env clk req s = (out, s') \<Longrightarrow> controller_step cl lib s s'"
| restart: "controller_step cl lib s (s\<lparr>pr_Namespace := ns_init\<rparr>)"
| environment: "environment_step cl (pr_Cluster s) w \<Longrightarrow> controller_step cl lib s (s\<lparr>pr_Cluster := w\<rparr>)"

inductive controller_run :: "'w kube_client \<Rightarrow> kube_libs \<Rightarrow> 'w process \<Rightarrow> bool"
  for cl lib where
  start: "fresh_cluster cl w \<Longrightarrow> controller_run cl lib \<lparr>pr_Cluster = w, pr_Namespace = ns_init\<rparr>"
| step: "controller_run cl lib s \<Longrightarrow> controller_step cl lib s s' \<Longrightarrow> controller_run cl lib s'"

section \<open>The statuses that can be stored\<close>

definition shows_phase :: "PVENodeImageStatus \<Rightarrow> phase \<Rightarrow> bool" where
  "shows_phase st p \<longleftrightarrow> (\<exists>b c.
     cond_of ConditionTypeBuilding (ist_Conditions st) = Some b \<and>
     cond_of ConditionTypeBuildSucceeded (ist_Conditions st) = Some c \<and>
     (co_Status b, co_Reason b, co_Message b) = building_row p \<and>
     (co_Status c, co_Reason c, co_Message c) = succeeded_row p)"

text \<open>The statuses of a controller whose phases are among \<open>ps\<close>.\<close>

definition status_inv :: "phase set \<Rightarrow> PVENodeImageStatus \<Rightarrow> bool" where
  "status_inv ps st \<longleftrightarrow> st = emptyStatus \<or>
     ((\<exists>p \<in> ps. shows_phase st p) \<and> distinct (map co_Type (ist_Conditions st)) \<and>
      ist_TemplateVMID st = None \<and> ist_TemplateNode st = '''' \<and>
      (if ist_LastBuildTime st = None then ist_ObservedSpecHash st = ''''
       else length (ist_ObservedSpecHash st) = 64))"

definition cluster_inv :: "phase set \<Rightarrow> 'w kube_client \<Rightarrow> 'w \<Rightarrow> bool" where
  "cluster_inv ps cl w \<longleftrightarrow> (\<forall>req img. kc_Get cl req w = Inr img \<longrightarrow> status_inv ps (im_Status img))"

lemma cluster_invD: "cluster_inv ps cl w \<Longrightarrow> kc_Get cl req w = Inr img \<Longrightarrow> status_inv ps (im_Status img)"
  by (simp add: cluster_inv_def)

lemma cluster_inv_fresh: "fresh_cluster cl w \<Longrightarrow> cluster_inv ps cl w"
  by (auto simp: cluster_inv_def fresh_cluster_def status_inv_def)

lemma cluster_inv_environment:
  assumes "cluster_inv ps cl w" "environment_step cl w w'"
  shows "cluster_inv ps cl w'"
  unfolding cluster_inv_def
proof (intro allI impI)
  fix req img'
  assume "kc_Get cl req w' = Inr img'"
  then consider "im_Status img' = emptyStatus"
    | img where "kc_Get cl req w = Inr img" "im_Status img' = im_Status img"
    using assms(2) unfolding environment_step_def by blast
  then show "status_inv ps (im_Status img')"
  proof cases
    case 2
    then show ?thesis using cluster_invD [OF assms(1), of req img] by simp
  qed (simp add: status_inv_def)
qed

lemma status_inv_vmid: "status_inv ps st \<Longrightarrow> ist_TemplateVMID st = None"
  by (auto simp: status_inv_def emptyStatus_def)

text \<open>The target of an action satisfies the invariant.\<close>

lemma status_inv_target:
  assumes ssc: "SetStatusCondition_contract (kl_SetStatusCondition lib)"
    and inv: "status_inv qs (im_Status img)" and p: "p \<in> ps" and h: "length h = 64"
  shows "status_inv ps (im_Status (target_image lib p h clk img))"
proof -
  have "shows_phase (im_Status (target_image lib p h clk img)) p"
    using target_rows [OF ssc, of p h clk img] by (auto simp: shows_phase_def has_row_def)
  moreover have "distinct (map co_Type (snd (target_conditions lib p clk img)))"
    using inv by (intro target_distinct [OF ssc]) (auto simp: status_inv_def emptyStatus_def)
  ultimately show ?thesis
    using inv p h by (auto simp: status_inv_def emptyStatus_def)
qed

text \<open>A pass keeps the invariant for any set of phases that contains the one it decides on.\<close>

lemma cluster_inv_pass:
  assumes cl: "client_contract cl" and ssc: "SetStatusCondition_contract (kl_SetStatusCondition lib)"
    and inv: "cluster_inv ps cl (pr_Cluster s)"
    and phases: "\<And>p h img s1. decide cl lib env req s = (Act p h img, s1) \<Longrightarrow> p \<in> ps"
    and rec: "Reconcile cl lib env clk req s = (out, s')"
  shows "cluster_inv ps cl (pr_Cluster s')"
  using rec
proof (cases rule: Reconcile_cases)
  case ignore
  then show ?thesis using inv decide_cluster by metis
next
  case (abort e)
  then show ?thesis using inv decide_cluster by metis
next
  case (act p h img s1)
  note w = decide_cluster [OF act(1)]
  have get: "kc_Get cl req (pr_Cluster s1) = Inr img" using decide_ActD(1) [OF act(1)] w by simp
  have tgt: "status_inv ps (im_Status (target_image lib p h clk img))"
    using cluster_invD [OF inv decide_ActD(1) [OF act(1)]] phases [OF act(1)]
      hashSpec_length [OF decide_ActD(3) [OF act(1)]]
    by (rule status_inv_target [OF ssc])
  from act(2) show ?thesis
  proof (cases rule: act_cases)
    case (error e)
    then show ?thesis using client_Update_error [OF cl error(3)] inv w by simp
  next
    case ok
    have a: "act cl lib clk p h img s1 = ((delay p, None), s')" using act(2) ok(1) by simp
    show ?thesis
      unfolding cluster_inv_def
    proof (intro allI impI)
      fix req' img'
      assume g: "kc_Get cl req' (pr_Cluster s') = Inr img'"
      show "status_inv ps (im_Status img')"
      proof (cases "req' = req")
        case True
        with act_ok(1) [OF cl ssc get a] g tgt same_but_version_fields(2) show ?thesis by fastforce
      next
        case False
        with act_ok(5) [OF cl ssc get a False] g w cluster_invD [OF inv] show ?thesis by simp
      qed
    qed
  qed
qed

text \<open>The phases a pass can decide on in a reachable state: \<open>Current\<close> needs a template.\<close>

lemma decide_not_Current:
  assumes "cluster_inv ps cl (pr_Cluster s)" "decide cl lib env req s = (Act p h img, s1)"
  shows "p \<noteq> Current"
  using status_inv_vmid [OF cluster_invD [OF assms(1) decide_ActD(1) [OF assms(2)]]]
    decide_ActD(4) [OF assms(2)]
  by (auto simp: is_current_def job_phase_def split: option.splits if_splits)

lemma decide_limited:
  assumes "client_contract cl" "label_limit cl"
    and "cluster_inv ps cl (pr_Cluster s)" "decide cl lib env req s = (Act p h img, s1)"
  shows "p = Pending"
proof -
  have "length h = 64" using decide_ActD(3) [OF assms(4)] by (rule hashSpec_length)
  then show ?thesis
    using decide_ActD(4) [OF assms(4)] findBuildJob_None_limit [OF assms(1,2), of h env img s _ s1]
      decide_not_Current [OF assms(3,4)]
    by (auto simp: job_phase_def split: if_splits)
qed

lemma run_inv:
  assumes cl: "client_contract cl" and ssc: "SetStatusCondition_contract (kl_SetStatusCondition lib)"
    and phases: "\<And>s env req p h img s1. cluster_inv ps cl (pr_Cluster s) \<Longrightarrow>
      decide cl lib env req s = (Act p h img, s1) \<Longrightarrow> p \<in> ps"
    and run: "controller_run cl lib s"
  shows "cluster_inv ps cl (pr_Cluster s)"
  using run
proof induction
  case (start w)
  then show ?case by (simp add: cluster_inv_fresh)
next
  case (step s s')
  from step.hyps(2) show ?case
  proof (cases rule: controller_step.cases)
    case (pass env clk req out)
    then show ?thesis using cluster_inv_pass [OF cl ssc step.IH] phases [OF step.IH] by blast
  next
    case restart
    then show ?thesis using step.IH by simp
  next
    case (environment w)
    then show ?thesis using cluster_inv_environment [OF step.IH] by simp
  qed
qed

lemmas run_inv_any = run_inv [where ps = "{Pending, Running, Succeeded, Failed}"]
lemmas run_inv_limited = run_inv [where ps = "{Pending}"]

section \<open>Properties of every run\<close>

text \<open>
  Invariant of all runs: the stored status of an image is either the empty one or
  shows exactly the condition pair of one of the four phases of a build, with one condition per
  type; in particular an image never shows \<open>Building\<close> and \<open>BuildSucceeded\<close> both true. The time of
  the last build and the hash are recorded together.
\<close>

theorem run_status_invariant:
  assumes cl: "client_contract cl" and ssc: "SetStatusCondition_contract (kl_SetStatusCondition lib)"
    and run: "controller_run cl lib s"
    and get: "kc_Get cl req (pr_Cluster s) = Inr img"
  shows "im_Status img = emptyStatus \<or>
    ((\<exists>p \<in> {Pending, Running, Succeeded, Failed}. shows_phase (im_Status img) p) \<and>
     distinct (map co_Type (ist_Conditions (im_Status img))) \<and>
     \<not> (\<exists>b c. cond_of ConditionTypeBuilding (ist_Conditions (im_Status img)) = Some b \<and>
          cond_of ConditionTypeBuildSucceeded (ist_Conditions (im_Status img)) = Some c \<and>
          co_Status b = ConditionTrue \<and> co_Status c = ConditionTrue) \<and>
     (if ist_LastBuildTime (im_Status img) = None then ist_ObservedSpecHash (im_Status img) = ''''
      else length (ist_ObservedSpecHash (im_Status img)) = 64))"
proof -
  have "p \<in> {Pending, Running, Succeeded, Failed}" if "p \<noteq> Current" for p
    using that by (cases p) simp_all
  then have "cluster_inv {Pending, Running, Succeeded, Failed} cl (pr_Cluster s)"
    using decide_not_Current by (intro run_inv_any [OF cl ssc _ run]) blast
  from cluster_invD [OF this get] show ?thesis
    unfolding status_inv_def by (elim disjE conjE bexE) (auto simp: shows_phase_def)
qed

text \<open>
  In no run is a build ever recognised as current: the controller is the only writer
  of the status and never sets the template, so no image gets one and the phase \<open>Current\<close> is
  unreachable.
\<close>

theorem run_never_current:
  assumes cl: "client_contract cl" and ssc: "SetStatusCondition_contract (kl_SetStatusCondition lib)"
    and run: "controller_run cl lib s"
  shows "(\<forall>req img. kc_Get cl req (pr_Cluster s) = Inr img \<longrightarrow> ist_TemplateVMID (im_Status img) = None) \<and>
    fst (decide cl lib env req s) \<noteq> Act Current h img"
proof -
  have inv: "cluster_inv UNIV cl (pr_Cluster s)"
    by (rule run_inv [OF cl ssc _ run]) simp
  then show ?thesis
    using decide_not_Current [OF inv] status_inv_vmid cluster_invD [OF inv]
    by (metis prod.collapse)
qed

text \<open>
  Claim C34. On a cluster that enforces the limit on label values the controller never gets past
  its first phase. In every state of a run each stored status is empty or shows the conditions of
  \<open>Pending\<close>, so \<open>BuildSucceeded\<close> is never true; every live image whose search for a Job does not
  fail is decided to be pending; and a pass over it without error leaves it showing \<open>Pending\<close> and
  asks to be called again, forever.
\<close>

theorem run_label_limit_stuck:
  assumes cl: "client_contract cl" and lim: "label_limit cl"
    and ssc: "SetStatusCondition_contract (kl_SetStatusCondition lib)"
    and run: "controller_run cl lib s"
  shows "(\<forall>req img. kc_Get cl req (pr_Cluster s) = Inr img \<longrightarrow>
       (im_Status img = emptyStatus \<or> shows_phase (im_Status img) Pending) \<and>
       (\<forall>c. cond_of ConditionTypeBuildSucceeded (ist_Conditions (im_Status img)) = Some c \<longrightarrow>
          co_Status c = ConditionFalse)) \<and>
    (\<forall>env req p h img s1. decide cl lib env req s = (Act p h img, s1) \<longrightarrow> p = Pending \<and>
       (\<forall>clk r s'. Reconcile cl lib env clk req s = ((r, None), s') \<longrightarrow>
          r = \<lparr>RequeueAfter = 30000000000\<rparr> \<and>
          (\<exists>stored. kc_Get cl req (pr_Cluster s') = Inr stored \<and>
             has_row stored ConditionTypeBuilding (ConditionTrue, ''BuildPending'', ''Build Job not yet created'') \<and>
             has_row stored ConditionTypeBuildSucceeded
               (ConditionFalse, ''SpecChanged'', ''Build in progress for new spec''))))"
proof (intro conjI allI impI)
  have inv: "cluster_inv {Pending} cl (pr_Cluster s)"
    by (rule run_inv_limited [OF cl ssc _ run]) (simp add: decide_limited [OF cl lim])
  show "im_Status img = emptyStatus \<or> shows_phase (im_Status img) Pending"
    if "kc_Get cl req (pr_Cluster s) = Inr img" for req img
    using cluster_invD [OF inv that] by (auto simp: status_inv_def)
  show "co_Status c = ConditionFalse"
    if "kc_Get cl req (pr_Cluster s) = Inr img"
      "cond_of ConditionTypeBuildSucceeded (ist_Conditions (im_Status img)) = Some c" for req img c
    using cluster_invD [OF inv that(1)] that(2)
    by (auto simp: status_inv_def shows_phase_def emptyStatus_def cond_of_def)
  fix env req p h img s1
  assume d: "decide cl lib env req s = (Act p h img, s1)"
  show p: "p = Pending" by (rule decide_limited [OF cl lim inv d])
  fix clk r s'
  assume r: "Reconcile cl lib env clk req s = ((r, None), s')"
  have act: "act cl lib clk p h img s1 = ((r, None), s')" using r Reconcile_Act [OF d] by simp
  have get: "kc_Get cl req (pr_Cluster s1) = Inr img" using decide_ActD(1) [OF d] decide_cluster [OF d] by simp
  note ok = act_ok [OF cl ssc get act]
  show "r = \<lparr>RequeueAfter = 30000000000\<rparr>"
    using ok(2) by (simp add: p delay_def requeues_def requeueWhileBuilding_def)
  obtain st where st: "kc_Get cl req (pr_Cluster s') = Inr st" "same_but_version st (target_image lib p h clk img)"
    using ok(1) by blast
  then show "\<exists>stored. kc_Get cl req (pr_Cluster s') = Inr stored \<and>
      has_row stored ConditionTypeBuilding (ConditionTrue, ''BuildPending'', ''Build Job not yet created'') \<and>
      has_row stored ConditionTypeBuildSucceeded (ConditionFalse, ''SpecChanged'', ''Build in progress for new spec'')"
    using target_rows [OF ssc, of p h clk img] same_but_version_fields [OF st(2)]
    by (auto simp: p has_row_def ReasonBuildPending_def ReasonSpecChanged_def)
qed

section \<open>Witnesses\<close>

lemma sample_run: "controller_run (mem_client adm) mem_libs (sampleProcess sampleImage jobs)"
proof -
  have "fresh_cluster (mem_client adm) (sampleCluster sampleImage jobs)"
    by (auto simp: fresh_cluster_def sampleImage_def emptyStatus_def)
  from controller_run.start [OF this] show ?thesis by (simp add: sampleProcess_def)
qed

text \<open>The run of one pass over the sample image with a complete Job.\<close>

lemma sample_run_pass:
  "controller_run (mem_client adm) mem_libs
     (snd (Reconcile (mem_client adm) mem_libs sampleEnv clk sampleReq (sampleProcess sampleImage jobs)))"
  by (rule controller_run.step [OF sample_run], rule controller_step.pass) (rule prod.collapse [symmetric])

lemma sample_stored:
  "\<exists>img. kc_Get (mem_client anyJob) sampleReq (pr_Cluster (snd (Reconcile (mem_client anyJob) mem_libs sampleEnv
     clk sampleReq (sampleProcess sampleImage [completeJob])))) = Inr img \<and>
     im_Status img = im_Status (target_image mem_libs Succeeded sampleHash clk sampleImage)"
proof -
  let ?s = "sampleProcess sampleImage [completeJob]"
  have dec: "decide (mem_client anyJob) mem_libs sampleEnv sampleReq ?s =
      (Act Succeeded sampleHash sampleImage, ?s\<lparr>pr_Namespace := sampleCache\<rparr>)"
    by (rule sample_decide(2)) simp_all
  obtain s' where rec: "Reconcile (mem_client anyJob) mem_libs sampleEnv clk sampleReq ?s = ((delay Succeeded, None), s')"
    using sample_pass(2) by blast
  have act: "act (mem_client anyJob) mem_libs clk Succeeded sampleHash sampleImage
      (?s\<lparr>pr_Namespace := sampleCache\<rparr>) = ((delay Succeeded, None), s')"
    using rec Reconcile_Act [OF dec] by simp
  obtain st where "kc_Get (mem_client anyJob) sampleReq (pr_Cluster s') = Inr st"
    "same_but_version st (target_image mem_libs Succeeded sampleHash clk sampleImage)"
    using act_ok(1) [OF mem_client_ok mem_libs_ok _ act, of sampleReq] by auto
  then show ?thesis using rec same_but_version_fields(2) by fastforce
qed

theorem run_status_invariant_witness:
  "\<exists>img. kc_Get (mem_client anyJob) sampleReq (pr_Cluster (snd (Reconcile (mem_client anyJob) mem_libs sampleEnv
     clock sampleReq (sampleProcess sampleImage [completeJob])))) = Inr img \<and>
     ist_LastBuildTime (im_Status img) = Some 1000 \<and>
     (\<exists>p \<in> {Pending, Running, Succeeded, Failed}. shows_phase (im_Status img) p)"
proof -
  obtain img where img: "kc_Get (mem_client anyJob) sampleReq (pr_Cluster (snd (Reconcile (mem_client anyJob) mem_libs
      sampleEnv clock sampleReq (sampleProcess sampleImage [completeJob])))) = Inr img"
    "im_Status img = im_Status (target_image mem_libs Succeeded sampleHash clock sampleImage)"
    using sample_stored by blast
  then have "ist_LastBuildTime (im_Status img) = Some 1000" by simp
  then show ?thesis
    using run_status_invariant [OF mem_client_ok mem_libs_ok sample_run_pass img(1)] img(1)
    by (auto simp: emptyStatus_def)
qed

theorem run_never_current_witness:
  "fst (decide (mem_client anyJob) mem_libs sampleEnv sampleReq (sampleProcess sampleImage [completeJob]))
     \<noteq> Act Current sampleHash sampleImage"
  using run_never_current [OF mem_client_ok mem_libs_ok sample_run] by blast

theorem run_label_limit_stuck_witness:
  "\<exists>s' stored. Reconcile (mem_client short_labels) mem_libs sampleEnv clock sampleReq (sampleProcess sampleImage []) =
     ((\<lparr>RequeueAfter = 30000000000\<rparr>, None), s') \<and>
     kc_Get (mem_client short_labels) sampleReq (pr_Cluster s') = Inr stored \<and>
     has_row stored ConditionTypeBuilding (ConditionTrue, ''BuildPending'', ''Build Job not yet created'')"
proof -
  let ?s = "sampleProcess sampleImage []"
  have dec: "decide (mem_client short_labels) mem_libs sampleEnv sampleReq ?s =
      (Act Pending sampleHash sampleImage, ?s\<lparr>pr_Namespace := sampleCache\<rparr>)"
    by (rule sample_decide(1)) simp_all
  obtain r s' where "Reconcile (mem_client short_labels) mem_libs sampleEnv clock sampleReq ?s = ((r, None), s')"
    using sample_pass(1) by blast
  then show ?thesis
    using run_label_limit_stuck [OF mem_client_ok mem_client_label_limit mem_libs_ok sample_run [of short_labels "[]"]] dec
    by blast
qed

end
