(* ===== verification/Reconcilers.thy ===== *)
theory Reconcilers
  imports Image_Passes
begin

text \<open>
  What the manager is given to run: the reconciler of \<open>PVENodeClass\<close>
  (\<open>internal/controller/pvenodeclass_controller.go\<close>), a stub, and the contract that the
  results of a reconciler keep, as a locale that both reconcilers interpret. The contract is
  what controller-runtime documents: a result is only looked at when there is no error; and what
  passes over a set of requests may change.
\<close>

section \<open>The reconciler of PVENodeClass\<close>

definition PVENodeClass_Reconcile :: "NamespacedName \<Rightarrow> 's \<Rightarrow> (Result \<times> go_error option) \<times> 's" where
  "PVENodeClass_Reconcile req s = ((Result0, None), s)"

section \<open>The contract\<close>

text \<open>Passes one after the other, each with its own circumstances \<open>c\<close> (clock, environment).\<close>

fun passes ::
    "('c \<Rightarrow> NamespacedName \<Rightarrow> 's \<Rightarrow> (Result \<times> go_error option) \<times> 's) \<Rightarrow> ('c \<times> NamespacedName) list \<Rightarrow> 's
       \<Rightarrow> (Result \<times> go_error option) list \<times> 's" where
  "passes f [] s = ([], s)"
| "passes f ((c, req) # cs) s =
     (let (out, s1) = f c req s; (outs, s2) = passes f cs s1 in (out # outs, s2))"

locale reconciler =
  fixes reconcile :: "'c \<Rightarrow> NamespacedName \<Rightarrow> 's \<Rightarrow> (Result \<times> go_error option) \<times> 's"
    and delays :: "int set"
    and keeps :: "NamespacedName set \<Rightarrow> 's \<Rightarrow> 's \<Rightarrow> bool"
  assumes error_result: "reconcile c req s = ((r, Some err), s') \<Longrightarrow> r = Result0"
    and delay_bound: "reconcile c req s = ((r, e), s') \<Longrightarrow> RequeueAfter r \<in> insert 0 delays"
    and keeps_refl: "keeps A s s"
    and keeps_trans: "keeps A s t \<Longrightarrow> keeps A t u \<Longrightarrow> keeps A s u"
    and keeps_step: "reconcile c req s = (out, s') \<Longrightarrow> req \<in> A \<Longrightarrow> keeps A s s'"
begin

lemma passes_keeps: "passes reconcile cs s = (outs, s') \<Longrightarrow> snd ` set cs \<subseteq> A \<Longrightarrow> keeps A s s'"
proof (induction cs arbitrary: s outs)
  case Nil
  then show ?case by (simp add: keeps_refl)
next
  case (Cons p cs)
  obtain c req where p: "p = (c, req)" by fastforce
  obtain out s1 where f: "reconcile c req s = (out, s1)" by fastforce
  from Cons obtain outs1 where "passes reconcile cs s1 = (outs1, s')"
    by (auto simp: p f Let_def split: prod.splits)
  from Cons.IH [OF this] keeps_step [OF f, of A] Cons.prems(2) show ?case by (auto simp: p intro: keeps_trans)
qed

lemma passes_results:
  "passes reconcile cs s = (outs, s') \<Longrightarrow> (r, e) \<in> set outs \<Longrightarrow>
     RequeueAfter r \<in> insert 0 delays \<and> (e \<noteq> None \<longrightarrow> r = Result0)"
proof (induction cs arbitrary: s outs)
  case (Cons p cs)
  obtain c req where p: "p = (c, req)" by fastforce
  obtain out s1 where f: "reconcile c req s = (out, s1)" by fastforce
  obtain outs1 where o: "passes reconcile cs s1 = (outs1, s')" "outs = out # outs1"
    using Cons.prems(1) by (auto simp: p f Let_def split: prod.splits)
  show ?case
  proof (cases "(r, e) \<in> set outs1")
    case True
    then show ?thesis using Cons.IH [OF o(1)] by blast
  next
    case False
    then have "out = (r, e)" using Cons.prems(2) o(2) by auto
    then show ?thesis using f delay_bound error_result by (cases e) auto
  qed
qed simp

end

section \<open>Both reconcilers keep it\<close>

lemma act_result:
  "act cl lib clk p h img s = ((r, e), s') \<Longrightarrow>
     RequeueAfter r \<in> {0, requeueWhileBuilding} \<and> (e \<noteq> None \<longrightarrow> r = Result0)"
  by (auto simp: act_def delay_def Result0_def split: prod.splits option.splits if_splits)

lemma Reconcile_result_cases:
  assumes "Reconcile cl lib env clk req s = ((r, e), s')"
  shows "RequeueAfter r \<in> {0, requeueWhileBuilding} \<and> (e \<noteq> None \<longrightarrow> r = Result0)"
proof -
  obtain d s1 where d: "decide cl lib env req s = (d, s1)" by fastforce
  show ?thesis
    using assms by (cases d) (auto simp: Reconcile_decide_act d Result0_def dest: act_result)
qed

text \<open>The namespace cache, once filled, is kept by every pass of the image reconciler.\<close>

definition keeps_namespace :: "'w process \<Rightarrow> 'w process \<Rightarrow> bool" where
  "keeps_namespace s t \<longleftrightarrow> (namespaceOnce (pr_Namespace s) \<longrightarrow> pr_Namespace t = pr_Namespace s)"

lemma decide_namespace: "decide cl lib env req s = (d, s') \<Longrightarrow> keeps_namespace s s'"
  by (auto simp: decide_def findBuildJob_def Let_def keeps_namespace_def controllerNamespace_cached
      split: sum.splits if_splits prod.splits)

lemma act_namespace: "act cl lib clk p h img s = (out, s') \<Longrightarrow> pr_Namespace s' = pr_Namespace s"
  by (auto simp: act_def updateStatusIfChanged_def split: prod.splits option.splits if_splits)

lemma Reconcile_namespace:
  assumes "Reconcile cl lib env clk req s = (out, s')"
  shows "keeps_namespace s s'"
proof -
  obtain d s1 where d: "decide cl lib env req s = (d, s1)" by fastforce
  have "pr_Namespace s' = pr_Namespace s1"
    using assms by (cases d) (auto simp: Reconcile_decide_act d dest: act_namespace)
  then show ?thesis using decide_namespace [OF d] by (simp add: keeps_namespace_def)
qed

text \<open>
  What passes over the requests \<open>A\<close> keep: the Jobs, the other images, and of the images in \<open>A\<close>
  everything but the status and the resource version.
\<close>

definition keeps_cluster :: "'w kube_client \<Rightarrow> NamespacedName set \<Rightarrow> 'w \<Rightarrow> 'w \<Rightarrow> bool" where
  "keeps_cluster cl A w w' \<longleftrightarrow>
     (\<forall>opts. kc_List cl opts w' = kc_List cl opts w) \<and>
     (\<forall>req. req \<notin> A \<longrightarrow> kc_Get cl req w' = kc_Get cl req w) \<and>
     (\<forall>req img. kc_Get cl req w = Inr img \<longrightarrow> (\<exists>img'. kc_Get cl req w' = Inr img' \<and>
        same_but_version (img'\<lparr>im_Status := im_Status img\<rparr>) img))"

lemma same_but_status_trans:
  assumes "same_but_version (b\<lparr>im_Status := im_Status a\<rparr>) a" "same_but_version (c\<lparr>im_Status := im_Status b\<rparr>) b"
  shows "same_but_version (c\<lparr>im_Status := im_Status a\<rparr>) a"
  using assms by (cases a; cases b; cases c) (simp add: same_but_version_def)

lemma keeps_cluster_refl: "keeps_cluster cl A w w"
  by (auto simp: keeps_cluster_def same_but_version_def)

lemma keeps_cluster_trans:
  assumes "keeps_cluster cl A u v" "keeps_cluster cl A v w"
  shows "keeps_cluster cl A u w"
  using assms unfolding keeps_cluster_def by (auto dest: same_but_status_trans) (metis same_but_status_trans)

lemma Reconcile_keeps:
  assumes cl: "client_contract cl" and rec: "Reconcile cl lib env clk req s = (out, s')" and req: "req \<in> A"
  shows "keeps_cluster cl A (pr_Cluster s) (pr_Cluster s')"
proof -
  obtain r e where "out = (r, e)" by fastforce
  note t = pass_touches [OF cl rec [unfolded this]]
  have "\<exists>img'. kc_Get cl q (pr_Cluster s') = Inr img' \<and> same_but_version (img'\<lparr>im_Status := im_Status img\<rparr>) img"
    if "kc_Get cl q (pr_Cluster s) = Inr img" for q img
    using t [of q] that by (cases "q = req") (auto simp: same_but_version_def)
  moreover have "kc_Get cl q (pr_Cluster s') = kc_Get cl q (pr_Cluster s)" if "q \<notin> A" for q
    using t that req by metis
  moreover have "kc_List cl opts (pr_Cluster s') = kc_List cl opts (pr_Cluster s)" for opts
    using t by blast
  ultimately show ?thesis unfolding keeps_cluster_def by blast
qed

definition keeps_process :: "'w kube_client \<Rightarrow> NamespacedName set \<Rightarrow> 'w process \<Rightarrow> 'w process \<Rightarrow> bool" where
  "keeps_process cl A s t \<longleftrightarrow> keeps_namespace s t \<and>
     (client_contract cl \<longrightarrow> keeps_cluster cl A (pr_Cluster s) (pr_Cluster t))"

interpretation image_reconciler: reconciler "\<lambda>(env, clk) req. Reconcile cl lib env clk req"
    "{requeueWhileBuilding}" "keeps_process cl" for cl lib
proof unfold_locales
  fix c :: "process_env \<times> (nat \<Rightarrow> Time)" and req A and s s' :: "'a process" and r err e out
  obtain env clk where c: "c = (env, clk)" by fastforce
  show "(case c of (env, clk) \<Rightarrow> \<lambda>req. Reconcile cl lib env clk req) req s = ((r, Some err), s') \<Longrightarrow> r = Result0"
    and "(case c of (env, clk) \<Rightarrow> \<lambda>req. Reconcile cl lib env clk req) req s = ((r, e), s') \<Longrightarrow>
      RequeueAfter r \<in> insert 0 {requeueWhileBuilding}"
    using Reconcile_result_cases [of cl lib env clk req s r _ s'] by (simp_all add: c)
  show "(case c of (env, clk) \<Rightarrow> \<lambda>req. Reconcile cl lib env clk req) req s = (out, s') \<Longrightarrow> req \<in> A \<Longrightarrow>
      keeps_process cl A s s'"
    using Reconcile_namespace [of cl lib env clk req s out s'] Reconcile_keeps [of cl lib env clk req s out s' A]
    by (simp add: c keeps_process_def)
qed (auto simp: keeps_process_def keeps_namespace_def keeps_cluster_refl intro: keeps_cluster_trans)

interpretation class_reconciler: reconciler "\<lambda>(c :: unit). PVENodeClass_Reconcile" "{}" "\<lambda>A. (=)"
  by unfold_locales (auto simp: PVENodeClass_Reconcile_def Result0_def)

lemma class_outcomes:
  "passes (\<lambda>(c :: unit). PVENodeClass_Reconcile) cs s = (outs, s') \<Longrightarrow> outs = map (\<lambda>c. (Result0, None)) cs"
proof (induction cs arbitrary: s outs)
  case (Cons c cs)
  then show ?case by (cases c) (auto simp: PVENodeClass_Reconcile_def Let_def split: prod.splits)
qed simp

section \<open>Properties\<close>

text \<open>
  Claim C32. Over any sequence of passes, each in its own environment and at its own clock, whatever
  fails in between: the image reconciler leaves every Job, every image that no request of the
  sequence names, and of the named images everything but the status and the resource version as
  they were before the first pass, loses no image, and never resolves again the namespace that the
  process has resolved; its outcomes ask for no delay other than thirty seconds, and for none
  together with an error. The reconciler of node classes changes nothing and answers every
  request with the empty result and no error.
\<close>

theorem reconcilers_keep_contract:
  assumes cl: "client_contract cl"
    and run: "passes (\<lambda>(env, clk) req. Reconcile cl lib env clk req) cs s = (outs, t)"
  shows "(\<forall>opts. kc_List cl opts (pr_Cluster t) = kc_List cl opts (pr_Cluster s)) \<and>
   (\<forall>req. req \<notin> snd ` set cs \<longrightarrow> kc_Get cl req (pr_Cluster t) = kc_Get cl req (pr_Cluster s)) \<and>
   (\<forall>req img. kc_Get cl req (pr_Cluster s) = Inr img \<longrightarrow> (\<exists>img'. kc_Get cl req (pr_Cluster t) = Inr img' \<and>
      same_but_version (img'\<lparr>im_Status := im_Status img\<rparr>) img)) \<and>
   (namespaceOnce (pr_Namespace s) \<longrightarrow> pr_Namespace t = pr_Namespace s) \<and>
   (\<forall>(r, e) \<in> set outs. RequeueAfter r \<in> {0, 30000000000} \<and> (e = None \<or> RequeueAfter r = 0)) \<and>
   passes (\<lambda>(c :: unit). PVENodeClass_Reconcile) cs' s' = (map (\<lambda>c. (\<lparr>RequeueAfter = 0\<rparr>, None)) cs', s')"
proof -
  have keep: "keeps_process cl (snd ` set cs) s t"
    by (rule image_reconciler.passes_keeps [OF run order_refl])
  have "\<forall>(r, e) \<in> set outs. RequeueAfter r \<in> {0, 30000000000} \<and> (e = None \<or> RequeueAfter r = 0)"
  proof (intro ballI, clarify)
    fix r e
    assume "(r, e) \<in> set outs"
    from image_reconciler.passes_results [OF run this]
    show "RequeueAfter r \<in> {0, 30000000000} \<and> (e = None \<or> RequeueAfter r = 0)"
      by (cases e) (auto simp: requeueWhileBuilding_def Result0_def)
  qed
  moreover obtain outs' t' where q: "passes (\<lambda>(c :: unit). PVENodeClass_Reconcile) cs' s' = (outs', t')" by fastforce
  have "s' = t'" by (rule class_reconciler.passes_keeps [OF q order_refl])
  then have "passes (\<lambda>(c :: unit). PVENodeClass_Reconcile) cs' s' = (map (\<lambda>c. (\<lparr>RequeueAfter = 0\<rparr>, None)) cs', s')"
    using q class_outcomes [OF q] by (simp add: Result0_def)
  ultimately show ?thesis
    using keep cl unfolding keeps_process_def keeps_cluster_def keeps_namespace_def by blast
qed

text \<open>Two passes over an image with a complete Job, and one over an image that is not there.\<close>

theorem reconcilers_keep_contract_witness:
  "\<exists>outs t. passes (\<lambda>(env, clk) req. Reconcile (mem_client anyJob) mem_libs env clk req)
      [((sampleEnv, clock), sampleReq), ((sampleEnv, clock), \<lparr>nn_Namespace = '''', nn_Name = ''other''\<rparr>),
       ((sampleEnv, clock), sampleReq)] (sampleProcess sampleImage [completeJob]) = (outs, t) \<and>
     kc_List (mem_client anyJob) \<lparr>lo_Namespace = ''karpenter'', lo_MatchingLabels = Map.empty\<rparr> (pr_Cluster t) =
       Inr [completeJob] \<and>
     (\<exists>img'. kc_Get (mem_client anyJob) sampleReq (pr_Cluster t) = Inr img' \<and>
        same_but_version (img'\<lparr>im_Status := im_Status sampleImage\<rparr>) sampleImage) \<and>
     passes (\<lambda>(c :: unit). PVENodeClass_Reconcile) [((), sampleReq)] (0 :: nat) = ([(\<lparr>RequeueAfter = 0\<rparr>, None)], 0)"
proof -
  let ?cs = "[((sampleEnv, clock), sampleReq), ((sampleEnv, clock), \<lparr>nn_Namespace = '''', nn_Name = ''other''\<rparr>),
       ((sampleEnv, clock), sampleReq)]"
  obtain outs t where run: "passes (\<lambda>(env, clk) req. Reconcile (mem_client anyJob) mem_libs env clk req) ?cs
      (sampleProcess sampleImage [completeJob]) = (outs, t)" by fastforce
  note keep = reconcilers_keep_contract [OF mem_client_ok run, of "[((), sampleReq)]" "0 :: nat"]
  have "kc_List (mem_client anyJob) \<lparr>lo_Namespace = ''karpenter'', lo_MatchingLabels = Map.empty\<rparr>
      (sampleCluster sampleImage [completeJob]) = Inr [completeJob]"
    by (simp add: mem_List_def sampleCluster_def mem_matches_def completeJob_def sampleJob_def)
  moreover have "kc_Get (mem_client anyJob) sampleReq (sampleCluster sampleImage [completeJob]) = Inr sampleImage"
    by simp
  ultimately show ?thesis using run keep unfolding sample_process(1) by (simp only:) auto
qed

end
