(* ===== verification/Go_Path.thy ===== *)
theory Go_Path
  imports Prelude
begin

text \<open>
  Go's slash-separated path functions (\<open>path.Clean\<close>, \<open>path.Join\<close>, \<open>path.Base\<close>,
  \<open>fs.ValidPath\<close>); \<open>filepath.Join\<close> and \<open>filepath.FromSlash\<close> agree with them on Unix, the
  only platforms the program is built for. The lemmas say what joining a plain file name
  below a clean absolute directory gives.
\<close>

abbreviation slash :: char where
  "slash \<equiv> CHR ''/''"

section \<open>Elements of a path\<close>

fun splitOn :: "char \<Rightarrow> string \<Rightarrow> string list" where
  "splitOn x [] = [[]]"
| "splitOn x (c # cs) =
     (if c = x then [] # splitOn x cs
      else (case splitOn x cs of [] \<Rightarrow> [[c]] | e # es \<Rightarrow> (c # e) # es))"

fun joinWith :: "string \<Rightarrow> string list \<Rightarrow> string" where
  "joinWith sep [] = []"
| "joinWith sep [e] = e"
| "joinWith sep (e # es) = e @ sep @ joinWith sep es"

text \<open>
  One element against the elements kept so far (last one first): empty and \<open>.\<close> elements go
  away, \<open>..\<close> cancels the element before it, and at the root it goes away too.
\<close>

fun cleanStep :: "bool \<Rightarrow> string list \<Rightarrow> string \<Rightarrow> string list" where
  "cleanStep rooted out e =
     (if e = [] \<or> e = ''.'' then out
      else if e = ''..'' then
        (case out of
           [] \<Rightarrow> if rooted then [] else [''..'']
         | o1 # os \<Rightarrow> if o1 = ''..'' then ''..'' # out else os)
      else e # out)"

definition path_Clean :: "string \<Rightarrow> string" where
  "path_Clean p =
     (let rooted = (p \<noteq> [] \<and> hd p = slash);
          out = rev (foldl (cleanStep rooted) [] (splitOn slash p));
          body = joinWith [slash] out
      in if rooted then slash # body else if out = [] then ''.'' else body)"

text \<open>\<open>path.Join\<close> drops leading empty elements, joins the rest and cleans; all empty gives empty.\<close>

definition path_Join :: "string list \<Rightarrow> string" where
  "path_Join elem =
     (case dropWhile (\<lambda>e. e = []) elem of
        [] \<Rightarrow> []
      | es \<Rightarrow> path_Clean (joinWith [slash] es))"

definition path_Base :: "string \<Rightarrow> string" where
  "path_Base p =
     (if p = [] then ''.''
      else let q = rev (dropWhile (\<lambda>c. c = slash) (rev p));
               b = rev (takeWhile (\<lambda>c. c \<noteq> slash) (rev q))
           in if b = [] then [slash] else b)"

text \<open>\<open>filepath.Join\<close> on Unix.\<close>

abbreviation filepath_Join :: "string list \<Rightarrow> string" where
  "filepath_Join \<equiv> path_Join"

text \<open>\<open>filepath.FromSlash\<close> on Unix, where the separator is the slash.\<close>

definition filepath_FromSlash :: "string \<Rightarrow> string" where
  "filepath_FromSlash p = p"

text \<open>\<open>fs.ValidPath\<close> (its UTF-8 test is true of every name the source forms from ASCII text).\<close>

definition fs_ValidPath :: "string \<Rightarrow> bool" where
  "fs_ValidPath p \<longleftrightarrow> p = ''.'' \<or> (\<forall>e \<in> set (splitOn slash p). e \<noteq> [] \<and> e \<noteq> ''.'' \<and> e \<noteq> ''..'')"

lemma splitOn_nonempty [simp]: "splitOn x s \<noteq> []"
  by (induction s) (auto split: list.splits)

lemma splitOn_no_sep: "x \<notin> set s \<Longrightarrow> splitOn x s = [s]"
  by (induction s) auto

lemma splitOn_append: "x \<notin> set a \<Longrightarrow> splitOn x (a @ x # b) = a # splitOn x b"
  by (induction a) auto

lemma splitOn_parts: "e \<in> set (splitOn x s) \<Longrightarrow> x \<notin> set e"
  by (induction s arbitrary: e) (auto split: if_splits list.splits)

lemma joinWith_Cons: "es \<noteq> [] \<Longrightarrow> joinWith sep (e # es) = e @ sep @ joinWith sep es"
  by (cases es) auto

lemma splitOn_joinWith:
  "es \<noteq> [] \<Longrightarrow> \<forall>e \<in> set es. x \<notin> set e \<Longrightarrow> splitOn x (joinWith [x] es) = es"
proof (induction es)
  case Nil
  then show ?case by simp
next
  case (Cons e es)
  then show ?case
    by (cases es) (simp_all add: splitOn_no_sep joinWith_Cons splitOn_append)
qed

lemma joinWith_splitOn: "joinWith [x] (splitOn x s) = s"
proof (induction s)
  case Nil
  then show ?case by simp
next
  case (Cons c s)
  then show ?case
    by (cases "splitOn x s") (auto simp: joinWith_Cons, (cases "tl (splitOn x s)"; simp)+)
qed

section \<open>Directories and plain names\<close>

text \<open>A name that is one proper path element.\<close>

definition plainName :: "string \<Rightarrow> bool" where
  "plainName n \<longleftrightarrow> n \<noteq> [] \<and> n \<noteq> ''.'' \<and> n \<noteq> ''..'' \<and> slash \<notin> set n"

text \<open>An absolute path in clean form other than the root: what \<open>os.MkdirTemp\<close> returns.\<close>

definition cleanAbs :: "string \<Rightarrow> bool" where
  "cleanAbs d \<longleftrightarrow> (\<exists>es. es \<noteq> [] \<and> (\<forall>e \<in> set es. plainName e) \<and> d = slash # joinWith [slash] es)"

lemma cleanStep_plain: "plainName e \<Longrightarrow> cleanStep r out e = e # out"
  by (simp add: plainName_def)

lemma foldl_cleanStep_plain:
  "\<forall>e \<in> set es. plainName e \<Longrightarrow> foldl (cleanStep r) out es = rev es @ out"
proof (induction es arbitrary: out)
  case Nil
  then show ?case by simp
next
  case (Cons e es)
  then show ?case by (simp del: cleanStep.simps add: cleanStep_plain)
qed

lemma path_Clean_abs:
  "es \<noteq> [] \<Longrightarrow> \<forall>e \<in> set es. plainName e \<Longrightarrow>
     path_Clean (slash # joinWith [slash] es) = slash # joinWith [slash] es"
  by (simp add: path_Clean_def Let_def splitOn_joinWith foldl_cleanStep_plain plainName_def)

lemma joinWith_snoc: "es \<noteq> [] \<Longrightarrow> joinWith sep (es @ [e]) = joinWith sep es @ sep @ e"
proof (induction es)
  case Nil
  then show ?case by simp
next
  case (Cons a es)
  then show ?case by (cases es) (simp_all add: joinWith_Cons)
qed

text \<open>Joining a plain name below a clean absolute directory appends it.\<close>

lemma path_Join_child:
  assumes "cleanAbs d" "plainName n"
  shows "path_Join [d, n] = d @ slash # n" "cleanAbs (d @ slash # n)"
proof -
  obtain es where es: "es \<noteq> []" "\<forall>e \<in> set es. plainName e" "d = slash # joinWith [slash] es"
    using assms(1) by (auto simp: cleanAbs_def)
  have j: "d @ slash # n = slash # joinWith [slash] (es @ [n])"
    using es by (simp add: joinWith_snoc)
  have "d \<noteq> []" using es by simp
  then have "path_Join [d, n] = path_Clean (d @ slash # n)"
    by (simp add: path_Join_def)
  also have "\<dots> = d @ slash # n"
    unfolding j by (rule path_Clean_abs) (use es assms in auto)
  finally show "path_Join [d, n] = d @ slash # n" .
  show "cleanAbs (d @ slash # n)"
    unfolding cleanAbs_def j using es assms by (intro exI [of _ "es @ [n]"]) auto
qed

lemma path_Base_child: "plainName n \<Longrightarrow> path_Base (d @ slash # n) = n"
  by (cases n rule: rev_cases)
    (auto simp: path_Base_def Let_def plainName_def takeWhile_append dropWhile_append3)

lemma path_Join_inj:
  "cleanAbs d \<Longrightarrow> plainName m \<Longrightarrow> plainName n \<Longrightarrow> path_Join [d, m] = path_Join [d, n] \<Longrightarrow> m = n"
  by (simp add: path_Join_child)

section \<open>Valid relative paths\<close>

lemma validPath_parts:
  assumes "fs_ValidPath p" "p \<noteq> ''.''"
  shows "\<forall>e \<in> set (splitOn slash p). plainName e"
  using assms by (auto simp: fs_ValidPath_def plainName_def dest: splitOn_parts)

lemma path_Clean_rel:
  assumes "es \<noteq> []" "\<forall>e \<in> set es. plainName e"
  shows "path_Clean (joinWith [slash] es) = joinWith [slash] es"
proof -
  obtain e es' where es: "es = e # es'" using assms(1) by (cases es) auto
  obtain c cs where e: "e = c # cs" "c \<noteq> slash"
    using assms(2) es by (cases e) (auto simp: plainName_def)
  have "hd (joinWith [slash] es) = c" by (cases es') (simp_all add: es e)
  then show ?thesis
    using assms e by (simp add: path_Clean_def Let_def splitOn_joinWith foldl_cleanStep_plain plainName_def)
qed

lemma path_Join_rel:
  assumes "fs_ValidPath d" "d \<noteq> ''.''" "plainName n"
  shows "path_Join [d, n] = d @ slash # n"
proof -
  let ?es = "splitOn slash d"
  have d: "d = joinWith [slash] ?es" by (simp add: joinWith_splitOn)
  then have "d \<noteq> []" using validPath_parts [OF assms(1,2)]
    by (metis assms(1,2) fs_ValidPath_def list.set_intros(1) splitOn.simps(1))
  moreover have j: "d @ slash # n = joinWith [slash] (?es @ [n])"
    using joinWith_snoc [of ?es "[slash]" n] d by simp
  moreover have "path_Clean (joinWith [slash] (?es @ [n])) = joinWith [slash] (?es @ [n])"
    by (rule path_Clean_rel) (use validPath_parts [OF assms(1,2)] assms(3) in auto)
  ultimately show ?thesis by (simp add: path_Join_def)
qed

lemma takeWhile_no_slash: "slash \<notin> set xs \<Longrightarrow> takeWhile (\<lambda>c. c \<noteq> slash) xs = xs"
  by (induction xs) auto

lemma path_Base_plain: "plainName n \<Longrightarrow> path_Base n = n"
  by (cases n rule: rev_cases) (auto simp: path_Base_def Let_def plainName_def takeWhile_no_slash)

lemma path_Base_valid:
  assumes "fs_ValidPath p" "p \<noteq> ''.''"
  shows "plainName (path_Base p)"
proof -
  let ?es = "splitOn slash p"
  have es: "?es = butlast ?es @ [last ?es]" by simp
  have l: "plainName (last ?es)" using validPath_parts [OF assms] by simp
  show ?thesis
  proof (cases "butlast ?es = []")
    case True
    then have "p = last ?es" using joinWith_splitOn [of slash p] es by (metis append_Nil joinWith.simps(2))
    then show ?thesis using l path_Base_plain by metis
  next
    case False
    then have "p = joinWith [slash] (butlast ?es) @ slash # last ?es"
      using joinWith_snoc [OF False, of "[slash]" "last ?es"] joinWith_splitOn [of slash p] es by simp
    then show ?thesis using l path_Base_child by metis
  qed
qed

lemma path_Join_many:
  assumes "cleanAbs d" "ns \<noteq> []" "\<forall>n \<in> set ns. plainName n"
  shows "path_Join (d # ns) = d @ slash # joinWith [slash] ns"
proof -
  obtain es where es: "es \<noteq> []" "\<forall>e \<in> set es. plainName e" "d = slash # joinWith [slash] es"
    using assms(1) by (auto simp: cleanAbs_def)
  have app: "joinWith [slash] (as @ bs) = joinWith [slash] as @ slash # joinWith [slash] bs"
    if "as \<noteq> []" "bs \<noteq> []" for as bs
    using that(1)
  proof (induction as)
    case (Cons a as)
    then show ?case using that(2) by (cases as) (simp_all add: joinWith_Cons)
  qed simp
  have "path_Join (d # ns) = path_Clean (d @ slash # joinWith [slash] ns)"
    using es(3) assms(2) by (simp add: path_Join_def joinWith_Cons)
  also have "d @ slash # joinWith [slash] ns = slash # joinWith [slash] (es @ ns)"
    using es assms(2) by (simp add: app)
  also have "path_Clean (slash # joinWith [slash] (es @ ns)) = slash # joinWith [slash] (es @ ns)"
    by (rule path_Clean_abs) (use es assms in auto)
  finally show ?thesis using es(1,3) assms(2) by (simp add: app)
qed

end
