(* ===== verification/Go_Os.thy ===== *)
theory Go_Os
  imports Go_Path
begin

text \<open>
  The part of Go's \<open>os\<close> package that the source uses, over an explicit state: a tree of nodes by
  absolute path, the working directory, the umask, the environment, the output streams and the
  faults of the machine. A fault is an error that an operation meets at a path (no space, no
  permission and so on); a write that fails has put some of its bytes into the file, as many as
  \<open>os_Partial\<close> says. A state without faults is a special case, never an assumption of a
  definition. There are no symbolic links, and no other process acts while a function runs.
\<close>

section \<open>The state\<close>

datatype node = NDir | NFile bytes nat

record os_state =
  os_Nodes :: "string \<rightharpoonup> node"
  os_Fault :: "string \<Rightarrow> string \<Rightarrow> go_error option"
  os_Partial :: "string \<Rightarrow> nat"
  os_Cwd :: string
  os_TempDir :: string
  os_Umask :: nat
  os_Environ :: "string list"
  os_Stdout :: string
  os_Stderr :: string

text \<open>The absolute path a name stands for, and the directory of a path.\<close>

definition resolve :: "os_state \<Rightarrow> string \<Rightarrow> string" where
  "resolve s p = (if p \<noteq> [] \<and> hd p = slash then path_Clean p else path_Clean (os_Cwd s @ slash # p))"

definition parentOf :: "string \<Rightarrow> string" where
  "parentOf p = (let q = rev (tl (dropWhile (\<lambda>c. c \<noteq> slash) (rev p))) in if q = [] then [slash] else q)"

definition path_error :: "string \<Rightarrow> string \<Rightarrow> string \<Rightarrow> go_error" where
  "path_error op p m = Err (op @ '' '' @ p @ '': '' @ m)"

definition set_node :: "string \<Rightarrow> node \<Rightarrow> os_state \<Rightarrow> os_state" where
  "set_node p n s = s\<lparr>os_Nodes := (os_Nodes s)(p \<mapsto> n)\<rparr>"

text \<open>What the kernel says when an entry is made at a path.\<close>

definition create_error :: "os_state \<Rightarrow> string \<Rightarrow> string option" where
  "create_error s p =
     (case os_Nodes s (parentOf p) of
        Some NDir \<Rightarrow> None
      | Some (NFile d m) \<Rightarrow> Some ''not a directory''
      | None \<Rightarrow> Some ''no such file or directory'')"

section \<open>Operations\<close>

text \<open>\<open>os.Stat\<close>: only the error matters to the source.\<close>

definition os_Stat :: "string \<Rightarrow> os_state \<Rightarrow> go_error option" where
  "os_Stat p s =
     (if p = [] then Some (path_error ''stat'' p ''no such file or directory'')
      else case os_Fault s ''stat'' (resolve s p) of Some e \<Rightarrow> Some e | None \<Rightarrow>
        (case os_Nodes s (resolve s p) of
           None \<Rightarrow> Some (path_error ''stat'' p ''no such file or directory'') | Some n \<Rightarrow> None))"

text \<open>\<open>os.Open\<close>: opening a directory succeeds, reading it then fails.\<close>

definition os_Open :: "string \<Rightarrow> os_state \<Rightarrow> go_error option" where
  "os_Open p s =
     (if p = [] then Some (path_error ''open'' p ''no such file or directory'')
      else case os_Fault s ''open'' (resolve s p) of Some e \<Rightarrow> Some e | None \<Rightarrow>
        (case os_Nodes s (resolve s p) of
           None \<Rightarrow> Some (path_error ''open'' p ''no such file or directory'') | Some n \<Rightarrow> None))"

definition os_Read :: "string \<Rightarrow> os_state \<Rightarrow> bytes result" where
  "os_Read p s =
     (case os_Fault s ''read'' (resolve s p) of Some e \<Rightarrow> Inl e | None \<Rightarrow>
       (case os_Nodes s (resolve s p) of
          Some (NFile d m) \<Rightarrow> Inr d
        | Some NDir \<Rightarrow> Inl (path_error ''read'' p ''is a directory'')
        | None \<Rightarrow> Inl (path_error ''read'' p ''no such file or directory'')))"

definition os_ReadFile :: "string \<Rightarrow> os_state \<Rightarrow> bytes result" where
  "os_ReadFile p s = (case os_Open p s of Some e \<Rightarrow> Inl e | None \<Rightarrow> os_Read p s)"

text \<open>
  \<open>os.OpenFile\<close> with \<open>O_WRONLY|O_CREATE|O_TRUNC\<close>: an existing file is emptied and keeps its
  mode, a new one gets the mode less the umask.
\<close>

definition os_OpenTrunc :: "string \<Rightarrow> nat \<Rightarrow> os_state \<Rightarrow> go_error option \<times> os_state" where
  "os_OpenTrunc p mode s =
     (let q = resolve s p in
      if p = [] then (Some (path_error ''open'' p ''no such file or directory''), s)
      else case os_Fault s ''create'' q of Some e \<Rightarrow> (Some e, s) | None \<Rightarrow>
        (case os_Nodes s q of
           Some NDir \<Rightarrow> (Some (path_error ''open'' p ''is a directory''), s)
         | Some (NFile d m) \<Rightarrow> (None, set_node q (NFile [] m) s)
         | None \<Rightarrow> (case create_error s q of
             Some m \<Rightarrow> (Some (path_error ''open'' p m), s)
           | None \<Rightarrow> (None, set_node q (NFile [] (and mode (mask 9 - and (mask 9) (os_Umask s)))) s))))"

text \<open>Writing all of the data to a file opened at its start; a fault leaves a prefix behind.\<close>

definition os_Write :: "string \<Rightarrow> bytes \<Rightarrow> os_state \<Rightarrow> go_error option \<times> os_state" where
  "os_Write p d s =
     (let q = resolve s p; e = os_Fault s ''write'' q in
      case os_Nodes s q of
        Some (NFile d0 m) \<Rightarrow> (e, set_node q (NFile (if e = None then d else take (os_Partial s q) d) m) s)
      | _ \<Rightarrow> (e, s))"

definition os_WriteFile :: "string \<Rightarrow> bytes \<Rightarrow> nat \<Rightarrow> os_state \<Rightarrow> go_error option \<times> os_state" where
  "os_WriteFile p d mode s =
     (case os_OpenTrunc p mode s of (Some e, s') \<Rightarrow> (Some e, s') | (None, s') \<Rightarrow> os_Write p d s')"

definition os_Mkdir :: "string \<Rightarrow> os_state \<Rightarrow> go_error option \<times> os_state" where
  "os_Mkdir p s =
     (let q = resolve s p in
      case os_Fault s ''mkdir'' q of Some e \<Rightarrow> (Some e, s) | None \<Rightarrow>
        (case os_Nodes s q of
           Some n \<Rightarrow> (Some (path_error ''mkdir'' p ''file exists''), s)
         | None \<Rightarrow> (case create_error s q of
             Some m \<Rightarrow> (Some (path_error ''mkdir'' p m), s)
           | None \<Rightarrow> (None, set_node q NDir s))))"

text \<open>\<open>os.MkdirAll\<close>: a directory that is there is fine, its parents are made first.\<close>

function os_MkdirAll :: "string \<Rightarrow> os_state \<Rightarrow> go_error option \<times> os_state" where
  "os_MkdirAll p s =
     (case os_Nodes s (resolve s p) of
        Some NDir \<Rightarrow> (None, s)
      | Some (NFile d m) \<Rightarrow> (Some (path_error ''mkdir'' p ''not a directory''), s)
      | None \<Rightarrow>
          if length (parentOf p) < length p then
            (case os_MkdirAll (parentOf p) s of
               (Some e, s') \<Rightarrow> (Some e, s')
             | (None, s') \<Rightarrow> os_Mkdir p s')
          else os_Mkdir p s)"
  by pat_completeness auto
termination
  by (relation "measure (\<lambda>(p, s). length p)") auto

declare os_MkdirAll.simps [simp del]

text \<open>
  \<open>os.MkdirTemp("", prefix*)\<close>: names are drawn until one is new, at most ten thousand times;
  \<open>rnd i\<close> is the \<open>i\<close>-th random suffix drawn.
\<close>

fun mkdirTemp_loop :: "nat \<Rightarrow> (nat \<Rightarrow> string) \<Rightarrow> string \<Rightarrow> nat \<Rightarrow> os_state \<Rightarrow> string result \<times> os_state" where
  "mkdirTemp_loop 0 rnd pre i s = (Inl (path_error ''mkdirtemp'' (pre @ ''*'') ''file exists''), s)"
| "mkdirTemp_loop (Suc k) rnd pre i s =
     (let name = pre @ rnd i in
      if os_Fault s ''mkdir'' (resolve s name) = None \<and> os_Nodes s (resolve s name) \<noteq> None
      then mkdirTemp_loop k rnd pre (Suc i) s
      else (case os_Mkdir name s of (Some e, s') \<Rightarrow> (Inl e, s') | (None, s') \<Rightarrow> (Inr name, s')))"

definition os_MkdirTemp :: "(nat \<Rightarrow> string) \<Rightarrow> string \<Rightarrow> os_state \<Rightarrow> string result \<times> os_state" where
  "os_MkdirTemp rnd prefix s = mkdirTemp_loop 10000 rnd (os_TempDir s @ slash # prefix) 0 s"

definition print_stdout :: "string \<Rightarrow> os_state \<Rightarrow> go_error option \<times> os_state" where
  "print_stdout t s = (case os_Fault s ''write'' ''/dev/stdout'' of
     Some e \<Rightarrow> (Some e, s\<lparr>os_Stdout := os_Stdout s @ take (os_Partial s ''/dev/stdout'') t\<rparr>)
   | None \<Rightarrow> (None, s\<lparr>os_Stdout := os_Stdout s @ t\<rparr>))"

definition print_stderr :: "string \<Rightarrow> os_state \<Rightarrow> os_state" where
  "print_stderr t s = (case os_Fault s ''write'' ''/dev/stderr'' of
     Some e \<Rightarrow> s\<lparr>os_Stderr := os_Stderr s @ take (os_Partial s ''/dev/stderr'') t\<rparr>
   | None \<Rightarrow> s\<lparr>os_Stderr := os_Stderr s @ t\<rparr>)"

section \<open>Clean paths\<close>

lemma resolve_abs: "cleanAbs p \<Longrightarrow> resolve s p = p"
  by (auto simp: resolve_def cleanAbs_def path_Clean_abs)

lemma cleanAbs_nonempty: "cleanAbs p \<Longrightarrow> p \<noteq> []"
  by (auto simp: cleanAbs_def)

lemma parentOf_child:
  assumes "d \<noteq> []" "plainName n"
  shows "parentOf (d @ slash # n) = d"
proof -
  have "dropWhile (\<lambda>c. c \<noteq> slash) (xs @ slash # ys) = slash # ys" if "slash \<notin> set xs" for xs ys
    using that by (induction xs) auto
  from this [of "rev n" "rev d"] have "dropWhile (\<lambda>c. c \<noteq> slash) (rev n @ slash # rev d) = slash # rev d"
    using assms(2) by (simp add: plainName_def)
  then show ?thesis using assms(1) by (simp add: parentOf_def)
qed

text \<open>Paths strictly below a directory.\<close>

definition below :: "string \<Rightarrow> string set" where
  "below d = {p. \<exists>q. p = d @ slash # q}"

lemma below_child [simp, intro]: "d @ slash # n \<in> below d"
  by (simp add: below_def)

lemma below_trans: "p \<in> below q \<Longrightarrow> q \<in> below d \<Longrightarrow> p \<in> below d"
  by (auto simp: below_def)

lemma not_below_self [simp]: "d \<notin> below d"
  by (simp add: below_def)

section \<open>What an operation may change\<close>

text \<open>
  From \<open>s\<close> to \<open>s'\<close> only nodes at the paths \<open>A\<close> differ, and no directory is lost.
\<close>

definition touches :: "string set \<Rightarrow> os_state \<Rightarrow> os_state \<Rightarrow> bool" where
  "touches A s s' \<longleftrightarrow> s' = s\<lparr>os_Nodes := os_Nodes s'\<rparr> \<and>
     (\<forall>q. q \<notin> A \<longrightarrow> os_Nodes s' q = os_Nodes s q) \<and>
     (\<forall>q. os_Nodes s q = Some NDir \<longrightarrow> os_Nodes s' q = Some NDir)"

lemma touches_refl [simp, intro]: "touches A s s"
  by (simp add: touches_def)

lemma touches_fields:
  assumes "touches A s s'"
  shows "os_Fault s' = os_Fault s" "os_Cwd s' = os_Cwd s" "os_TempDir s' = os_TempDir s"
    "os_Umask s' = os_Umask s" "os_Environ s' = os_Environ s" "os_Stdout s' = os_Stdout s"
    "os_Stderr s' = os_Stderr s" "resolve s' p = resolve s p"
proof -
  have e: "s' = s\<lparr>os_Nodes := os_Nodes s'\<rparr>" using assms by (simp add: touches_def)
  show "os_Fault s' = os_Fault s" "os_Cwd s' = os_Cwd s" "os_TempDir s' = os_TempDir s"
    "os_Umask s' = os_Umask s" "os_Environ s' = os_Environ s" "os_Stdout s' = os_Stdout s"
    "os_Stderr s' = os_Stderr s"
    by (subst e, simp)+
  then show "resolve s' p = resolve s p" by (simp add: resolve_def)
qed

lemma touches_outside: "touches A s s' \<Longrightarrow> q \<notin> A \<Longrightarrow> os_Nodes s' q = os_Nodes s q"
  by (simp add: touches_def)

lemma touches_dir: "touches A s s' \<Longrightarrow> os_Nodes s q = Some NDir \<Longrightarrow> os_Nodes s' q = Some NDir"
  by (simp add: touches_def)

lemma touches_mono: "touches A s s' \<Longrightarrow> A \<subseteq> B \<Longrightarrow> touches B s s'"
  by (auto simp: touches_def)

lemma touches_trans: "touches A s s' \<Longrightarrow> touches A s' s'' \<Longrightarrow> touches A s s''"
  by (cases s; cases s'; cases s'') (auto simp: touches_def)

lemma touches_set_node: "os_Nodes s p \<noteq> Some NDir \<or> n = NDir \<Longrightarrow> touches {p} s (set_node p n s)"
  by (auto simp: touches_def set_node_def)

lemma set_node_lookup [simp]: "os_Nodes (set_node p n s) q = (if q = p then Some n else os_Nodes s q)"
  by (simp add: set_node_def)

lemma set_node_fault [simp]: "os_Fault (set_node p n s) = os_Fault s" "resolve (set_node p n s) q = resolve s q"
  by (simp_all add: set_node_def resolve_def)

lemma OpenTrunc_touches: "os_OpenTrunc p mode s = (e, s') \<Longrightarrow> touches {resolve s p} s s'"
  by (auto simp: os_OpenTrunc_def Let_def intro: touches_set_node
      split: if_splits option.splits node.splits)

lemma Write_touches: "os_Write p d s = (e, s') \<Longrightarrow> touches {resolve s p} s s'"
  by (auto simp: os_Write_def Let_def intro: touches_set_node split: option.splits node.splits)

lemma WriteFile_touches:
  assumes "os_WriteFile p d mode s = (e, s')"
  shows "touches {resolve s p} s s'"
proof -
  obtain e1 s1 where o: "os_OpenTrunc p mode s = (e1, s1)" by fastforce
  note t = OpenTrunc_touches [OF o]
  show ?thesis
  proof (cases e1)
    case None
    then have "os_Write p d s1 = (e, s')" using assms o by (simp add: os_WriteFile_def)
    from Write_touches [OF this] show ?thesis
      using touches_trans [OF t] touches_fields(8) [OF t] by simp
  qed (use assms o t in \<open>simp add: os_WriteFile_def\<close>)
qed

lemma Mkdir_touches: "os_Mkdir p s = (e, s') \<Longrightarrow> touches {resolve s p} s s'"
  by (auto simp: os_Mkdir_def Let_def intro: touches_set_node split: option.splits)

lemma Mkdir_ok: "os_Mkdir p s = (None, s') \<Longrightarrow> os_Nodes s (resolve s p) = None \<and> s' = set_node (resolve s p) NDir s"
  by (auto simp: os_Mkdir_def Let_def split: option.splits)

text \<open>A write that succeeds is what the file then holds; its mode is fixed when it is created.\<close>

lemma WriteFile_ok:
  assumes "os_WriteFile p d mode s = (None, s')"
  shows "\<exists>m. os_Nodes s' (resolve s p) = Some (NFile d m) \<and>
     m = (case os_Nodes s (resolve s p) of Some (NFile d0 m0) \<Rightarrow> m0
          | _ \<Rightarrow> and mode (mask 9 - and (mask 9) (os_Umask s)))"
  using assms
  by (auto simp: os_WriteFile_def os_OpenTrunc_def os_Write_def Let_def
      split: if_splits option.splits node.splits)

lemma ReadFile_nodes:
  assumes "os_Nodes s (resolve s p) = Some (NFile d m)" "p \<noteq> []"
    and "os_Fault s ''open'' (resolve s p) = None" "os_Fault s ''read'' (resolve s p) = None"
  shows "os_ReadFile p s = Inr d"
  using assms by (simp add: os_ReadFile_def os_Open_def os_Read_def)

section \<open>Files as a store\<close>

text \<open>
  The interface the extraction code relies on: a write that succeeds is read back, and writing
  one file leaves the contents of the others alone. \<open>put_all\<close> writes a list of files in order
  and stops at the first error.
\<close>

fun put_all :: "('p \<Rightarrow> 'd \<Rightarrow> 's \<Rightarrow> 'e option \<times> 's) \<Rightarrow> ('p \<times> 'd) list \<Rightarrow> 's \<Rightarrow> 'e option \<times> 's" where
  "put_all put [] s = (None, s)"
| "put_all put ((p, d) # ps) s =
     (case put p d s of (Some e, s') \<Rightarrow> (Some e, s') | (None, s') \<Rightarrow> put_all put ps s')"

locale file_store =
  fixes valid :: "'p \<Rightarrow> bool"
    and get :: "'s \<Rightarrow> 'p \<Rightarrow> 'd option"
    and put :: "'p \<Rightarrow> 'd \<Rightarrow> 's \<Rightarrow> 'e option \<times> 's"
  assumes put_get: "valid p \<Longrightarrow> put p d s = (None, s') \<Longrightarrow> get s' p = Some d"
    and put_frame: "valid p \<Longrightarrow> valid q \<Longrightarrow> p \<noteq> q \<Longrightarrow> put p d s = (e, s') \<Longrightarrow> get s' q = get s q"
begin

lemma put_all_frame:
  "put_all put ps s = (e, s') \<Longrightarrow> \<forall>p \<in> fst ` set ps. valid p \<Longrightarrow> valid q \<Longrightarrow> q \<notin> fst ` set ps \<Longrightarrow>
     get s' q = get s q"
proof (induction ps arbitrary: s)
  case (Cons a ps)
  obtain p d where a: "a = (p, d)" by fastforce
  obtain e1 s1 where p: "put p d s = (e1, s1)" by fastforce
  have "get s1 q = get s q" using put_frame [OF _ _ _ p] Cons.prems a by auto
  then show ?case using Cons.IH [of s1] Cons.prems a p by (cases e1) auto
qed simp

lemma put_all_get:
  "put_all put ps s = (None, s') \<Longrightarrow> \<forall>p \<in> fst ` set ps. valid p \<Longrightarrow> distinct (map fst ps) \<Longrightarrow>
     (p, d) \<in> set ps \<Longrightarrow> get s' p = Some d"
proof (induction ps arbitrary: s)
  case (Cons a ps)
  obtain q x where a: "a = (q, x)" by fastforce
  obtain s1 where p: "put q x s = (None, s1)" "put_all put ps s1 = (None, s')"
    using Cons.prems(1) a by (auto split: prod.splits option.splits)
  show ?case
  proof (cases "(p, d) = a")
    case True
    then show ?thesis
      using put_get [OF _ p(1)] put_all_frame [OF p(2), of p] Cons.prems a by auto
  next
    case False
    then show ?thesis using Cons.IH [OF p(2)] Cons.prems by auto
  qed
qed simp

end

definition file_data :: "os_state \<Rightarrow> string \<Rightarrow> bytes option" where
  "file_data s p = (case os_Nodes s p of Some (NFile d m) \<Rightarrow> Some d | _ \<Rightarrow> None)"

interpretation os_files: file_store cleanAbs file_data "\<lambda>p d. os_WriteFile p d mode" for mode
proof unfold_locales
  show "file_data s' p = Some d" if "cleanAbs p" "os_WriteFile p d mode s = (None, s')" for p d s s'
    using WriteFile_ok [OF that(2)] that(1) by (auto simp: file_data_def resolve_abs)
  show "file_data s' q = file_data s q"
    if "cleanAbs p" "cleanAbs q" "p \<noteq> q" "os_WriteFile p d mode s = (e, s')" for p q d s e s'
    using touches_outside [OF WriteFile_touches [OF that(4)], of q] that(1,3)
    by (simp add: file_data_def resolve_abs)
qed

lemma put_all_touches:
  "put_all (\<lambda>p d. os_WriteFile p d mode) ps s = (e, s') \<Longrightarrow> \<forall>p \<in> fst ` set ps. cleanAbs p \<Longrightarrow>
     touches (fst ` set ps) s s'"
proof (induction ps arbitrary: s)
  case (Cons a ps)
  obtain p d where a: "a = (p, d)" by fastforce
  obtain e1 s1 where w: "os_WriteFile p d mode s = (e1, s1)" by fastforce
  have t: "touches (fst ` set (a # ps)) s s1"
    using touches_mono [OF WriteFile_touches [OF w]] Cons.prems(2) a by (auto simp: resolve_abs)
  show ?case
  proof (cases e1)
    case None
    then have "put_all (\<lambda>p d. os_WriteFile p d mode) ps s1 = (e, s')" using Cons.prems(1) a w by simp
    from Cons.IH [OF this] Cons.prems(2) have "touches (fst ` set (a # ps)) s1 s'"
      by (auto elim: touches_mono)
    with t show ?thesis by (rule touches_trans)
  qed (use Cons.prems(1) a w t in simp)
qed auto

section \<open>Making directories\<close>

lemma MkdirAll_new: "os_MkdirAll p s = (r, s') \<Longrightarrow> touches {q. os_Nodes s q = None} s s'"
proof (induction p s arbitrary: r s' rule: os_MkdirAll.induct)
  case (1 p s)
  have mk: "touches {q. os_Nodes s q = None} s s2"
    if t: "touches {q. os_Nodes s q = None} s s1" and m: "os_Mkdir p s1 = (r2, s2)" for s1 s2 r2
  proof -
    have "s2 = s1 \<or> os_Nodes s1 (resolve s1 p) = None \<and> s2 = set_node (resolve s1 p) NDir s1"
      using m by (auto simp: os_Mkdir_def Let_def split: option.splits)
    then have "touches {q. os_Nodes s q = None} s1 s2"
    proof
      assume a: "os_Nodes s1 (resolve s1 p) = None \<and> s2 = set_node (resolve s1 p) NDir s1"
      have "os_Nodes s (resolve s1 p) = None"
      proof (rule ccontr)
        assume "os_Nodes s (resolve s1 p) \<noteq> None"
        then have "os_Nodes s1 (resolve s1 p) \<noteq> None" using touches_outside [OF t] by auto
        then show False using a by simp
      qed
      then have "{resolve s1 p} \<subseteq> {q. os_Nodes s q = None}" by simp
      then show ?thesis using a touches_mono [OF touches_set_node [of s1 "resolve s1 p" NDir]] by auto
    qed simp
    with t show ?thesis by (rule touches_trans)
  qed
  show ?case
  proof (cases "os_Nodes s (resolve s p)")
    case (Some n)
    then show ?thesis using "1.prems" by (cases n) (simp_all add: os_MkdirAll.simps [of p])
  next
    case None
    show ?thesis
    proof (cases "length (parentOf p) < length p")
      case False
      then have "os_Mkdir p s = (r, s')" using "1.prems" None by (simp add: os_MkdirAll.simps [of p])
      then show ?thesis using mk by blast
    next
      case True
      obtain e1 s1 where m: "os_MkdirAll (parentOf p) s = (e1, s1)" by fastforce
      note t = "1.IH" [OF None True m]
      show ?thesis
      proof (cases e1)
        case None1: None
        then have "os_Mkdir p s1 = (r, s')"
          using "1.prems" None True m by (simp add: os_MkdirAll.simps [of p])
        with t show ?thesis by (rule mk)
      qed (use "1.prems" None True m t in \<open>simp add: os_MkdirAll.simps [of p]\<close>)
    qed
  qed
qed

lemma MkdirAll_ok:
  assumes "os_MkdirAll p s = (None, s')"
  shows "os_Nodes s' (resolve s p) = Some NDir"
proof (cases "os_Nodes s (resolve s p)")
  case (Some n)
  then show ?thesis using assms by (cases n) (simp_all add: os_MkdirAll.simps [of p])
next
  case None
  then obtain s1 where s1: "resolve s1 p = resolve s p" "os_Mkdir p s1 = (None, s')"
    using assms touches_fields(8) [OF MkdirAll_new [of "parentOf p" s]]
    by (auto simp: os_MkdirAll.simps [of p] split: if_splits prod.splits option.splits)
  then show ?thesis using Mkdir_ok [OF s1(2)] by simp
qed

lemma Mkdir_file_data: "os_Mkdir p s = (r, s') \<Longrightarrow> file_data s' q = file_data s q"
  by (auto simp: os_Mkdir_def Let_def file_data_def split: option.splits if_splits)

lemma MkdirAll_file_data: "os_MkdirAll p s = (r, s') \<Longrightarrow> file_data s' q = file_data s q"
proof (induction p s arbitrary: r s' rule: os_MkdirAll.induct)
  case (1 p s)
  show ?case
  proof (cases "os_Nodes s (resolve s p) = None \<and> length (parentOf p) < length p")
    case False
    then show ?thesis using "1.prems" Mkdir_file_data
      by (cases "os_Nodes s (resolve s p)") (auto simp: os_MkdirAll.simps [of p] split: node.splits)
  next
    case True
    obtain e1 s1 where m: "os_MkdirAll (parentOf p) s = (e1, s1)" by fastforce
    have "file_data s1 q = file_data s q" using "1.IH" True m by blast
    then show ?thesis using "1.prems" True m Mkdir_file_data
      by (cases e1) (auto simp: os_MkdirAll.simps [of p])
  qed
qed

text \<open>
  Making \<open>p\<close>, where \<open>d\<close> exists and the paths \<open>A\<close> lead from \<open>d\<close> down to \<open>p\<close>: nothing but \<open>A\<close>
  changes, and without faults it succeeds unless a file is in the way.
\<close>

definition no_faults :: "os_state \<Rightarrow> bool" where
  "no_faults s \<longleftrightarrow> (\<forall>op p. os_Fault s op p = None)"

lemma no_faults_touches: "touches A s s' \<Longrightarrow> no_faults s' = no_faults s"
  by (simp add: no_faults_def touches_fields)

definition makes :: "string \<Rightarrow> string set \<Rightarrow> string \<Rightarrow> bool" where
  "makes d A p \<longleftrightarrow> (\<forall>s r s'. os_Nodes s d = Some NDir \<longrightarrow> os_MkdirAll p s = (r, s') \<longrightarrow>
     touches A s s' \<and> (no_faults s \<longrightarrow> (\<forall>q \<in> A. file_data s q = None) \<longrightarrow> r = None))"

lemma makes_self: "cleanAbs d \<Longrightarrow> makes d {} d"
  by (simp add: makes_def os_MkdirAll.simps [of d] resolve_abs)

lemma makes_child:
  assumes "makes d A p" "cleanAbs p" "plainName n" "p @ slash # n \<notin> A"
  shows "makes d (insert (p @ slash # n) A) (p @ slash # n)"
  unfolding makes_def
proof (intro allI impI)
  let ?q = "p @ slash # n"
  fix s r s'
  assume d: "os_Nodes s d = Some NDir" and m: "os_MkdirAll ?q s = (r, s')"
  have c: "cleanAbs ?q" by (rule path_Join_child(2) [OF assms(2,3)])
  have par: "parentOf ?q = p" by (rule parentOf_child [OF cleanAbs_nonempty [OF assms(2)] assms(3)])
  note unfold = os_MkdirAll.simps [of ?q] resolve_abs [OF c] par
  show "touches (insert ?q A) s s' \<and>
      (no_faults s \<longrightarrow> (\<forall>q \<in> insert ?q A. file_data s q = None) \<longrightarrow> r = None)"
  proof (cases "os_Nodes s ?q")
    case (Some nd)
    then show ?thesis using m by (cases nd) (simp_all add: unfold file_data_def)
  next
    case None
    obtain e1 s1 where m1: "os_MkdirAll p s = (e1, s1)" by fastforce
    have t: "touches A s s1" and e: "no_faults s \<longrightarrow> (\<forall>q \<in> A. file_data s q = None) \<longrightarrow> e1 = None"
      using assms(1) d m1 unfolding makes_def by blast+
    show ?thesis
    proof (cases e1)
      case None1: None
      then have k: "os_Mkdir ?q s1 = (r, s')" using m None m1 by (simp add: unfold)
      have "r = None" if "no_faults s"
        using k that touches_outside [OF t assms(4)] None MkdirAll_ok [of p s s1] m1 None1
          no_faults_touches [OF t] assms(2)
        by (simp add: os_Mkdir_def Let_def resolve_abs c no_faults_def create_error_def par)
      moreover have "touches (insert ?q A) s1 s'"
        using touches_mono [OF Mkdir_touches [OF k]] by (simp add: resolve_abs [OF c])
      ultimately show ?thesis using touches_trans [OF touches_mono [OF t]] by blast
    next
      case (Some x)
      then have "s' = s1 \<and> r = Some x" using m None m1 by (simp add: unfold)
      then show ?thesis using touches_mono [OF t] e Some by blast
    qed
  qed
qed

section \<open>Progress without faults\<close>

lemma WriteFile_progress:
  assumes "no_faults s" "cleanAbs p" "os_Nodes s (parentOf p) = Some NDir" "os_Nodes s p \<noteq> Some NDir"
  shows "\<exists>s'. os_WriteFile p d mode s = (None, s')"
proof -
  have "\<exists>s1 m. os_OpenTrunc p mode s = (None, s1) \<and> os_Nodes s1 p = Some (NFile [] m) \<and> no_faults s1"
    using assms cleanAbs_nonempty [OF assms(2)]
    by (cases "os_Nodes s p"; cases "the (os_Nodes s p)")
      (auto simp: os_OpenTrunc_def Let_def resolve_abs no_faults_def create_error_def)
  then show ?thesis
    by (auto simp: os_WriteFile_def os_Write_def Let_def resolve_abs [OF assms(2)] no_faults_def)
qed

text \<open>Writing files makes no directory.\<close>

lemma OpenTrunc_no_dir: "os_OpenTrunc p mode s = (e, s') \<Longrightarrow> os_Nodes s' q = Some NDir \<longleftrightarrow> os_Nodes s q = Some NDir"
  by (auto simp: os_OpenTrunc_def Let_def split: if_splits option.splits node.splits)

lemma Write_no_dir: "os_Write p d s = (e, s') \<Longrightarrow> os_Nodes s' q = Some NDir \<longleftrightarrow> os_Nodes s q = Some NDir"
  by (auto simp: os_Write_def Let_def split: if_splits option.splits node.splits)

lemma WriteFile_no_dir: "os_WriteFile p d mode s = (e, s') \<Longrightarrow> os_Nodes s' q = Some NDir \<longleftrightarrow> os_Nodes s q = Some NDir"
  using OpenTrunc_no_dir Write_no_dir
  by (fastforce simp: os_WriteFile_def split: prod.splits option.splits)

lemma put_all_progress:
  assumes "\<forall>p \<in> fst ` set ps. cleanAbs p \<and> os_Nodes s (parentOf p) = Some NDir \<and> os_Nodes s p \<noteq> Some NDir"
    and "no_faults s"
  shows "\<exists>s'. put_all (\<lambda>p d. os_WriteFile p d mode) ps s = (None, s') \<and>
    (\<forall>q. os_Nodes s' q = Some NDir \<longleftrightarrow> os_Nodes s q = Some NDir)"
  using assms
proof (induction ps arbitrary: s)
  case (Cons a ps)
  obtain p d where a: "a = (p, d)" by fastforce
  obtain s1 where w: "os_WriteFile p d mode s = (None, s1)"
    using WriteFile_progress [of s p d mode] Cons.prems a by auto
  note nd = WriteFile_no_dir [OF w]
  have "no_faults s1" using no_faults_touches [OF WriteFile_touches [OF w]] Cons.prems(2) by simp
  then have "\<exists>s'. put_all (\<lambda>p d. os_WriteFile p d mode) ps s1 = (None, s') \<and>
      (\<forall>q. os_Nodes s' q = Some NDir \<longleftrightarrow> os_Nodes s1 q = Some NDir)"
    using Cons.prems(1) nd by (intro Cons.IH) auto
  then show ?case using a w nd by auto
qed simp

end
