(* ===== verification/Go_Embed.thy ===== *)
theory Go_Embed
  imports Go_Path
begin

text \<open>
  Go's \<open>embed.FS\<close> as a tree of named files and directories, opening and reading a file in
  it, and \<open>fs.WalkDir\<close> with a callback that threads a state. At the end stands the tree that
  \<open>internal/packer/embed.go\<close> embeds; the bytes of its data files are the parameter \<open>blob\<close>.
\<close>

section \<open>The tree\<close>

datatype entry =
    EFile string bytes
  | EDir string "entry list"

fun entryName :: "entry \<Rightarrow> string" where
  "entryName (EFile n d) = n"
| "entryName (EDir n es) = n"

fun entryIsDir :: "entry \<Rightarrow> bool" where
  "entryIsDir (EFile n d) = False"
| "entryIsDir (EDir n es) = True"

text \<open>Following the elements of a path below a directory.\<close>

fun embed_walk :: "entry list \<Rightarrow> string list \<Rightarrow> entry option" where
  "embed_walk es [] = Some (EDir ''.'' es)"
| "embed_walk es (n # ns) =
     (case List.find (\<lambda>e. entryName e = n) es of
        None \<Rightarrow> None
      | Some (EFile m d) \<Rightarrow> if ns = [] then Some (EFile m d) else None
      | Some (EDir m sub) \<Rightarrow> if ns = [] then Some (EDir m sub) else embed_walk sub ns)"

definition embed_Open :: "entry list \<Rightarrow> string \<Rightarrow> entry result" where
  "embed_Open fsys name =
     (let missing = Inl (Err (''open '' @ name @ '': file does not exist''))
      in if \<not> fs_ValidPath name then missing
         else if name = ''.'' then Inr (EDir ''.'' fsys)
         else (case embed_walk fsys (splitOn slash name) of None \<Rightarrow> missing | Some e \<Rightarrow> Inr e))"

definition embed_ReadFile :: "entry list \<Rightarrow> string \<Rightarrow> bytes result" where
  "embed_ReadFile fsys name =
     (case embed_Open fsys name of
        Inl err \<Rightarrow> Inl err
      | Inr (EFile n d) \<Rightarrow> Inr d
      | Inr (EDir n es) \<Rightarrow> Inl (Err (''read '' @ name @ '': is a directory'')))"

section \<open>fs.WalkDir\<close>

datatype walk_error = SkipDir | SkipAll | WalkErr go_error

text \<open>The callback: path, entry (absent when the root cannot be opened), error, state.\<close>

type_synonym 's walk_fn = "string \<Rightarrow> entry option \<Rightarrow> go_error option \<Rightarrow> 's \<Rightarrow> walk_error option \<times> 's"

fun walkDir :: "'s walk_fn \<Rightarrow> string \<Rightarrow> entry \<Rightarrow> 's \<Rightarrow> walk_error option \<times> 's"
  and walkEntries :: "'s walk_fn \<Rightarrow> string \<Rightarrow> entry list \<Rightarrow> 's \<Rightarrow> walk_error option \<times> 's"
where
  "walkDir fn name (EFile n d) s = fn name (Some (EFile n d)) None s"
| "walkDir fn name (EDir n es) s =
     (case fn name (Some (EDir n es)) None s of
        (None, s') \<Rightarrow> walkEntries fn name es s'
      | (Some SkipDir, s') \<Rightarrow> (None, s')
      | (Some err, s') \<Rightarrow> (Some err, s'))"
| "walkEntries fn name [] s = (None, s)"
| "walkEntries fn name (e # es) s =
     (case walkDir fn (path_Join [name, entryName e]) e s of
        (None, s') \<Rightarrow> walkEntries fn name es s'
      | (Some SkipDir, s') \<Rightarrow> (None, s')
      | (Some err, s') \<Rightarrow> (Some err, s'))"

definition fs_WalkDir :: "entry list \<Rightarrow> string \<Rightarrow> 's walk_fn \<Rightarrow> 's \<Rightarrow> go_error option \<times> 's" where
  "fs_WalkDir fsys root fn s =
     (case (case embed_Open fsys root of
              Inl err \<Rightarrow> fn root None (Some err) s
            | Inr e \<Rightarrow> walkDir fn root e s) of
        (Some (WalkErr err), s') \<Rightarrow> (Some err, s')
      | (_, s') \<Rightarrow> (None, s'))"

section \<open>Looking up what a directory lists\<close>

lemma find_entry_distinct:
  "distinct (map entryName es) \<Longrightarrow> e \<in> set es \<Longrightarrow> List.find (\<lambda>x. entryName x = entryName e) es = Some e"
  by (induction es) (auto simp: image_iff)

lemma embed_walk_append:
  "embed_walk fsys ns = Some (EDir m es) \<Longrightarrow> ns \<noteq> [] \<Longrightarrow>
     embed_walk fsys (ns @ ms) = (if ms = [] then Some (EDir m es) else embed_walk es ms)"
proof (induction fsys ns rule: embed_walk.induct)
  case (1 es)
  then show ?case by simp
next
  case (2 fs n ns)
  then show ?case
    by (auto split: option.splits entry.splits if_splits)
qed

text \<open>A file listed by the directory at \<open>root\<close> is read back by its full path.\<close>

lemma embed_ReadFile_child:
  assumes "embed_Open fsys root = Inr (EDir m es)" "root \<noteq> ''.''"
    and "EFile n d \<in> set es" "distinct (map entryName es)" "plainName n"
  shows "embed_ReadFile fsys (root @ slash # n) = Inr d"
proof -
  let ?ns = "splitOn slash root"
  from assms(1,2) have v: "\<forall>e \<in> set ?ns. e \<noteq> [] \<and> e \<noteq> ''.'' \<and> e \<noteq> ''..''"
    and w: "embed_walk fsys ?ns = Some (EDir m es)"
    by (auto simp: embed_Open_def fs_ValidPath_def Let_def split: if_splits option.splits)
  have n: "slash \<notin> set n" using assms(5) by (simp add: plainName_def)
  have "root @ slash # n = joinWith [slash] (?ns @ [n])"
    by (simp add: joinWith_snoc joinWith_splitOn)
  moreover have "splitOn slash (joinWith [slash] (?ns @ [n])) = ?ns @ [n]"
    by (rule splitOn_joinWith) (auto simp: n dest: splitOn_parts)
  ultimately have s: "splitOn slash (root @ slash # n) = ?ns @ [n]" by simp
  have "fs_ValidPath (root @ slash # n)"
    using v assms(5) by (auto simp: fs_ValidPath_def s plainName_def)
  moreover have "root @ slash # n \<noteq> ''.''"
    by (cases root) auto
  moreover have "embed_walk fsys (?ns @ [n]) = Some (EFile n d)"
    using embed_walk_append [OF w] find_entry_distinct [OF assms(4,3)] by simp
  ultimately show ?thesis
    by (simp add: embed_ReadFile_def embed_Open_def s)
qed

section \<open>The embedded templates\<close>

definition TemplateFs :: "(string \<Rightarrow> bytes) \<Rightarrow> entry list" where
  "TemplateFs blob =
    [EDir ''templates'' [
       EFile ''base.pkr.hcl'' (blob ''templates/base.pkr.hcl''),
       EDir ''ubuntu'' [
         EDir ''22.04'' [
           EFile ''99-pve.cfg'' (blob ''templates/ubuntu/22.04/99-pve.cfg''),
           EFile ''build.pkr.hcl'' (blob ''templates/ubuntu/22.04/build.pkr.hcl''),
           EFile ''meta-data'' (blob ''templates/ubuntu/22.04/meta-data''),
           EFile ''user-data'' (blob ''templates/ubuntu/22.04/user-data'')],
         EDir ''24.04'' [
           EFile ''99-pve.cfg'' (blob ''templates/ubuntu/24.04/99-pve.cfg''),
           EFile ''build.pkr.hcl'' (blob ''templates/ubuntu/24.04/build.pkr.hcl''),
           EFile ''meta-data'' (blob ''templates/ubuntu/24.04/meta-data''),
           EFile ''user-data'' (blob ''templates/ubuntu/24.04/user-data'')]]]]"

end
