(* ===== verification/Go_Quote.thy ===== *)
theory Go_Quote
  imports Go_Text
begin

text \<open>
  Go's \<open>strconv.Quote\<close> on byte strings, with a reader of the syntax it writes. The Unicode
  tables behind \<open>strconv.IsPrint\<close> above Latin-1 are the parameter \<open>up\<close>. The lemmas show
  that a quoted string reads back to the bytes it was made from, whatever they are (invalid
  UTF-8 included), and that it holds no control character, so no line break.
\<close>

section \<open>strconv.Quote\<close>

definition isPrint :: "(nat \<Rightarrow> bool) \<Rightarrow> nat \<Rightarrow> bool" where
  "isPrint up r = (if r \<le> 0xFF then 0x20 \<le> r \<and> r < 0x7F \<or> 0xA1 \<le> r \<and> r \<noteq> 0xAD else up r)"

definition validRune :: "nat \<Rightarrow> bool" where
  "validRune r \<longleftrightarrow> r < 0xD800 \<or> 0xDFFF < r \<and> r \<le> 0x10FFFF"

abbreviation bslash :: char where
  "bslash \<equiv> CHR 0x5C"

abbreviation dquote :: char where
  "dquote \<equiv> CHR 0x22"

definition escapedRune :: "(nat \<Rightarrow> bool) \<Rightarrow> nat \<Rightarrow> string" where
  "escapedRune up r =
     (if r = 0x22 \<or> r = 0x5C then [bslash, chr r]
      else if isPrint up r then appendRune r
      else if r = 7 then [bslash, CHR ''a'']
      else if r = 8 then [bslash, CHR ''b'']
      else if r = 12 then [bslash, CHR ''f'']
      else if r = 10 then [bslash, CHR ''n'']
      else if r = 13 then [bslash, CHR ''r'']
      else if r = 9 then [bslash, CHR ''t'']
      else if r = 11 then [bslash, CHR ''v'']
      else if r < 0x20 \<or> r = 0x7F then [bslash, CHR ''x''] @ hexN 2 r
      else if \<not> validRune r then [bslash, CHR ''u''] @ hexN 4 RuneError
      else if r < 0x10000 then [bslash, CHR ''u''] @ hexN 4 r
      else [bslash, CHR ''U''] @ hexN 8 r)"

function quoteBody :: "(nat \<Rightarrow> bool) \<Rightarrow> string \<Rightarrow> string" where
  "quoteBody up [] = []"
| "quoteBody up (c # cs) =
     (case decodeRune (c # cs) of (r, w) \<Rightarrow>
       (if w = 1 \<and> r = RuneError then [bslash, CHR ''x''] @ hexN 2 (byte c)
        else escapedRune up r)
       @ quoteBody up (drop (w - 1) cs))"
  by pat_completeness auto
termination
  by (relation "measure (\<lambda>(up, s). length s)") auto

definition quote :: "(nat \<Rightarrow> bool) \<Rightarrow> string \<Rightarrow> string" where
  "quote up s = [dquote] @ quoteBody up s @ [dquote]"

section \<open>A reader of the quoted syntax\<close>

definition readEscape :: "string \<Rightarrow> (string \<times> string) option" where
  "readEscape s = (case s of [] \<Rightarrow> None | e # cs \<Rightarrow>
     if e = bslash \<or> e = dquote then Some ([e], cs)
     else if e = CHR ''a'' then Some ([chr 7], cs)
     else if e = CHR ''b'' then Some ([chr 8], cs)
     else if e = CHR ''f'' then Some ([chr 12], cs)
     else if e = CHR ''n'' then Some ([chr 10], cs)
     else if e = CHR ''r'' then Some ([chr 13], cs)
     else if e = CHR ''t'' then Some ([chr 9], cs)
     else if e = CHR ''v'' then Some ([chr 11], cs)
     else if e = CHR ''x'' then map_option (\<lambda>(n, t). ([chr n], t)) (readHex 2 0 cs)
     else if e = CHR ''u'' then map_option (\<lambda>(n, t). (appendRune n, t)) (readHex 4 0 cs)
     else if e = CHR ''U'' then map_option (\<lambda>(n, t). (appendRune n, t)) (readHex 8 0 cs)
     else None)"

definition consBytes :: "string \<Rightarrow> (string \<times> 'b) option \<Rightarrow> (string \<times> 'b) option" where
  "consBytes p x = map_option (\<lambda>(a, t). (p @ a, t)) x"

lemma readEscape_length: "readEscape s = Some (p, t) \<Longrightarrow> length t < length s"
  by (auto simp: readEscape_def dest!: readHex_length split: list.splits if_splits)

text \<open>The text of a quoted string after its opening quote: the bytes it stands for, and the rest.\<close>

function unquoteBody :: "string \<Rightarrow> (string \<times> string) option" where
  "unquoteBody [] = None"
| "unquoteBody (c # cs) =
     (if c = dquote then Some ([], cs)
      else if byte c = 10 then None
      else if c = bslash then
        (case readEscape cs of None \<Rightarrow> None | Some (p, t) \<Rightarrow> consBytes p (unquoteBody t))
      else consBytes [c] (unquoteBody cs))"
  by pat_completeness auto
termination
  by (relation "measure length") (auto dest: readEscape_length)

lemma consBytes_simps [simp]:
  "consBytes p None = None" "consBytes p (Some (a, t)) = Some (p @ a, t)"
  "consBytes [] x = x" "consBytes p (consBytes q x) = consBytes (p @ q) x"
  by (auto simp: consBytes_def option.map_comp comp_def case_prod_beta option.map_id0 intro: option.map_cong)

lemma unquote_plain:
  "\<forall>c \<in> set p. c \<noteq> dquote \<and> byte c \<noteq> 10 \<and> c \<noteq> bslash \<Longrightarrow>
     unquoteBody (p @ t) = consBytes p (unquoteBody t)"
  by (induction p) simp_all

lemma unquote_escape:
  "readEscape (e @ t) = Some (p, t) \<Longrightarrow> unquoteBody (bslash # e @ t) = consBytes p (unquoteBody t)"
  by simp

section \<open>Reading back what Quote wrote\<close>

lemma unquote_hex2: "r < 256 \<Longrightarrow>
    unquoteBody (bslash # CHR ''x'' # hexN 2 r @ t) = consBytes [chr r] (unquoteBody t)"
  by (simp add: readEscape_def readHex_hexN)

lemma unquote_hex4: "r < 16 ^ 4 \<Longrightarrow>
    unquoteBody (bslash # CHR ''u'' # hexN 4 r @ t) = consBytes (appendRune r) (unquoteBody t)"
  by (simp add: readEscape_def readHex_hexN)

lemma unquote_hex8: "r < 16 ^ 8 \<Longrightarrow>
    unquoteBody (bslash # CHR ''U'' # hexN 8 r @ t) = consBytes (appendRune r) (unquoteBody t)"
  by (simp add: readEscape_def readHex_hexN)

lemma appendRune_ascii: "r < 0x80 \<Longrightarrow> appendRune r = [chr r]"
  by (simp add: appendRune_def)

lemma appendRune_invalid: "\<not> validRune r \<Longrightarrow> appendRune r = appendRune RuneError"
  by (auto simp: validRune_def appendRune_def)

lemma isPrint_ge_space: "isPrint up r \<Longrightarrow> 0x20 \<le> r \<and> r \<noteq> 0x7F"
  by (auto simp: isPrint_def split: if_splits)

lemma appendRune_plain:
  assumes "isPrint up r" "r \<noteq> 0x22" "r \<noteq> 0x5C" "c \<in> set (appendRune r)"
  shows "c \<noteq> dquote \<and> c \<noteq> bslash \<and> 0x20 \<le> byte c \<and> byte c \<noteq> 0x7F"
proof (cases "r < 0x80")
  case True
  have "c \<in> set [chr r]" using assms(4) unfolding appendRune_ascii [OF True] .
  then have "c = chr r" by simp
  moreover have "r < 256" using True by simp
  ultimately have "byte c = r" by (simp only: byte_chr)
  moreover have "0x20 \<le> r" "r \<noteq> 0x7F" using isPrint_ge_space [OF assms(1)] by simp_all
  ultimately show ?thesis using assms(2,3) by auto
next
  case False
  then have "0x80 \<le> byte c" using appendRune_high [of r c] assms(4) by simp
  then show ?thesis by auto
qed

lemma unquote_escapedRune:
  "unquoteBody (escapedRune up r @ t) = consBytes (appendRune r) (unquoteBody t)"
proof -
  consider (special) "r = 0x22 \<or> r = 0x5C"
    | (print) "r \<noteq> 0x22" "r \<noteq> 0x5C" "isPrint up r"
    | (letter) "\<not> isPrint up r" "r \<in> {7, 8, 9, 10, 11, 12, 13}"
    | (control) "\<not> isPrint up r" "r \<notin> {7, 8, 9, 10, 11, 12, 13}" "r < 0x20 \<or> r = 0x7F"
    | (rune) "r \<noteq> 0x22" "r \<noteq> 0x5C" "\<not> isPrint up r" "\<not> r < 0x20" "r \<noteq> 0x7F"
    by blast
  then show ?thesis
  proof cases
    case special
    then show ?thesis by (auto simp: escapedRune_def readEscape_def appendRune_def)
  next
    case print
    then have "escapedRune up r = appendRune r" by (simp add: escapedRune_def)
    moreover have "unquoteBody (appendRune r @ t) = consBytes (appendRune r) (unquoteBody t)"
      by (rule unquote_plain) (use appendRune_plain print in fastforce)
    ultimately show ?thesis by simp
  next
    case letter
    from letter(2) show ?thesis
      by (elim insertE emptyE) (use letter(1) in \<open>simp_all add: escapedRune_def readEscape_def appendRune_ascii\<close>)
  next
    case control
    then have "escapedRune up r = [bslash, CHR ''x''] @ hexN 2 r" "r < 0x80"
      by (auto simp: escapedRune_def)
    then show ?thesis using unquote_hex2 [of r t] by (simp add: appendRune_ascii)
  next
    case rune
    show ?thesis
    proof (cases "validRune r")
      case False
      with rune have "escapedRune up r = [bslash, CHR ''u''] @ hexN 4 RuneError"
        by (auto simp: escapedRune_def)
      then show ?thesis
        using unquote_hex4 [of RuneError t] False by (simp add: appendRune_invalid)
    next
      case True
      then have r: "r \<le> 0x10FFFF" by (auto simp: validRune_def)
      show ?thesis
      proof (cases "r < 0x10000")
        case True
        with rune \<open>validRune r\<close> have "escapedRune up r = [bslash, CHR ''u''] @ hexN 4 r"
          by (auto simp: escapedRune_def)
        then show ?thesis using unquote_hex4 [of r t] True by simp
      next
        case False
        with rune \<open>validRune r\<close> have "escapedRune up r = [bslash, CHR ''U''] @ hexN 8 r"
          by (auto simp: escapedRune_def)
        then show ?thesis using unquote_hex8 [of r t] r by simp
      qed
    qed
  qed
qed

lemma unquote_quoteBody:
  "unquoteBody (quoteBody up s @ t) = consBytes s (unquoteBody t)"
proof (induction up s rule: quoteBody.induct)
  case (1 up)
  then show ?case by simp
next
  case (2 up c cs)
  obtain r w where d: "decodeRune (c # cs) = (r, w)" by fastforce
  with decodeRune_width_pos [of c cs] decodeRune_width_le [of "c # cs"]
  have w: "0 < w" "w \<le> Suc (length cs)" by auto
  have IH: "unquoteBody (quoteBody up (drop (w - 1) cs) @ t)
      = consBytes (drop (w - 1) cs) (unquoteBody t)"
    using "2.IH" [OF d [symmetric]] by simp
  show ?case
  proof (cases "w = 1 \<and> r = RuneError")
    case True
    with d IH unquote_hex2 [of "byte c"] show ?thesis by simp
  next
    case False
    with decode_encode [OF d] have "appendRune r = take w (c # cs)" by simp
    then have "appendRune r @ drop (w - 1) cs = c # cs"
      using w by (cases w) simp_all
    moreover have "quoteBody up (c # cs) = escapedRune up r @ quoteBody up (drop (w - 1) cs)"
      using d False by auto
    ultimately show ?thesis using IH by (simp add: unquote_escapedRune del: quoteBody.simps)
  qed
qed

lemma unquote_quote: "unquoteBody (tl (quote up s) @ t) = Some (s, t)"
proof -
  have "tl (quote up s) @ t = quoteBody up s @ dquote # t" by (simp add: quote_def)
  then show ?thesis by (simp only: unquote_quoteBody) simp
qed

lemma quote_inj: "quote up a = quote up b \<Longrightarrow> a = b"
  using unquote_quote [of up a "[]"] unquote_quote [of up b "[]"] by simp

section \<open>No control characters\<close>

lemma escapedRune_no_control: "c \<in> set (escapedRune up r) \<Longrightarrow> 0x20 \<le> byte c \<and> byte c \<noteq> 0x7F"
proof (cases "isPrint up r \<and> r \<noteq> 0x22 \<and> r \<noteq> 0x5C")
  case True
  moreover assume "c \<in> set (escapedRune up r)"
  ultimately show ?thesis using appendRune_plain [of up r c] by (simp add: escapedRune_def)
next
  case False
  moreover assume "c \<in> set (escapedRune up r)"
  ultimately show ?thesis
    by (auto simp: escapedRune_def byte_chr dest: hexN_range split: if_splits)
qed

lemma quoteBody_no_control: "c \<in> set (quoteBody up s) \<Longrightarrow> 0x20 \<le> byte c \<and> byte c \<noteq> 0x7F"
proof (induction up s rule: quoteBody.induct)
  case (1 up)
  then show ?case by simp
next
  case (2 up a cs)
  obtain r w where d: "decodeRune (a # cs) = (r, w)" by fastforce
  from 2(2) d have "c \<in> set ([bslash, CHR ''x''] @ hexN 2 (byte a)) \<or> c \<in> set (escapedRune up r)
      \<or> c \<in> set (quoteBody up (drop (w - 1) cs))"
    by (auto split: if_splits)
  then show ?case
    using "2.IH" [OF d [symmetric]] escapedRune_no_control [of c up r] hexN_range [of c 2 "byte a"]
    by auto
qed

lemma quote_no_control: "c \<in> set (quote up s) \<Longrightarrow> 0x20 \<le> byte c \<and> byte c \<noteq> 0x7F"
  by (auto simp: quote_def dest: quoteBody_no_control)

end
