(* ===== verification/Packer_Cli.thy ===== *)
theory Packer_Cli
  imports Go_Os Go_Embed Go_Quote Go_Sha256
begin

text \<open>
  \<open>internal/packer/pcli\<close>: unpacking the embedded Packer binary, its Proxmox plugin and the
  templates into a temporary directory and running Packer there. The embedded binaries, which
  are not part of the repository, are a tree \<open>bins\<close>; running a command is the parameter \<open>run\<close>
  (path, arguments, directory, environment, state); the random names of temporary directories
  are \<open>rnd\<close>; \<open>up\<close> is the table of printable runes behind \<open>strconv.Quote\<close>.
\<close>

section \<open>Constants of the build\<close>

definition embeddedRootDir :: string where
  "embeddedRootDir = ''templates''"

record platform =
  pf_GOOS :: string
  pf_GOARCH :: string
  packerName :: string
  pluginName :: string
  pluginVersion :: string

text \<open>\<open>embed_linux.go\<close> is built for every architecture, \<open>embed_darwin_arm64.go\<close> for one.\<close>

definition platform_linux :: "string \<Rightarrow> platform" where
  "platform_linux arch = \<lparr>pf_GOOS = ''linux'', pf_GOARCH = arch, packerName = ''packer_linux_amd64'',
     pluginName = ''packer-plugin-proxmox_linux_amd64'', pluginVersion = ''unknown''\<rparr>"

definition platform_darwin_arm64 :: platform where
  "platform_darwin_arm64 = \<lparr>pf_GOOS = ''darwin'', pf_GOARCH = ''arm64'', packerName = ''packer_darwin_arm64'',
     pluginName = ''packer-plugin-proxmox_darwin_arm64'', pluginVersion = ''unknown''\<rparr>"

definition packerBinaries :: "platform \<Rightarrow> bytes \<Rightarrow> bytes \<Rightarrow> entry list" where
  "packerBinaries pf plugin core = [EDir ''bin'' [EFile (pluginName pf) plugin, EFile (packerName pf) core]]"

section \<open>Steps\<close>

text \<open>\<open>if err := step; err != nil { return wrap(err) }\<close>, then the rest.\<close>

definition if_ok ::
    "go_error option \<times> 's \<Rightarrow> (go_error \<Rightarrow> go_error) \<Rightarrow> ('s \<Rightarrow> go_error option \<times> 's) \<Rightarrow> go_error option \<times> 's" where
  "if_ok step wrap rest = (case step of (Some err, s) \<Rightarrow> (Some (wrap err), s) | (None, s) \<Rightarrow> rest s)"

definition extractFile :: "entry list \<Rightarrow> string \<Rightarrow> string \<Rightarrow> os_state \<Rightarrow> go_error option \<times> os_state" where
  "extractFile bins targetPath embedPath s =
     (case embed_ReadFile bins embedPath of
        Inl err \<Rightarrow> (Some (Wrap (''failed to read embedded file '' @ embedPath) err), s)
      | Inr data \<Rightarrow> os_WriteFile targetPath data 0x1ED s)"

definition extractDir_visit :: "entry list \<Rightarrow> string \<Rightarrow> string \<Rightarrow> os_state walk_fn" where
  "extractDir_visit fsys srcDir destDir embeddedPath d err s =
     (case err of
        Some e \<Rightarrow> (Some (WalkErr e), s)
      | None \<Rightarrow>
          if (case d of Some e \<Rightarrow> entryIsDir e | None \<Rightarrow> False) then
            (if embeddedPath = srcDir then (None, s) else (Some SkipDir, s))
          else
            (let basePath = path_Base embeddedPath;
                 target = filepath_Join [destDir, filepath_FromSlash basePath]
             in case embed_ReadFile fsys embeddedPath of
                  Inl e \<Rightarrow> (Some (WalkErr (Wrap (''read embedded '' @ embeddedPath) e)), s)
                | Inr data \<Rightarrow>
                    (case os_WriteFile target data 0x1A4 s of (e, s') \<Rightarrow> (map_option WalkErr e, s'))))"

definition extractDir :: "entry list \<Rightarrow> string \<Rightarrow> string \<Rightarrow> os_state \<Rightarrow> go_error option \<times> os_state" where
  "extractDir fsys srcDir destDir s = fs_WalkDir fsys srcDir (extractDir_visit fsys srcDir destDir) s"

definition writePluginChecksum :: "string \<Rightarrow> os_state \<Rightarrow> go_error option \<times> os_state" where
  "writePluginChecksum pluginPath s =
     (case os_ReadFile pluginPath s of
        Inl err \<Rightarrow> (Some err, s)
      | Inr data \<Rightarrow>
          (let sum = sha256_Sum256 data; hexsum = hex_EncodeToString sum
           in os_WriteFile (pluginPath @ ''_SHA256SUM'') hexsum 0x1A4 s))"

text \<open>
  \<open>copyFile\<close>: the source is opened before the destination is emptied, and read afterwards; an
  empty source leads to no write at all.
\<close>

definition copyFile :: "string \<Rightarrow> string \<Rightarrow> nat \<Rightarrow> os_state \<Rightarrow> go_error option \<times> os_state" where
  "copyFile src dst mode s =
     (case os_Open src s of
        Some err \<Rightarrow> (Some err, s)
      | None \<Rightarrow>
          if_ok (os_OpenTrunc dst mode s) id (\<lambda>s.
            case os_Read src s of
              Inl err \<Rightarrow> (Some err, s)
            | Inr data \<Rightarrow> if data = [] then (None, s) else os_Write dst data s))"

section \<open>RunPacker\<close>

type_synonym command = "string \<Rightarrow> string list \<Rightarrow> string \<Rightarrow> string list \<Rightarrow> os_state \<Rightarrow> go_error option \<times> os_state"

definition RunPacker ::
    "(nat \<Rightarrow> bool) \<Rightarrow> platform \<Rightarrow> entry list \<Rightarrow> entry list \<Rightarrow> (nat \<Rightarrow> string) \<Rightarrow> command
       \<Rightarrow> string \<Rightarrow> string \<Rightarrow> string \<Rightarrow> os_state \<Rightarrow> go_error option \<times> os_state" where
  "RunPacker up pf bins fsys rnd run templateName userVarFile osVersion s =
     (let s = snd (print_stdout (''Running Packer with template: '' @ templateName @ [CHR 0x0A]) s);
          s = snd (print_stdout (''Plese note that this can take a while as packer is configured to install all the available updates before creating the VM Template'' @ [CHR 0x0A]) s)
      in case os_MkdirTemp rnd ''pve-packer-'' s of
           (Inl err, s) \<Rightarrow> (Some (Wrap ''failed to create temp dir'' err), s)
         | (Inr tmpDir, s) \<Rightarrow>
           (let corePath = filepath_Join [tmpDir, ''packer''] in
            if_ok (extractFile bins corePath (''bin/'' @ packerName pf) s) id (\<lambda>s.
            let pluginRoot = filepath_Join [tmpDir, ''plugins''];
                pluginNSDir = filepath_Join [pluginRoot, ''github.com'', ''hashicorp'', ''proxmox''] in
            if_ok (os_MkdirAll pluginNSDir s) (Wrap ''failed to create plugin dir'') (\<lambda>s.
            let pluginFilename = ''packer-plugin-proxmox_v'' @ pluginVersion pf @ ''_x5.0_'' @ pf_GOOS pf @ ''_'' @ pf_GOARCH pf;
                pluginPath = filepath_Join [pluginNSDir, pluginFilename] in
            if_ok (extractFile bins pluginPath (''bin/'' @ pluginName pf) s) id (\<lambda>s.
            if_ok (writePluginChecksum pluginPath s) (Wrap ''write plugin checksum'') (\<lambda>s.
            let embeddedTemplateDir = templateName @ ''/'' @ osVersion;
                srcDir = path_Join [embeddedRootDir, embeddedTemplateDir] in
            if_ok (extractDir fsys srcDir tmpDir s)
                (Wrap (''failed to extract template '' @ quote up embeddedTemplateDir)) (\<lambda>s.
            if_ok (extractDir fsys embeddedRootDir tmpDir s)
                (Wrap (''failed to extract template shared files '' @ quote up embeddedRootDir)) (\<lambda>s.
            let dst = filepath_Join [tmpDir, ''user.auto.pkrvars.hcl''] in
            if_ok (copyFile userVarFile dst 0x180 s) (Wrap ''copy user config'') (\<lambda>s.
            run corePath [''build'', ''-force'', ''.''] tmpDir
              (os_Environ s @ [''PACKER_PLUGIN_PATH='' @ pluginRoot]) s)))))))))"

section \<open>What the steps touch\<close>

lemma if_ok_None: "step = (None, s) \<Longrightarrow> if_ok step wrap rest = rest s"
  by (simp add: if_ok_def)

lemma if_ok_cases:
  assumes "if_ok step wrap rest = (e, s')"
  obtains (error) err where "step = (Some err, s')" "e = Some (wrap err)"
  | (ok) s1 where "step = (None, s1)" "rest s1 = (e, s')"
  using assms by (auto simp: if_ok_def split: prod.splits option.splits)

lemma extractFile_touches: "extractFile bins p e s = (r, s') \<Longrightarrow> cleanAbs p \<Longrightarrow> touches {p} s s'"
  using WriteFile_touches [of p _ _ s r s'] by (auto simp: extractFile_def resolve_abs split: sum.splits)

lemma extractFile_ok:
  "extractFile bins p e s = (None, s') \<Longrightarrow> cleanAbs p \<Longrightarrow>
     \<exists>d. embed_ReadFile bins e = Inr d \<and> file_data s' p = Some d"
  using os_files.put_get [of p _ _ s s'] by (auto simp: extractFile_def split: sum.splits)

lemma cleanAbs_suffix:
  assumes "cleanAbs d" "plainName n" "plainName (n @ suf)"
  shows "cleanAbs ((d @ slash # n) @ suf)"
  using path_Join_child(2) [OF assms(1,3)] by simp

lemma writePluginChecksum_touches:
  "writePluginChecksum p s = (r, s') \<Longrightarrow> cleanAbs (p @ ''_SHA256SUM'') \<Longrightarrow> touches {p @ ''_SHA256SUM''} s s'"
  using WriteFile_touches [of "p @ ''_SHA256SUM''" _ _ s r s']
  by (auto simp: writePluginChecksum_def Let_def resolve_abs split: sum.splits)

text \<open>The companion file holds the hexadecimal sum of the plugin as it is on disk.\<close>

lemma writePluginChecksum_ok:
  assumes "writePluginChecksum p s = (None, s')" "cleanAbs p" "cleanAbs (p @ ''_SHA256SUM'')"
  shows "\<exists>d. file_data s p = Some d \<and> file_data s' p = Some d \<and>
     file_data s' (p @ ''_SHA256SUM'') = Some (hex_EncodeToString (sha256_Sum256 d))"
proof -
  obtain d where d: "os_ReadFile p s = Inr d"
    and w: "os_WriteFile (p @ ''_SHA256SUM'') (hex_EncodeToString (sha256_Sum256 d)) 0x1A4 s = (None, s')"
    using assms(1) by (auto simp: writePluginChecksum_def Let_def split: sum.splits)
  have "file_data s p = Some d"
    using d assms(2) by (auto simp: os_ReadFile_def os_Read_def file_data_def resolve_abs
        split: option.splits node.splits)
  then show ?thesis
    using os_files.put_get [OF assms(3) w] os_files.put_frame [OF assms(3,2) _ w] by auto
qed

lemma copyFile_touches: "copyFile src dst mode s = (r, s') \<Longrightarrow> touches {resolve s dst} s s'"
proof -
  assume c: "copyFile src dst mode s = (r, s')"
  show ?thesis
  proof (cases "os_Open src s")
    case None
    then have "if_ok (os_OpenTrunc dst mode s) id (\<lambda>s. case os_Read src s of
              Inl err \<Rightarrow> (Some err, s)
            | Inr data \<Rightarrow> if data = [] then (None, s) else os_Write dst data s) = (r, s')"
      using c by (simp add: copyFile_def)
    then show ?thesis
    proof (cases rule: if_ok_cases)
      case (error err)
      then show ?thesis by (simp add: OpenTrunc_touches)
    next
      case (ok s1)
      note t = OpenTrunc_touches [OF ok(1)]
      have "touches {resolve s1 dst} s1 s'"
        using ok(2) by (auto intro: Write_touches split: sum.splits if_splits)
      then show ?thesis using touches_trans [OF t] touches_fields(8) [OF t] by simp
    qed
  qed (use c in \<open>auto simp: copyFile_def\<close>)
qed

lemma copyFile_ok:
  assumes "copyFile src dst mode s = (None, s')"
  shows "file_data s' (resolve s dst) =
    (if resolve s src = resolve s dst then Some [] else file_data s (resolve s src))"
    and "resolve s src \<noteq> resolve s dst \<Longrightarrow> file_data s (resolve s src) \<noteq> None"
proof -
  have o: "os_Open src s = None"
    and c: "if_ok (os_OpenTrunc dst mode s) id (\<lambda>s. case os_Read src s of
              Inl err \<Rightarrow> (Some err, s)
            | Inr data \<Rightarrow> if data = [] then (None, s) else os_Write dst data s) = (None, s')"
    using assms by (simp_all add: copyFile_def split: option.splits)
  obtain s1 where s1: "os_OpenTrunc dst mode s = (None, s1)"
    and r: "(case os_Read src s1 of Inl err \<Rightarrow> (Some err, s1)
            | Inr data \<Rightarrow> if data = [] then (None, s1) else os_Write dst data s1) = (None, s')"
    using c by (cases rule: if_ok_cases) auto
  note t = OpenTrunc_touches [OF s1]
  have e: "\<exists>m. os_Nodes s1 (resolve s dst) = Some (NFile [] m)"
    using s1 by (auto simp: os_OpenTrunc_def Let_def split: if_splits option.splits node.splits)
  obtain data where d: "os_Read src s1 = Inr data"
    and w: "(if data = [] then (None, s1) else os_Write dst data s1) = (None, s')"
    using r by (auto split: sum.splits)
  have fd: "file_data s1 (resolve s src) = Some data"
    using d touches_fields(8) [OF t]
    by (auto simp: os_Read_def file_data_def split: option.splits node.splits)
  have dst: "file_data s' (resolve s dst) = Some data"
  proof (cases "data = []")
    case True
    then show ?thesis using w e by (auto simp: file_data_def)
  next
    case False
    then show ?thesis using w e touches_fields(8) [OF t]
      by (auto simp: os_Write_def Let_def file_data_def split: option.splits node.splits)
  qed
  have src: "resolve s src \<noteq> resolve s dst \<Longrightarrow> file_data s (resolve s src) = Some data"
    using fd touches_outside [OF t, of "resolve s src"] by (simp add: file_data_def)
  have "resolve s src = resolve s dst \<Longrightarrow> data = []"
    using fd e by (auto simp: file_data_def)
  then show "file_data s' (resolve s dst) =
      (if resolve s src = resolve s dst then Some [] else file_data s (resolve s src))"
    using dst src by auto
  show "resolve s src \<noteq> resolve s dst \<Longrightarrow> file_data s (resolve s src) \<noteq> None"
    using src by simp
qed

end
