(* ===== verification/Packer_Run.thy ===== *)
theory Packer_Run
  imports Packer_Cli
begin

text \<open>
  What extracting a template directory writes, and what \<open>RunPacker\<close> has laid out by the time it
  starts Packer.
\<close>

section \<open>Extracting a directory\<close>

text \<open>The regular files that a directory lists, without those of its subdirectories.\<close>

fun direct_files :: "entry list \<Rightarrow> (string \<times> bytes) list" where
  "direct_files [] = []"
| "direct_files (EFile n d # es) = (n, d) # direct_files es"
| "direct_files (EDir n sub # es) = direct_files es"

lemma direct_files_iff: "(n, d) \<in> set (direct_files es) \<longleftrightarrow> EFile n d \<in> set es"
  by (induction es rule: direct_files.induct) auto

lemma direct_files_names: "distinct (map entryName es) \<Longrightarrow> distinct (map fst (direct_files es))"
proof (induction es rule: direct_files.induct)
  case (2 n d es)
  then have "n \<notin> fst ` set (direct_files es)" by (force simp: direct_files_iff)
  with 2 show ?case by simp
qed auto

definition targets :: "string \<Rightarrow> entry list \<Rightarrow> (string \<times> bytes) list" where
  "targets dest es = map (\<lambda>(n, d). (dest @ slash # n, d)) (direct_files es)"

lemma targets_simps [simp]:
  "targets dest [] = []"
  "targets dest (EFile n d # es) = (dest @ slash # n, d) # targets dest es"
  "targets dest (EDir n sub # es) = targets dest es"
  by (simp_all add: targets_def)

lemma targets_below: "fst ` set (targets dest es) \<subseteq> below dest"
  by (auto simp: targets_def)

lemma targets_clean:
  "cleanAbs dest \<Longrightarrow> \<forall>e \<in> set es. plainName (entryName e) \<Longrightarrow> \<forall>p \<in> fst ` set (targets dest es). cleanAbs p"
  by (force simp: targets_def direct_files_iff intro: path_Join_child(2))

lemma targets_distinct: "distinct (map entryName es) \<Longrightarrow> distinct (map fst (targets dest es))"
  using direct_files_names [of es]
  by (auto simp: targets_def distinct_map inj_on_def comp_def case_prod_beta)

abbreviation writeTemplate :: "string \<Rightarrow> bytes \<Rightarrow> os_state \<Rightarrow> go_error option \<times> os_state" where
  "writeTemplate \<equiv> (\<lambda>p d. os_WriteFile p d 0x1A4)"

lemma walkEntries_flat:
  assumes root: "embed_Open fsys src = Inr (EDir m all)" "src \<noteq> ''.''" "distinct (map entryName all)"
    and dest: "cleanAbs dest" and names: "\<forall>e \<in> set all. plainName (entryName e)"
  shows "set es \<subseteq> set all \<Longrightarrow>
    walkEntries (extractDir_visit fsys src dest) src es s =
      (case put_all writeTemplate (targets dest es) s of (e, s') \<Rightarrow> (map_option WalkErr e, s'))"
proof (induction es arbitrary: s)
  case Nil
  then show ?case by simp
next
  case (Cons e es)
  have n: "plainName (entryName e)" using Cons.prems names by auto
  have v: "fs_ValidPath src" using root(1) by (auto simp: embed_Open_def Let_def split: if_splits)
  have j: "path_Join [src, entryName e] = src @ slash # entryName e" by (rule path_Join_rel [OF v root(2) n])
  note IH = Cons.IH [OF order_trans [OF set_subset_Cons Cons.prems]]
  show ?case
  proof (cases e)
    case (EDir k sub)
    then show ?thesis using j IH by (simp add: extractDir_visit_def)
  next
    case (EFile k d)
    have r: "embed_ReadFile fsys (src @ slash # k) = Inr d"
      using Cons.prems EFile names n by (intro embed_ReadFile_child [OF root(1,2) _ root(3)]) auto
    have "path_Join [dest, k] = dest @ slash # k"
      using path_Join_child(1) [OF dest] n EFile by simp
    then show ?thesis using EFile j n r IH
      by (auto simp: extractDir_visit_def path_Base_child filepath_FromSlash_def split: prod.split option.split)
  qed
qed

lemma extractDir_writes:
  assumes root: "embed_Open fsys src = Inr (EDir m es)" "src \<noteq> ''.''" "distinct (map entryName es)"
    and dest: "cleanAbs dest" and names: "\<forall>e \<in> set es. plainName (entryName e)"
  shows "extractDir fsys src dest s = put_all writeTemplate (targets dest es) s"
proof -
  obtain e s' where p: "put_all writeTemplate (targets dest es) s = (e, s')" by fastforce
  then show ?thesis
    using walkEntries_flat [OF root dest names, of es s]
    by (cases e) (simp_all add: extractDir_def fs_WalkDir_def root(1) extractDir_visit_def)
qed

lemma extractDir_missing: "embed_Open fsys src = Inl e \<Longrightarrow> extractDir fsys src dest s = (Some e, s)"
  by (simp add: extractDir_def fs_WalkDir_def extractDir_visit_def)

text \<open>Whatever is extracted from wherever, the files land directly in the destination.\<close>

lemma visit_touches:
  assumes "cleanAbs dest" "extractDir_visit fsys src dest p d err s = (r, s')"
  shows "touches (below dest) s s'"
proof -
  have "touches (below dest) s s'"
    if "embed_ReadFile fsys p = Inr data"
      "os_WriteFile (path_Join [dest, path_Base p]) data 0x1A4 s = (e, s')" for data e
  proof -
    have "fs_ValidPath p" "p \<noteq> ''.''"
      using that(1) by (auto simp: embed_ReadFile_def embed_Open_def Let_def split: if_splits)
    then have b: "plainName (path_Base p)" by (rule path_Base_valid)
    note j = path_Join_child [OF assms(1) b]
    show ?thesis
      using touches_mono [OF WriteFile_touches [OF that(2)]] j by (simp add: resolve_abs)
  qed
  then show ?thesis using assms(2)
    by (auto simp: extractDir_visit_def Let_def filepath_FromSlash_def
        split: option.splits if_splits sum.splits prod.splits)
qed

lemma walk_touches:
  "\<forall>p d err s r s'. fn p d err s = (r, s') \<longrightarrow> touches A s s' \<Longrightarrow>
     walkDir fn name e s = (r, s') \<Longrightarrow> touches A s s'"
  "\<forall>p d err s r s'. fn p d err s = (r, s') \<longrightarrow> touches A s s' \<Longrightarrow>
     walkEntries fn name es s = (r, s') \<Longrightarrow> touches A s s'"
proof (induction fn name e s and fn name es s arbitrary: r s' and r s' rule: walkDir_walkEntries.induct)
  case (1 fn name n d s)
  then show ?case by simp
next
  case (2 fn name n es s)
  obtain r1 s1 where f: "fn name (Some (EDir n es)) None s = (r1, s1)" by fastforce
  note t = 2(2) [rule_format, OF f]
  show ?case
  proof (cases r1)
    case None
    then have "walkEntries fn name es s1 = (r, s')" using 2(3) f by simp
    from 2(1) [OF f [symmetric] None 2(2) this] show ?thesis using touches_trans [OF t] by blast
  next
    case (Some x)
    then show ?thesis using 2(3) f t by (cases x) auto
  qed
next
  case (3 fn name s)
  then show ?case by simp
next
  case (4 fn name e es s)
  obtain r1 s1 where w: "walkDir fn (path_Join [name, entryName e]) e s = (r1, s1)" by fastforce
  note t = 4(1) [OF 4(3) w]
  show ?case
  proof (cases r1)
    case None
    then have "walkEntries fn name es s1 = (r, s')" using 4(4) w by simp
    from 4(2) [OF w [symmetric] None 4(3) this] show ?thesis using touches_trans [OF t] by blast
  next
    case (Some x)
    then show ?thesis using 4(4) w t by (cases x) auto
  qed
qed

lemma extractDir_touches:
  assumes d: "cleanAbs dest" and x: "extractDir fsys src dest s = (r, s')"
  shows "touches (below dest) s s'"
proof -
  let ?fn = "extractDir_visit fsys src dest"
  have v: "\<forall>p d err s r s'. ?fn p d err s = (r, s') \<longrightarrow> touches (below dest) s s'"
    using visit_touches [OF d] by blast
  obtain r1 s1 where w: "(case embed_Open fsys src of Inl err \<Rightarrow> ?fn src None (Some err) s
      | Inr e \<Rightarrow> walkDir ?fn src e s) = (r1, s1)" by fastforce
  have "touches (below dest) s s1"
  proof (cases "embed_Open fsys src")
    case (Inl a)
    then have "?fn src None (Some a) s = (r1, s1)" using w by simp
    then show ?thesis using v by blast
  next
    case (Inr e)
    then have "walkDir ?fn src e s = (r1, s1)" using w by simp
    with v show ?thesis by (rule walk_touches(1))
  qed
  moreover have "s' = s1"
    using x w by (cases r1; cases "the r1") (auto simp: extractDir_def fs_WalkDir_def split: walk_error.splits option.splits)
  ultimately show ?thesis by simp
qed

section \<open>The steps before the command\<close>

text \<open>
  \<open>unpack\<close> is everything that \<open>RunPacker\<close> does before it starts the command, as a function of
  its own that returns the temporary directory; \<open>RunPacker_unpack\<close> is the equation of the two.
\<close>

definition pluginFile :: "platform \<Rightarrow> string" where
  "pluginFile pf = ''packer-plugin-proxmox_v'' @ pluginVersion pf @ ''_x5.0_'' @ pf_GOOS pf @ ''_'' @ pf_GOARCH pf"

abbreviation child :: "string \<Rightarrow> string \<Rightarrow> string" where
  "child d n \<equiv> path_Join [d, n]"

definition pluginDir :: "string \<Rightarrow> string" where
  "pluginDir d = path_Join [child d ''plugins'', ''github.com'', ''hashicorp'', ''proxmox'']"

definition announce :: "string \<Rightarrow> os_state \<Rightarrow> os_state" where
  "announce templateName s =
     snd (print_stdout (''Plese note that this can take a while as packer is configured to install all the available updates before creating the VM Template'' @ [CHR 0x0A])
       (snd (print_stdout (''Running Packer with template: '' @ templateName @ [CHR 0x0A]) s)))"

definition populate ::
    "(nat \<Rightarrow> bool) \<Rightarrow> platform \<Rightarrow> entry list \<Rightarrow> entry list \<Rightarrow> string \<Rightarrow> string \<Rightarrow> string \<Rightarrow> string
       \<Rightarrow> os_state \<Rightarrow> go_error option \<times> os_state" where
  "populate up pf bins fsys templateName userVarFile osVersion d s =
     if_ok (extractFile bins (child d ''packer'') (''bin/'' @ packerName pf) s) id (\<lambda>s.
     if_ok (os_MkdirAll (pluginDir d) s) (Wrap ''failed to create plugin dir'') (\<lambda>s.
     if_ok (extractFile bins (child (pluginDir d) (pluginFile pf)) (''bin/'' @ pluginName pf) s) id (\<lambda>s.
     if_ok (writePluginChecksum (child (pluginDir d) (pluginFile pf)) s) (Wrap ''write plugin checksum'') (\<lambda>s.
     if_ok (extractDir fsys (path_Join [embeddedRootDir, templateName @ ''/'' @ osVersion]) d s)
         (Wrap (''failed to extract template '' @ quote up (templateName @ ''/'' @ osVersion))) (\<lambda>s.
     if_ok (extractDir fsys embeddedRootDir d s)
         (Wrap (''failed to extract template shared files '' @ quote up embeddedRootDir)) (\<lambda>s.
     if_ok (copyFile userVarFile (child d ''user.auto.pkrvars.hcl'') 0x180 s) (Wrap ''copy user config'')
       (\<lambda>s. (None, s))))))))"

definition unpack ::
    "(nat \<Rightarrow> bool) \<Rightarrow> platform \<Rightarrow> entry list \<Rightarrow> entry list \<Rightarrow> (nat \<Rightarrow> string) \<Rightarrow> string \<Rightarrow> string \<Rightarrow> string
       \<Rightarrow> os_state \<Rightarrow> string result \<times> os_state" where
  "unpack up pf bins fsys rnd templateName userVarFile osVersion s =
     (case os_MkdirTemp rnd ''pve-packer-'' (announce templateName s) of
        (Inl err, s) \<Rightarrow> (Inl (Wrap ''failed to create temp dir'' err), s)
      | (Inr d, s) \<Rightarrow>
          (case populate up pf bins fsys templateName userVarFile osVersion d s of
             (Some err, s) \<Rightarrow> (Inl err, s) | (None, s) \<Rightarrow> (Inr d, s)))"

lemma if_ok_then:
  "if_ok step wrap (\<lambda>s. case rest s of (Some e, s') \<Rightarrow> (Some e, s') | (None, s') \<Rightarrow> final s') =
     (case if_ok step wrap rest of (Some e, s') \<Rightarrow> (Some e, s') | (None, s') \<Rightarrow> final s')"
  by (simp add: if_ok_def split: prod.split option.split)

lemma RunPacker_unpack:
  "RunPacker up pf bins fsys rnd run templateName userVarFile osVersion s =
     (case unpack up pf bins fsys rnd templateName userVarFile osVersion s of
        (Inl err, s') \<Rightarrow> (Some err, s')
      | (Inr d, s') \<Rightarrow> run (child d ''packer'') [''build'', ''-force'', ''.''] d
          (os_Environ s' @ [''PACKER_PLUGIN_PATH='' @ child d ''plugins'']) s')"
proof -
  obtain r s1 where m: "os_MkdirTemp rnd ''pve-packer-'' (announce templateName s) = (r, s1)" by fastforce
  show ?thesis
  proof (cases r)
    case (Inl err)
    then show ?thesis using m by (simp add: RunPacker_def unpack_def announce_def Let_def)
  next
    case (Inr d)
    let ?run = "\<lambda>s. run (child d ''packer'') [''build'', ''-force'', ''.''] d
          (os_Environ s @ [''PACKER_PLUGIN_PATH='' @ child d ''plugins'']) s"
    have "RunPacker up pf bins fsys rnd run templateName userVarFile osVersion s =
      (case populate up pf bins fsys templateName userVarFile osVersion d s1 of
         (Some e, s') \<Rightarrow> (Some e, s') | (None, s') \<Rightarrow> ?run s')"
      unfolding populate_def if_ok_then [symmetric]
      using m Inr by (simp add: RunPacker_def announce_def Let_def pluginDir_def pluginFile_def)
    then show ?thesis
      using m Inr by (simp add: unpack_def split: prod.split option.split)
  qed
qed

lemma mkdirTemp_loop_ok:
  "mkdirTemp_loop k rnd pre i s = (Inr d, s') \<Longrightarrow>
     \<exists>j. d = pre @ rnd j \<and> os_Nodes s (resolve s d) = None \<and> s' = set_node (resolve s d) NDir s"
proof (induction k arbitrary: i)
  case (Suc k)
  show ?case
  proof (cases "os_Fault s ''mkdir'' (resolve s (pre @ rnd i)) = None \<and> os_Nodes s (resolve s (pre @ rnd i)) \<noteq> None")
    case True
    then show ?thesis using Suc by (simp add: Let_def)
  next
    case False
    then have "os_Mkdir (pre @ rnd i) s = (None, s') \<and> d = pre @ rnd i"
      using Suc.prems by (auto simp: Let_def split: prod.splits option.splits if_splits)
    then show ?thesis using Mkdir_ok by blast
  qed
qed simp

lemma mkdirTemp_loop_error: "mkdirTemp_loop k rnd pre i s = (Inl e, s') \<Longrightarrow> s' = s"
proof (induction k arbitrary: i)
  case (Suc k)
  then show ?case
    by (auto simp: Let_def os_Mkdir_def split: prod.splits option.splits if_splits)
qed simp

section \<open>Confinement\<close>

definition plain_plugin :: "platform \<Rightarrow> bool" where
  "plain_plugin pf \<longleftrightarrow> plainName (pluginFile pf) \<and> plainName (pluginFile pf @ ''_SHA256SUM'')"

lemma plain_plugin_iff: "plain_plugin pf \<longleftrightarrow> slash \<notin> set (pluginVersion pf @ pf_GOOS pf @ pf_GOARCH pf)"
  by (auto simp: plain_plugin_def plainName_def pluginFile_def)

lemma plain_literals [simp]:
  "plainName ''packer''" "plainName ''plugins''" "plainName ''github.com''" "plainName ''hashicorp''"
  "plainName ''proxmox''" "plainName ''user.auto.pkrvars.hcl''"
  by (simp_all add: plainName_def)

definition plugin_dirs :: "string \<Rightarrow> string set" where
  "plugin_dirs d = {(((d @ slash # ''plugins'') @ slash # ''github.com'') @ slash # ''hashicorp'') @ slash # ''proxmox'',
     ((d @ slash # ''plugins'') @ slash # ''github.com'') @ slash # ''hashicorp'',
     (d @ slash # ''plugins'') @ slash # ''github.com'', d @ slash # ''plugins''}"

lemma plugin_dirs_below: "plugin_dirs d \<subseteq> below d"
  by (auto simp: plugin_dirs_def below_def)

lemma pluginDir_path:
  assumes "cleanAbs d"
  shows "pluginDir d = (((d @ slash # ''plugins'') @ slash # ''github.com'') @ slash # ''hashicorp'') @ slash # ''proxmox''"
    and "cleanAbs (pluginDir d)" and "pluginDir d \<in> below d" and "makes d (plugin_dirs d) (pluginDir d)"
proof -
  note c1 = path_Join_child(2) [OF assms, of "''plugins''", simplified plain_literals, OF TrueI]
  note c2 = path_Join_child(2) [OF c1, of "''github.com''", simplified plain_literals, OF TrueI]
  note c3 = path_Join_child(2) [OF c2, of "''hashicorp''", simplified plain_literals, OF TrueI]
  note c4 = path_Join_child(2) [OF c3, of "''proxmox''", simplified plain_literals, OF TrueI]
  show p: "pluginDir d = (((d @ slash # ''plugins'') @ slash # ''github.com'') @ slash # ''hashicorp'') @ slash # ''proxmox''"
    using path_Join_child(1) [OF assms, of "''plugins''"] path_Join_many [OF c1, of "[''github.com'', ''hashicorp'', ''proxmox'']"]
    by (simp add: pluginDir_def)
  then show "cleanAbs (pluginDir d)" using c4 by simp
  show "pluginDir d \<in> below d" by (simp add: p below_def)
  have "makes d (plugin_dirs d) ((((d @ slash # ''plugins'') @ slash # ''github.com'') @ slash # ''hashicorp'') @ slash # ''proxmox'')"
    unfolding plugin_dirs_def
    by (intro makes_child makes_self assms c1 c2 c3 plain_literals) auto
  then show "makes d (plugin_dirs d) (pluginDir d)" by (simp add: p)
qed

lemma plugin_path:
  assumes "cleanAbs d" "plain_plugin pf"
  shows "child (pluginDir d) (pluginFile pf) = pluginDir d @ slash # pluginFile pf"
    and "cleanAbs (pluginDir d @ slash # pluginFile pf)"
    and "cleanAbs ((pluginDir d @ slash # pluginFile pf) @ ''_SHA256SUM'')"
    and "pluginDir d @ slash # pluginFile pf \<in> below d"
    and "(pluginDir d @ slash # pluginFile pf) @ ''_SHA256SUM'' \<in> below d"
  using assms path_Join_child [OF pluginDir_path(2) [OF assms(1)]]
    cleanAbs_suffix [OF pluginDir_path(2) [OF assms(1)]] pluginDir_path(3) [OF assms(1)]
  by (auto simp: plain_plugin_def below_def)

text \<open>One more step of a chain that stays below the directory.\<close>

lemma chain_touches:
  assumes t: "touches A s s1" and step: "\<And>e s2. step = (e, s2) \<Longrightarrow> touches A s1 s2"
    and rest: "\<And>s2. touches A s s2 \<Longrightarrow> touches A s (snd (rest s2))"
  shows "touches A s (snd (if_ok step wrap rest))"
proof -
  obtain e s2 where p: "step = (e, s2)" by fastforce
  have "touches A s s2" by (rule touches_trans [OF t step [OF p]])
  then show ?thesis using rest p by (simp add: if_ok_def split: option.split)
qed

lemma populate_touches:
  assumes d: "cleanAbs d" and pf: "plain_plugin pf" and dir: "os_Nodes s d = Some NDir"
  shows "touches (below d) s (snd (populate up pf bins fsys t u v d s))"
proof -
  note pp = plugin_path [OF d pf]
  have core: "touches (below d) s1 s2"
    if "extractFile bins (child d ''packer'') e s1 = (r, s2)" for e s1 r s2
    using extractFile_touches [OF that] path_Join_child [OF d, of "''packer''"]
    by (auto elim: touches_mono)
  have plugin: "touches (below d) s1 s2"
    if "extractFile bins (child (pluginDir d) (pluginFile pf)) e s1 = (r, s2)" for e s1 r s2
    using extractFile_touches [OF that] pp by (auto elim: touches_mono)
  have sum: "touches (below d) s1 s2"
    if "writePluginChecksum (child (pluginDir d) (pluginFile pf)) s1 = (r, s2)" for s1 r s2
    using writePluginChecksum_touches [OF that] pp by (auto elim: touches_mono)
  have mk: "touches (below d) s1 s2"
    if "touches (below d) s s1" "os_MkdirAll (pluginDir d) s1 = (r, s2)" for s1 r s2
    using pluginDir_path(4) [OF d] touches_dir [OF that(1) dir] that(2) touches_mono [OF _ plugin_dirs_below]
    unfolding makes_def by blast
  have user: "touches (below d) s1 s2"
    if "copyFile u (child d ''user.auto.pkrvars.hcl'') 0x180 s1 = (r, s2)" for s1 r s2
    using copyFile_touches [OF that] path_Join_child [OF d, of "''user.auto.pkrvars.hcl''"]
    by (auto simp: resolve_abs elim: touches_mono)
  show ?thesis
    unfolding populate_def
    by (rule chain_touches [OF touches_refl core], assumption,
        rule chain_touches [OF _ mk], assumption, assumption, assumption,
        rule chain_touches [OF _ plugin], assumption, assumption,
        rule chain_touches [OF _ sum], assumption, assumption,
        rule chain_touches [OF _ extractDir_touches [OF d]], assumption, assumption,
        rule chain_touches [OF _ extractDir_touches [OF d]], assumption, assumption,
        rule chain_touches [OF _ user], assumption, assumption, simp)
qed

lemma unpack_cases:
  assumes "unpack up pf bins fsys rnd t u v s = (r, s')"
    and tmp: "cleanAbs (os_TempDir s)" and rnd: "\<And>i. plainName (''pve-packer-'' @ rnd i)"
  obtains (failed) err where "r = Inl err" "s' = announce t s"
  | (made) j d s1 where "d = os_TempDir s @ slash # ''pve-packer-'' @ rnd j" "cleanAbs d"
      "os_Nodes s d = None" "s1 = set_node d NDir (announce t s)"
      "populate up pf bins fsys t u v d s1 = (case r of Inl e \<Rightarrow> Some e | Inr _ \<Rightarrow> None, s')"
      "r = Inr d \<or> (\<exists>e. r = Inl e)"
proof -
  have ann: "os_TempDir (announce t s) = os_TempDir s" "os_Nodes (announce t s) = os_Nodes s"
    by (simp_all add: announce_def print_stdout_def split: option.split)
  obtain x s0 where m: "os_MkdirTemp rnd ''pve-packer-'' (announce t s) = (x, s0)" by fastforce
  show thesis
  proof (cases x)
    case (Inl e)
    then have "s0 = announce t s" using m mkdirTemp_loop_error by (simp add: os_MkdirTemp_def)
    then have "r = Inl (Wrap ''failed to create temp dir'' e)" "s' = announce t s"
      using assms(1) m Inl by (simp_all add: unpack_def)
    then show thesis by (rule failed)
  next
    case (Inr d)
    then have "mkdirTemp_loop 10000 rnd (os_TempDir s @ slash # ''pve-packer-'') 0 (announce t s) = (Inr d, s0)"
      using m ann by (simp only: os_MkdirTemp_def)
    from mkdirTemp_loop_ok [OF this] obtain j where j: "d = os_TempDir s @ slash # ''pve-packer-'' @ rnd j"
      "os_Nodes s (resolve (announce t s) d) = None" "s0 = set_node (resolve (announce t s) d) NDir (announce t s)"
      unfolding ann append_assoc append_Cons by blast
    have c: "cleanAbs d" using path_Join_child(2) [OF tmp rnd] j(1) by simp
    obtain e s2 where p: "populate up pf bins fsys t u v d s0 = (e, s2)" by fastforce
    show thesis
      by (rule made [OF j(1) c]) (use j c p assms(1) m Inr in
          \<open>auto simp: resolve_abs unpack_def split: option.splits\<close>)
  qed
qed

section \<open>The layout\<close>

text \<open>What the temporary directory \<open>d\<close> holds when the command starts.\<close>

definition laid_out ::
    "platform \<Rightarrow> entry list \<Rightarrow> (string \<Rightarrow> bytes) \<Rightarrow> string \<Rightarrow> bytes option \<Rightarrow> string \<Rightarrow> os_state \<Rightarrow> bool" where
  "laid_out pf bins blob v user d s \<longleftrightarrow>
     (\<exists>core plugin. embed_ReadFile bins (''bin/'' @ packerName pf) = Inr core \<and>
        embed_ReadFile bins (''bin/'' @ pluginName pf) = Inr plugin \<and>
        file_data s (d @ ''/packer'') = Some core \<and>
        file_data s (d @ ''/plugins/github.com/hashicorp/proxmox/'' @ pluginFile pf) = Some plugin \<and>
        file_data s (d @ ''/plugins/github.com/hashicorp/proxmox/'' @ pluginFile pf @ ''_SHA256SUM'') =
          Some (hex_EncodeToString (sha256_Sum256 plugin))) \<and>
     (\<forall>n \<in> {''99-pve.cfg'', ''build.pkr.hcl'', ''meta-data'', ''user-data''}.
        file_data s (d @ slash # n) = Some (blob (''templates/ubuntu/'' @ v @ slash # n))) \<and>
     file_data s (d @ ''/base.pkr.hcl'') = Some (blob ''templates/base.pkr.hcl'') \<and>
     file_data s (d @ ''/user.auto.pkrvars.hcl'') = user"

definition version_files :: "(string \<Rightarrow> bytes) \<Rightarrow> string \<Rightarrow> entry list" where
  "version_files blob v = map (\<lambda>n. EFile n (blob (''templates/ubuntu/'' @ v @ slash # n)))
     [''99-pve.cfg'', ''build.pkr.hcl'', ''meta-data'', ''user-data'']"

lemma version_path:
  "path_Join [''templates'', ''ubuntu/22.04''] = ''templates/ubuntu/22.04''"
  "path_Join [''templates'', ''ubuntu/24.04''] = ''templates/ubuntu/24.04''"
  "splitOn slash ''templates/ubuntu/22.04'' = [''templates'', ''ubuntu'', ''22.04'']"
  "splitOn slash ''templates/ubuntu/24.04'' = [''templates'', ''ubuntu'', ''24.04'']"
  by code_simp+

lemma version_open:
  "embed_Open (TemplateFs blob) ''templates/ubuntu/22.04'' = Inr (EDir ''22.04'' (version_files blob ''22.04''))"
  "embed_Open (TemplateFs blob) ''templates/ubuntu/24.04'' = Inr (EDir ''24.04'' (version_files blob ''24.04''))"
  by (simp_all only: embed_Open_def fs_ValidPath_def version_path Let_def)
    (simp_all add: TemplateFs_def version_files_def)

lemma ubuntu_dir:
  assumes "v \<in> {''22.04'', ''24.04''}"
  shows "path_Join [embeddedRootDir, ''ubuntu'' @ ''/'' @ v] = ''templates/ubuntu/'' @ v"
    and "embed_Open (TemplateFs blob) (''templates/ubuntu/'' @ v) = Inr (EDir v (version_files blob v))"
  using assms version_path(1,2) version_open by (auto simp: embeddedRootDir_def)

definition root_files :: "(string \<Rightarrow> bytes) \<Rightarrow> entry list" where
  "root_files blob = (case TemplateFs blob of EDir n es # rest \<Rightarrow> es | _ \<Rightarrow> [])"

lemma root_dir:
  "embed_Open (TemplateFs blob) embeddedRootDir = Inr (EDir ''templates'' (root_files blob))"
  "direct_files (root_files blob) = [(''base.pkr.hcl'', blob ''templates/base.pkr.hcl'')]"
  "map entryName (root_files blob) = [''base.pkr.hcl'', ''ubuntu'']"
  by (simp_all add: embeddedRootDir_def embed_Open_def fs_ValidPath_def TemplateFs_def root_files_def Let_def)

lemma version_extract:
  assumes v: "v \<in> {''22.04'', ''24.04''}" and d: "cleanAbs d"
  shows "extractDir (TemplateFs blob) (path_Join [embeddedRootDir, ''ubuntu'' @ ''/'' @ v]) d s =
    put_all writeTemplate (targets d (version_files blob v)) s"
  unfolding ubuntu_dir(1) [OF v]
  by (rule extractDir_writes [OF ubuntu_dir(2) [OF v]])
    (auto simp: version_files_def plainName_def d)

lemma root_extract:
  assumes d: "cleanAbs d"
  shows "extractDir (TemplateFs blob) embeddedRootDir d s =
    writeTemplate (d @ ''/base.pkr.hcl'') (blob ''templates/base.pkr.hcl'') s"
proof -
  have n: "entryName ` set (root_files blob) = {''base.pkr.hcl'', ''ubuntu''}"
    using root_dir(3) [of blob] by (metis list.set_map list.simps(15) empty_set)
  have "extractDir (TemplateFs blob) embeddedRootDir d s = put_all writeTemplate (targets d (root_files blob)) s"
  proof (rule extractDir_writes [OF root_dir(1)])
    show "\<forall>e \<in> set (root_files blob). plainName (entryName e)"
    proof
      fix e
      assume "e \<in> set (root_files blob)"
      then have "entryName e \<in> {''base.pkr.hcl'', ''ubuntu''}" using n by blast
      then show "plainName (entryName e)" by (auto simp: plainName_def)
    qed
  qed (simp_all add: root_dir(3) d embeddedRootDir_def)
  then show ?thesis by (simp add: targets_def root_dir(2) split: prod.split option.split)
qed

lemma if_ok_NoneD: "if_ok step wrap rest = (None, s') \<Longrightarrow> \<exists>s1. step = (None, s1) \<and> rest s1 = (None, s')"
  by (auto elim: if_ok_cases)

lemma populate_steps:
  assumes "populate up pf bins fsys t u v d s = (None, s7)"
  obtains s1 s2 s3 s4 s5 s6 where
    "extractFile bins (child d ''packer'') (''bin/'' @ packerName pf) s = (None, s1)"
    "os_MkdirAll (pluginDir d) s1 = (None, s2)"
    "extractFile bins (child (pluginDir d) (pluginFile pf)) (''bin/'' @ pluginName pf) s2 = (None, s3)"
    "writePluginChecksum (child (pluginDir d) (pluginFile pf)) s3 = (None, s4)"
    "extractDir fsys (path_Join [embeddedRootDir, t @ ''/'' @ v]) d s4 = (None, s5)"
    "extractDir fsys embeddedRootDir d s5 = (None, s6)"
    "copyFile u (child d ''user.auto.pkrvars.hcl'') 0x180 s6 = (None, s7)"
  using assms unfolding populate_def by (elim if_ok_NoneD [elim_format] exE conjE) simp

text \<open>The files written below \<open>d\<close> are told apart by what follows \<open>d\<close>.\<close>

lemma version_targets:
  "fst ` set (targets d (version_files blob v)) =
     (\<lambda>n. d @ slash # n) ` {''99-pve.cfg'', ''build.pkr.hcl'', ''meta-data'', ''user-data''}"
  "n \<in> {''99-pve.cfg'', ''build.pkr.hcl'', ''meta-data'', ''user-data''} \<Longrightarrow>
     (d @ slash # n, blob (''templates/ubuntu/'' @ v @ slash # n)) \<in> set (targets d (version_files blob v))"
  "distinct (map fst (targets d (version_files blob v)))"
  by (auto simp: targets_def version_files_def)

lemma populate_layout:
  assumes d: "cleanAbs d" and pf: "plain_plugin pf" and v: "v \<in> {''22.04'', ''24.04''}"
    and u: "resolve s u \<notin> below d"
    and p: "populate up pf bins (TemplateFs blob) ''ubuntu'' u v d s = (None, s7)"
  shows "laid_out pf bins blob v (file_data s (resolve s u)) d s7"
proof -
  let ?plug = "pluginDir d @ slash # pluginFile pf" and ?user = "d @ ''/user.auto.pkrvars.hcl''"
  obtain s1 s2 s3 s4 s5 s6 where st:
    "extractFile bins (child d ''packer'') (''bin/'' @ packerName pf) s = (None, s1)"
    "os_MkdirAll (pluginDir d) s1 = (None, s2)"
    "extractFile bins (child (pluginDir d) (pluginFile pf)) (''bin/'' @ pluginName pf) s2 = (None, s3)"
    "writePluginChecksum (child (pluginDir d) (pluginFile pf)) s3 = (None, s4)"
    "extractDir (TemplateFs blob) (path_Join [embeddedRootDir, ''ubuntu'' @ ''/'' @ v]) d s4 = (None, s5)"
    "extractDir (TemplateFs blob) embeddedRootDir d s5 = (None, s6)"
    "copyFile u (child d ''user.auto.pkrvars.hcl'') 0x180 s6 = (None, s7)"
    using p by (rule populate_steps)
  note pp = plugin_path [OF d pf]
  have ch: "child d n = d @ slash # n" "cleanAbs (d @ slash # n)" if "plainName n" for n
    using path_Join_child [OF d that] by auto
  have base: "plainName ''base.pkr.hcl''" by (simp add: plainName_def)
  have clean: "cleanAbs (d @ slash # n)"
    if "n \<in> {''99-pve.cfg'', ''build.pkr.hcl'', ''meta-data'', ''user-data''}" for n
    using that by (intro ch(2)) (auto simp: plainName_def)
  have tc: "\<forall>p \<in> fst ` set (targets d (version_files blob v)). cleanAbs p"
    using clean by (auto simp: version_targets(1))
  have w5: "put_all writeTemplate (targets d (version_files blob v)) s4 = (None, s5)"
    using st(5) version_extract [OF v d] by simp
  have w6: "writeTemplate (d @ ''/base.pkr.hcl'') (blob ''templates/base.pkr.hcl'') s5 = (None, s6)"
    using st(6) root_extract [OF d] by simp
  have t3: "touches {?plug} s2 s3" using extractFile_touches [OF st(3)] pp by simp
  have t4: "touches {?plug @ ''_SHA256SUM''} s3 s4" using writePluginChecksum_touches [OF st(4)] pp by simp
  have t5: "touches (fst ` set (targets d (version_files blob v))) s4 s5" by (rule put_all_touches [OF w5 tc])
  have t6: "touches {d @ ''/base.pkr.hcl''} s5 s6"
    using WriteFile_touches [OF w6] ch(2) [OF base] by (simp add: resolve_abs)
  have t7: "touches {?user} s6 s7"
    using copyFile_touches [OF st(7)] ch [of "''user.auto.pkrvars.hcl''"] by (simp add: resolve_abs)
  have fd: "file_data b q = file_data a q" if "touches A a b" "q \<notin> A" for A a b q
    using touches_outside [OF that] by (simp add: file_data_def)
  obtain core where core: "embed_ReadFile bins (''bin/'' @ packerName pf) = Inr core"
    "file_data s1 (d @ ''/packer'') = Some core"
    using extractFile_ok [OF st(1)] ch [of "''packer''"] by auto
  obtain plugin where plug: "embed_ReadFile bins (''bin/'' @ pluginName pf) = Inr plugin" "file_data s3 ?plug = Some plugin"
    using extractFile_ok [OF st(3)] pp by auto
  have sum: "file_data s4 ?plug = Some plugin"
    "file_data s4 (?plug @ ''_SHA256SUM'') = Some (hex_EncodeToString (sha256_Sum256 plugin))"
    using writePluginChecksum_ok [OF st(4)] pp plug(2) by auto
  have pd: "pluginDir d = d @ ''/plugins/github.com/hashicorp/proxmox''"
    using pluginDir_path(1) [OF d] by simp
  have a: "file_data s7 (d @ ''/packer'') = Some core"
    using core(2) MkdirAll_file_data [OF st(2)] fd [OF t3] fd [OF t4] fd [OF t5] fd [OF t6] fd [OF t7]
    by (simp add: pd version_targets(1))
  have b: "file_data s7 ?plug = Some plugin"
    using sum(1) fd [OF t5] fd [OF t6] fd [OF t7] by (simp add: pd version_targets(1))
  have c: "file_data s7 (?plug @ ''_SHA256SUM'') = Some (hex_EncodeToString (sha256_Sum256 plugin))"
    using sum(2) fd [OF t5] fd [OF t6] fd [OF t7] by (simp add: pd version_targets(1))
  have e: "file_data s7 (d @ slash # n) = Some (blob (''templates/ubuntu/'' @ v @ slash # n))"
    if n: "n \<in> {''99-pve.cfg'', ''build.pkr.hcl'', ''meta-data'', ''user-data''}" for n
    using os_files.put_all_get [OF w5 tc version_targets(3) version_targets(2) [OF n]] fd [OF t6] fd [OF t7] n
    by auto
  have f: "file_data s7 (d @ ''/base.pkr.hcl'') = Some (blob ''templates/base.pkr.hcl'')"
    using os_files.put_get [OF _ w6] ch(2) [OF base] fd [OF t7] by simp
  have t1: "touches {d @ ''/packer''} s s1"
    using extractFile_touches [OF st(1)] ch [of "''packer''"] by simp
  have "file_data s6 (resolve s u) = file_data s (resolve s u)"
    using fd [OF t1] MkdirAll_file_data [OF st(2)] fd [OF t3] fd [OF t4] fd [OF t5] fd [OF t6] u
    by (auto simp: version_targets(1) below_def pd)
  moreover have r: "resolve s6 q = resolve s q" for q
    using touches_fields(8) [OF t1] touches_fields(8) [OF MkdirAll_new [OF st(2)]] touches_fields(8) [OF t3]
      touches_fields(8) [OF t4] touches_fields(8) [OF t5] touches_fields(8) [OF t6] by simp
  moreover have "resolve s u \<noteq> ?user" using u by (auto simp: below_def)
  ultimately have g: "file_data s7 ?user = file_data s (resolve s u)"
    using copyFile_ok(1) [OF st(7)] ch [of "''user.auto.pkrvars.hcl''"] by (simp add: resolve_abs)
  show ?thesis
    unfolding laid_out_def using core(1) plug(1) a b c e f g by (simp add: pd)
qed

section \<open>Progress\<close>

lemma extractFile_progress:
  assumes "embed_ReadFile bins e = Inr data" "no_faults s" "cleanAbs p"
    and "os_Nodes s (parentOf p) = Some NDir" "os_Nodes s p \<noteq> Some NDir"
  shows "\<exists>s'. extractFile bins p e s = (None, s') \<and> touches {p} s s' \<and>
    (\<forall>q. os_Nodes s' q = Some NDir \<longleftrightarrow> os_Nodes s q = Some NDir) \<and> file_data s' p = Some data"
proof -
  obtain s' where w: "os_WriteFile p data 0x1ED s = (None, s')"
    using WriteFile_progress [OF assms(2-5)] by blast
  then show ?thesis
    using assms(1) WriteFile_touches [OF w] WriteFile_no_dir [OF w] os_files.put_get [OF assms(3) w]
    by (simp add: extractFile_def resolve_abs [OF assms(3)])
qed

lemma writePluginChecksum_progress:
  assumes "file_data s p = Some data" "no_faults s" "cleanAbs p" "cleanAbs (p @ ''_SHA256SUM'')"
    and "os_Nodes s (parentOf (p @ ''_SHA256SUM'')) = Some NDir" "os_Nodes s (p @ ''_SHA256SUM'') \<noteq> Some NDir"
  shows "\<exists>s'. writePluginChecksum p s = (None, s') \<and> touches {p @ ''_SHA256SUM''} s s' \<and>
    (\<forall>q. os_Nodes s' q = Some NDir \<longleftrightarrow> os_Nodes s q = Some NDir)"
proof -
  obtain m where "os_Nodes s p = Some (NFile data m)"
    using assms(1) by (auto simp: file_data_def split: option.splits node.splits)
  then have r: "os_ReadFile p s = Inr data"
    using assms(2) cleanAbs_nonempty [OF assms(3)]
    by (intro ReadFile_nodes) (auto simp: resolve_abs [OF assms(3)] no_faults_def)
  obtain s' where w: "os_WriteFile (p @ ''_SHA256SUM'') (hex_EncodeToString (sha256_Sum256 data)) 0x1A4 s = (None, s')"
    using WriteFile_progress [OF assms(2,4-6)] by blast
  then show ?thesis
    using r WriteFile_touches [OF w] WriteFile_no_dir [OF w]
    by (simp add: writePluginChecksum_def Let_def resolve_abs [OF assms(4)])
qed

lemma copyFile_progress:
  assumes "file_data s (resolve s u) = Some data" "u \<noteq> []" "no_faults s" "cleanAbs p" "resolve s u \<noteq> p"
    and "os_Nodes s (parentOf p) = Some NDir" "os_Nodes s p \<noteq> Some NDir"
  shows "\<exists>s'. copyFile u p mode s = (None, s')"
proof -
  obtain m where u: "os_Nodes s (resolve s u) = Some (NFile data m)"
    using assms(1) by (auto simp: file_data_def split: option.splits node.splits)
  obtain s1 m1 where s1: "os_OpenTrunc p mode s = (None, s1)" "os_Nodes s1 p = Some (NFile [] m1)"
    using assms cleanAbs_nonempty [OF assms(4)]
    by (cases "os_Nodes s p"; cases "the (os_Nodes s p)")
      (auto simp: os_OpenTrunc_def Let_def resolve_abs no_faults_def create_error_def)
  note t = OpenTrunc_touches [OF s1(1), unfolded resolve_abs [OF assms(4)]]
  have nf: "no_faults s1" using no_faults_touches [OF t] assms(3) by simp
  have "os_Read u s1 = Inr data"
    using touches_outside [OF t] assms(5) u nf touches_fields(8) [OF t]
    by (simp add: os_Read_def no_faults_def)
  moreover have "os_Open u s = None" using u assms(2,3) by (simp add: os_Open_def no_faults_def)
  ultimately show ?thesis
    using s1 nf by (simp add: copyFile_def if_ok_def os_Write_def Let_def resolve_abs [OF assms(4)] no_faults_def)
qed

text \<open>A directory in which every file but the plugin directories can be written.\<close>

definition room :: "string \<Rightarrow> os_state \<Rightarrow> bool" where
  "room d s \<longleftrightarrow> no_faults s \<and> os_Nodes s d = Some NDir \<and>
     (\<forall>q \<in> below d. q \<notin> plugin_dirs d \<longrightarrow> os_Nodes s q \<noteq> Some NDir)"

lemma room_step:
  assumes "room d s" "touches A s s'" "\<forall>q. os_Nodes s' q = Some NDir \<longleftrightarrow> os_Nodes s q = Some NDir"
  shows "room d s'"
  using assms no_faults_touches [OF assms(2)] by (simp add: room_def)

lemma room_child:
  assumes "cleanAbs d" "room d s" "plainName n" "n \<noteq> ''plugins''"
  shows "child d n = d @ slash # n" "cleanAbs (d @ slash # n)" "no_faults s"
    "os_Nodes s (parentOf (d @ slash # n)) = Some NDir" "os_Nodes s (d @ slash # n) \<noteq> Some NDir"
proof -
  have "d @ slash # n \<notin> plugin_dirs d"
  proof
    assume "d @ slash # n \<in> plugin_dirs d"
    then have "n \<in> {''plugins/github.com/hashicorp/proxmox'', ''plugins/github.com/hashicorp'',
        ''plugins/github.com'', ''plugins''}"
      unfolding plugin_dirs_def by simp
    moreover have "slash \<notin> set n" using assms(3) by (simp add: plainName_def)
    ultimately show False using assms(4) by (elim insertE emptyE) simp_all
  qed
  then show "os_Nodes s (d @ slash # n) \<noteq> Some NDir" "no_faults s"
    using assms(2) by (simp_all add: room_def)
  show "child d n = d @ slash # n" "cleanAbs (d @ slash # n)"
    using path_Join_child [OF assms(1,3)] by simp_all
  show "os_Nodes s (parentOf (d @ slash # n)) = Some NDir"
    using parentOf_child [OF cleanAbs_nonempty [OF assms(1)] assms(3)] assms(2) by (simp add: room_def)
qed

lemma plugins_progress:
  assumes d: "cleanAbs d" and pf: "plain_plugin pf" and room: "room d s"
    and free: "\<forall>q \<in> below d. q \<noteq> d @ ''/packer'' \<longrightarrow> os_Nodes s q = None"
    and bin: "embed_ReadFile bins (''bin/'' @ pluginName pf) = Inr plugin"
  shows "\<exists>s2 s3 s4. os_MkdirAll (pluginDir d) s = (None, s2) \<and>
    extractFile bins (child (pluginDir d) (pluginFile pf)) (''bin/'' @ pluginName pf) s2 = (None, s3) \<and>
    writePluginChecksum (child (pluginDir d) (pluginFile pf)) s3 = (None, s4) \<and> room d s4"
proof -
  let ?plug = "pluginDir d @ slash # pluginFile pf"
  note pp = plugin_path [OF d pf] and pd = pluginDir_path [OF d]
  have plainp: "plainName (pluginFile pf)" "plainName (pluginFile pf @ ''_SHA256SUM'')"
    using pf by (simp_all add: plain_plugin_def)
  note par = parentOf_child [OF cleanAbs_nonempty [OF pd(2)] plainp(1)]
    parentOf_child [OF cleanAbs_nonempty [OF pd(2)] plainp(2)]
  have np: "?plug \<notin> plugin_dirs d" "?plug @ ''_SHA256SUM'' \<notin> plugin_dirs d"
    using pd(1) by (auto simp: plugin_dirs_def)
  obtain e2 s2 where m: "os_MkdirAll (pluginDir d) s = (e2, s2)" by fastforce
  have nofile: "\<forall>q \<in> plugin_dirs d. file_data s q = None"
  proof
    fix q
    assume "q \<in> plugin_dirs d"
    then have "q \<noteq> d @ ''/packer''" "q \<in> below d" using plugin_dirs_below by (auto simp: plugin_dirs_def)
    then show "file_data s q = None" using free by (simp add: file_data_def)
  qed
  have t2: "touches (plugin_dirs d) s s2" and "no_faults s \<longrightarrow> (\<forall>q \<in> plugin_dirs d. file_data s q = None) \<longrightarrow> e2 = None"
    using pd(4) room m unfolding makes_def room_def by blast+
  then have e2: "os_MkdirAll (pluginDir d) s = (None, s2)" using nofile room m by (simp add: room_def)
  have pdir: "os_Nodes s2 (pluginDir d) = Some NDir"
    using MkdirAll_ok [OF e2] by (simp add: resolve_abs [OF pd(2)])
  have room2: "room d s2"
    using room touches_outside [OF t2] touches_dir [OF t2] no_faults_touches [OF t2] by (simp add: room_def)
  then have nf2: "no_faults s2" and nd2: "os_Nodes s2 ?plug \<noteq> Some NDir" "os_Nodes s2 (?plug @ ''_SHA256SUM'') \<noteq> Some NDir"
    using np pp(4,5) unfolding room_def by blast+
  obtain s3 where s3: "extractFile bins ?plug (''bin/'' @ pluginName pf) s2 = (None, s3)"
    "touches {?plug} s2 s3" "\<forall>q. os_Nodes s3 q = Some NDir \<longleftrightarrow> os_Nodes s2 q = Some NDir" "file_data s3 ?plug = Some plugin"
    using extractFile_progress [OF bin nf2 pp(2) _ nd2(1)] par(1) pdir by auto
  note room3 = room_step [OF room2 s3(2,3)]
  have "parentOf (?plug @ ''_SHA256SUM'') = pluginDir d" using par(2) by simp
  then obtain s4 where s4: "writePluginChecksum ?plug s3 = (None, s4)"
    "touches {?plug @ ''_SHA256SUM''} s3 s4" "\<forall>q. os_Nodes s4 q = Some NDir \<longleftrightarrow> os_Nodes s3 q = Some NDir"
    using writePluginChecksum_progress [OF s3(4) _ pp(2,3)] room3 pdir nd2(2) s3(3) unfolding room_def by auto
  show ?thesis using e2 s3(1) s4(1) room_step [OF room3 s4(2,3)] pp(1) by auto
qed

lemma templates_progress:
  assumes d: "cleanAbs d" and room: "room d s" and v: "v \<in> {''22.04'', ''24.04''}"
    and u: "u \<noteq> []" "resolve s u \<notin> below d" "file_data s (resolve s u) = Some cfg"
  shows "\<exists>s5 s6 s7. extractDir (TemplateFs blob) (path_Join [embeddedRootDir, ''ubuntu'' @ ''/'' @ v]) d s = (None, s5) \<and>
    extractDir (TemplateFs blob) embeddedRootDir d s5 = (None, s6) \<and>
    copyFile u (child d ''user.auto.pkrvars.hcl'') 0x180 s6 = (None, s7)"
proof -
  have pre: "\<forall>p \<in> fst ` set (targets d (version_files blob v)).
      cleanAbs p \<and> os_Nodes s (parentOf p) = Some NDir \<and> os_Nodes s p \<noteq> Some NDir"
  proof
    fix p
    assume "p \<in> fst ` set (targets d (version_files blob v))"
    then obtain n where n: "p = d @ slash # n" "n \<in> {''99-pve.cfg'', ''build.pkr.hcl'', ''meta-data'', ''user-data''}"
      unfolding version_targets(1) by (rule imageE)
    have "plainName n" "n \<noteq> ''plugins''"
      using n(2) by (elim insertE emptyE; simp add: plainName_def)+
    then show "cleanAbs p \<and> os_Nodes s (parentOf p) = Some NDir \<and> os_Nodes s p \<noteq> Some NDir"
      using room_child [OF d room, of n] n(1) by simp
  qed
  have nf: "no_faults s" using room by (simp add: room_def)
  obtain s5 where s5: "put_all writeTemplate (targets d (version_files blob v)) s = (None, s5)"
    "\<forall>q. os_Nodes s5 q = Some NDir \<longleftrightarrow> os_Nodes s q = Some NDir"
    using put_all_progress [OF pre nf, where mode = "0x1A4"] by (elim exE conjE)
  have clean: "\<forall>p \<in> fst ` set (targets d (version_files blob v)). cleanAbs p" using pre by metis
  note t5 = put_all_touches [OF s5(1) clean]
  note room5 = room_step [OF room t5 s5(2)]
  have bn: "plainName ''base.pkr.hcl''" "''base.pkr.hcl'' \<noteq> ''plugins''" by (simp_all add: plainName_def)
  note cb = room_child [OF d room5 bn]
  obtain s6 where s6: "writeTemplate (d @ slash # ''base.pkr.hcl'') (blob ''templates/base.pkr.hcl'') s5 = (None, s6)"
    using WriteFile_progress [OF cb(3,2,4,5), where mode = "0x1A4" and d = "blob ''templates/base.pkr.hcl''"] by (elim exE)
  have t6: "touches {d @ slash # ''base.pkr.hcl''} s5 s6"
    using WriteFile_touches [OF s6] unfolding resolve_abs [OF cb(2)] .
  have room6: "room d s6" by (rule room_step [OF room5 t6]) (simp add: WriteFile_no_dir [OF s6])
  have out: "resolve s u \<noteq> d @ slash # n" for n using u(2) by (auto simp: below_def)
  have r: "resolve s6 u = resolve s u" using touches_fields(8) [OF t5] touches_fields(8) [OF t6] by simp
  have "resolve s u \<notin> fst ` set (targets d (version_files blob v))"
    using targets_below u(2) by blast
  then have cfg: "file_data s6 (resolve s6 u) = Some cfg"
    using touches_outside [OF t6, of "resolve s u"] touches_outside [OF t5, of "resolve s u"] out u(3)
    unfolding file_data_def r by simp
  have un: "plainName ''user.auto.pkrvars.hcl''" "''user.auto.pkrvars.hcl'' \<noteq> ''plugins''" by simp_all
  note cu = room_child [OF d room6 un]
  have "resolve s6 u \<noteq> d @ slash # ''user.auto.pkrvars.hcl''" unfolding r by (rule out)
  from copyFile_progress [OF cfg u(1) cu(3,2) this cu(4,5), where mode = "0x180"] obtain s7 where
    s7: "copyFile u (d @ slash # ''user.auto.pkrvars.hcl'') 0x180 s6 = (None, s7)" by (elim exE)
  show ?thesis
    by (intro exI [of _ s5] exI [of _ s6] exI [of _ s7])
      (simp only: version_extract [OF v d] root_extract [OF d] cu(1) s5(1) s7, use s6 in simp)
qed

lemma populate_progress:
  assumes d: "cleanAbs d" and pf: "plain_plugin pf" and v: "v \<in> {''22.04'', ''24.04''}"
    and bins: "embed_ReadFile bins (''bin/'' @ packerName pf) = Inr core"
      "embed_ReadFile bins (''bin/'' @ pluginName pf) = Inr plugin"
    and nf: "no_faults s" and dir: "os_Nodes s d = Some NDir" and fresh: "\<forall>q \<in> below d. os_Nodes s q = None"
    and u: "u \<noteq> []" "resolve s u \<notin> below d" "file_data s (resolve s u) = Some cfg"
  shows "\<exists>s7. populate up pf bins (TemplateFs blob) ''ubuntu'' u v d s = (None, s7)"
proof -
  have room: "room d s" using nf dir fresh by (simp add: room_def)
  have pk: "plainName ''packer''" "''packer'' \<noteq> ''plugins''" by simp_all
  note ch = room_child [OF d room pk]
  obtain s1 where s1: "extractFile bins (child d ''packer'') (''bin/'' @ packerName pf) s = (None, s1)"
    "touches {d @ slash # ''packer''} s s1" "\<forall>q. os_Nodes s1 q = Some NDir \<longleftrightarrow> os_Nodes s q = Some NDir"
    using extractFile_progress [OF bins(1) ch(3,2,4,5)] ch(1) by auto
  have "\<forall>q \<in> below d. q \<noteq> d @ ''/packer'' \<longrightarrow> os_Nodes s1 q = None"
    using touches_outside [OF s1(2)] fresh by simp
  from plugins_progress [OF d pf room_step [OF room s1(2,3)] this bins(2)] obtain s2 s3 s4 where
    st: "os_MkdirAll (pluginDir d) s1 = (None, s2)"
    "extractFile bins (child (pluginDir d) (pluginFile pf)) (''bin/'' @ pluginName pf) s2 = (None, s3)"
    "writePluginChecksum (child (pluginDir d) (pluginFile pf)) s3 = (None, s4)" "room d s4" by blast
  note pp = plugin_path [OF d pf]
  have t1: "touches (below d) s s1" using touches_mono [OF s1(2)] by simp
  have t2: "touches (below d) s1 s2"
    using pluginDir_path(4) [OF d] st(1) s1(3) dir touches_mono [OF _ plugin_dirs_below] unfolding makes_def by blast
  have t3: "touches (below d) s2 s3" "touches (below d) s3 s4"
    using extractFile_touches [OF st(2)] writePluginChecksum_touches [OF st(3)] pp by (auto elim: touches_mono)
  have t: "touches (below d) s s4" using touches_trans [OF touches_trans [OF touches_trans [OF t1 t2] t3(1)] t3(2)] .
  have "resolve s4 u \<notin> below d" "file_data s4 (resolve s4 u) = Some cfg"
    using u(2,3) touches_fields(8) [OF t] touches_outside [OF t u(2)] by (simp_all add: file_data_def)
  from templates_progress [OF d st(4) v u(1) this, of blob] obtain s5 s6 s7 where
    "extractDir (TemplateFs blob) (path_Join [embeddedRootDir, ''ubuntu'' @ ''/'' @ v]) d s4 = (None, s5)"
    "extractDir (TemplateFs blob) embeddedRootDir d s5 = (None, s6)"
    "copyFile u (child d ''user.auto.pkrvars.hcl'') 0x180 s6 = (None, s7)" by blast
  then show ?thesis
    unfolding populate_def using s1(1) st(1-3) by (intro exI [of _ s7]) (simp only: if_ok_None)
qed

end
