(* ===== verification/Packer_Properties.thy ===== *)
theory Packer_Properties
  imports Packer_Run
begin

text \<open>
  The properties of \<open>internal/packer/pcli\<close>, over the lemmas on its steps: what is extracted, what
  Packer finds when it starts, what is never touched, and which inputs never start it.
\<close>

section \<open>The start of the command\<close>

text \<open>What the two announcements change.\<close>

lemma announce_fields [simp]:
  "os_Nodes (announce t s) = os_Nodes s" "os_TempDir (announce t s) = os_TempDir s"
  "os_Environ (announce t s) = os_Environ s" "os_Fault (announce t s) = os_Fault s"
  "resolve (announce t s) p = resolve s p" "no_faults (announce t s) = no_faults s"
  "file_data (announce t s) q = file_data s q"
  by (simp_all add: announce_def print_stdout_def resolve_def no_faults_def file_data_def split: option.split)

lemma set_node_environ [simp]: "os_Environ (set_node p n s) = os_Environ s"
  "no_faults (set_node p n s) = no_faults s" "file_data (set_node p NDir s) q = (if q = p then None else file_data s q)"
  by (simp_all add: set_node_def no_faults_def file_data_def)

text \<open>The command is never started when a step before it fails.\<close>

lemma RunPacker_cases:
  assumes tmp: "cleanAbs (os_TempDir s)" and rnd: "\<forall>i. plainName (''pve-packer-'' @ rnd i)"
  obtains (no_dir) err where "\<And>run. RunPacker up pf bins fsys rnd run t u v s = (Some err, announce t s)"
  | (failed) j d s1 err where "d = os_TempDir s @ slash # ''pve-packer-'' @ rnd j" "cleanAbs d" "os_Nodes s d = None"
      "populate up pf bins fsys t u v d (set_node d NDir (announce t s)) = (Some err, s1)"
      "\<And>run. RunPacker up pf bins fsys rnd run t u v s = (Some err, s1)"
  | (started) j d s1 where "d = os_TempDir s @ slash # ''pve-packer-'' @ rnd j" "cleanAbs d" "os_Nodes s d = None"
      "populate up pf bins fsys t u v d (set_node d NDir (announce t s)) = (None, s1)"
      "\<And>run. RunPacker up pf bins fsys rnd run t u v s = run (child d ''packer'') [''build'', ''-force'', ''.''] d
          (os_Environ s1 @ [''PACKER_PLUGIN_PATH='' @ child d ''plugins'']) s1"
proof -
  obtain r s1 where un: "unpack up pf bins fsys rnd t u v s = (r, s1)" by fastforce
  from un tmp rnd [rule_format] show thesis
  proof (cases rule: unpack_cases)
    case (failed err)
    then show thesis using un no_dir by (simp add: RunPacker_unpack)
  next
    case (made j d s0)
    show thesis
    proof (cases r)
      case (Inl err)
      show thesis
        by (rule that(2) [OF made(1-3)]) (use made(4,5) un Inl in \<open>simp_all add: RunPacker_unpack\<close>)
    next
      case (Inr d')
      then have "d' = d" using made(6) by simp
      then show thesis
        using started [OF made(1-3)] made(4,5) un Inr by (simp add: RunPacker_unpack)
    qed
  qed
qed

lemma populate_environ:
  assumes "cleanAbs d" "plain_plugin pf" "populate up pf bins fsys t u v d (set_node d NDir s) = (e, s1)"
  shows "os_Environ s1 = os_Environ s"
    and "q \<noteq> d \<Longrightarrow> q \<notin> below d \<Longrightarrow> os_Nodes s1 q = os_Nodes s q" and "os_Nodes s1 d = Some NDir"
  using populate_touches [OF assms(1,2), of "set_node d NDir s" up bins fsys t u v] assms(3)
    touches_fields(5) [of "below d" "set_node d NDir s" s1]
    touches_outside [of "below d" "set_node d NDir s" s1]
    touches_dir [of "below d" "set_node d NDir s" s1 d]
  by simp_all

section \<open>A sample machine\<close>

definition sampleMachine :: os_state where
  "sampleMachine = \<lparr>os_Nodes = [''/'' \<mapsto> NDir, ''/tmp'' \<mapsto> NDir, ''/home'' \<mapsto> NDir,
       ''/home/cfg.hcl'' \<mapsto> NFile ''vm_id = 9000'' 0x180],
     os_Fault = (\<lambda>op p. None), os_Partial = (\<lambda>p. 0), os_Cwd = ''/home'', os_TempDir = ''/tmp'', os_Umask = 0x12,
     os_Environ = [''HOME=/home''], os_Stdout = '''', os_Stderr = ''''\<rparr>"

definition samplePlatform :: platform where
  "samplePlatform = (platform_linux ''amd64'')\<lparr>pluginVersion := ''1.2.3''\<rparr>"

definition sampleBins :: "entry list" where
  "sampleBins = packerBinaries samplePlatform ''plugin-bytes'' ''packer-bytes''"

abbreviation anyRune :: "nat \<Rightarrow> bool" where
  "anyRune \<equiv> (\<lambda>_. True)"

lemma sample_tmp: "cleanAbs ''/tmp''"
  unfolding cleanAbs_def by (intro exI [of _ "[''tmp'']"]) (simp add: plainName_def)

lemma sample_rnd: "\<forall>i :: nat. plainName (''pve-packer-'' @ ''17'')"
  by (simp add: plainName_def)

lemma sample_plugin: "plain_plugin samplePlatform"
  by (simp add: plain_plugin_iff samplePlatform_def platform_linux_def)

lemma sample_resolve: "resolve sampleMachine ''/home/cfg.hcl'' = ''/home/cfg.hcl''"
proof -
  have "cleanAbs ''/home/cfg.hcl''"
    unfolding cleanAbs_def by (intro exI [of _ "[''home'', ''cfg.hcl'']"]) (simp add: plainName_def)
  then show ?thesis by (rule resolve_abs)
qed

lemma sample_machine [simp]:
  "os_TempDir sampleMachine = ''/tmp''" "no_faults sampleMachine" "os_Environ sampleMachine = [''HOME=/home'']"
  "os_Nodes sampleMachine ''/tmp'' = Some NDir"
  by (simp_all add: sampleMachine_def no_faults_def)

lemma sample_node:
  "os_Nodes sampleMachine ''/home/cfg.hcl'' = Some (NFile ''vm_id = 9000'' 0x180)"
  "os_Fault sampleMachine op p = None"
  by (simp_all add: sampleMachine_def)

lemma sample_fresh: "q \<in> below ''/tmp/pve-packer-17'' \<Longrightarrow> os_Nodes sampleMachine q = None"
  by (auto simp: below_def sampleMachine_def)

lemma sample_user: "file_data sampleMachine ''/home/cfg.hcl'' = Some ''vm_id = 9000''"
  by (simp add: file_data_def sampleMachine_def)

lemma sample_bins:
  "embed_ReadFile sampleBins (''bin/'' @ packerName samplePlatform) = Inr ''packer-bytes''"
  "embed_ReadFile sampleBins (''bin/'' @ pluginName samplePlatform) = Inr ''plugin-bytes''"
proof -
  have s: "splitOn slash ''bin/packer_linux_amd64'' = [''bin'', ''packer_linux_amd64'']"
    "splitOn slash ''bin/packer-plugin-proxmox_linux_amd64'' = [''bin'', ''packer-plugin-proxmox_linux_amd64'']"
    by code_simp+
  show "embed_ReadFile sampleBins (''bin/'' @ packerName samplePlatform) = Inr ''packer-bytes''"
    "embed_ReadFile sampleBins (''bin/'' @ pluginName samplePlatform) = Inr ''plugin-bytes''"
    by (simp_all add: embed_ReadFile_def embed_Open_def fs_ValidPath_def Let_def samplePlatform_def
        platform_linux_def sampleBins_def packerBinaries_def s [simplified])
qed

section \<open>Properties\<close>

text \<open>
  Claim C29. \<open>extractDir\<close> writes exactly the regular files that the directory lists, in order
  and flattened into the destination, and stops at the first error; nothing of a subdirectory is
  written. When it succeeds, each of the files holds its embedded bytes.
\<close>

theorem extractDir_flat:
  assumes "embed_Open fsys src = Inr (EDir m es)" "src \<noteq> ''.''" "distinct (map entryName es)"
    and "cleanAbs dest" and "\<forall>e \<in> set es. plainName (entryName e)"
  shows "extractDir fsys src dest s =
      put_all (\<lambda>p d. os_WriteFile p d 0x1A4) (map (\<lambda>(n, d). (dest @ slash # n, d)) (direct_files es)) s \<and>
    (\<forall>s'. extractDir fsys src dest s = (None, s') \<longrightarrow>
       (\<forall>n d. EFile n d \<in> set es \<longrightarrow> file_data s' (dest @ slash # n) = Some d) \<and>
       (\<forall>q. q \<notin> (\<lambda>n. dest @ slash # n) ` fst ` set (direct_files es) \<longrightarrow> os_Nodes s' q = os_Nodes s q))"
proof -
  have w: "extractDir fsys src dest s = put_all writeTemplate (targets dest es) s"
    by (rule extractDir_writes [OF assms])
  note clean = targets_clean [OF assms(4,5)]
  have "file_data s' (dest @ slash # n) = Some d"
    if "extractDir fsys src dest s = (None, s')" "EFile n d \<in> set es" for s' n d
    using os_files.put_all_get [OF that(1) [unfolded w] clean targets_distinct [OF assms(3)], of "dest @ slash # n" d] that(2)
    by (force simp: targets_def direct_files_iff)
  moreover have "os_Nodes s' q = os_Nodes s q"
    if "extractDir fsys src dest s = (None, s')" "q \<notin> (\<lambda>n. dest @ slash # n) ` fst ` set (direct_files es)" for s' q
    using touches_outside [OF put_all_touches [OF that(1) [unfolded w] clean], of q] that(2)
    by (force simp: targets_def)
  ultimately show ?thesis using w by (auto simp: targets_def)
qed

theorem extractDir_flat_witness:
  "\<exists>s'. extractDir (TemplateFs (\<lambda>p. p)) ''templates/ubuntu/24.04'' ''/tmp'' sampleMachine = (None, s') \<and>
     file_data s' ''/tmp/user-data'' = Some ''templates/ubuntu/24.04/user-data''"
proof -
  let ?files = "version_files (\<lambda>p. p) ''24.04''"
  have names: "distinct (map entryName ?files)" "\<forall>e \<in> set ?files. plainName (entryName e)"
    "EFile ''user-data'' ''templates/ubuntu/24.04/user-data'' \<in> set ?files"
    by (simp_all add: version_files_def plainName_def)
  have src: "''templates/ubuntu/24.04'' \<noteq> ''.''" by simp
  note flat = extractDir_flat [OF version_open(2) src names(1) sample_tmp names(2), of sampleMachine]
  have "\<forall>p \<in> fst ` set (targets ''/tmp'' ?files).
      cleanAbs p \<and> os_Nodes sampleMachine (parentOf p) = Some NDir \<and> os_Nodes sampleMachine p \<noteq> Some NDir"
  proof
    fix p
    assume p: "p \<in> fst ` set (targets ''/tmp'' ?files)"
    then obtain n where n: "p = ''/tmp'' @ slash # n" "n \<in> {''99-pve.cfg'', ''build.pkr.hcl'', ''meta-data'', ''user-data''}"
      unfolding version_targets(1) by (rule imageE)
    have "plainName n" using n(2) by (elim insertE emptyE; simp add: plainName_def)
    then have par: "parentOf p = ''/tmp''" unfolding n(1) by (intro parentOf_child) simp_all
    have clean: "cleanAbs p" by (rule bspec [OF targets_clean [OF sample_tmp names(2)] p])
    have "os_Nodes sampleMachine p \<noteq> Some NDir" unfolding n(1) by (simp add: sampleMachine_def)
    then show "cleanAbs p \<and> os_Nodes sampleMachine (parentOf p) = Some NDir \<and> os_Nodes sampleMachine p \<noteq> Some NDir"
      using clean par by simp
  qed
  from put_all_progress [OF this sample_machine(2)] obtain s' where
    "put_all writeTemplate (targets ''/tmp'' ?files) sampleMachine = (None, s')" by blast
  then have ok: "extractDir (TemplateFs (\<lambda>p. p)) ''templates/ubuntu/24.04'' ''/tmp'' sampleMachine = (None, s')"
    using flat [THEN conjunct1] by (simp add: targets_def)
  have "file_data s' (''/tmp'' @ slash # ''user-data'') = Some ''templates/ubuntu/24.04/user-data''"
    using flat [THEN conjunct2, rule_format, OF ok, THEN conjunct1] names(3) by blast
  with ok show ?thesis by simp
qed

lemma RunPacker_start:
  assumes tmp: "cleanAbs (os_TempDir s)" "os_Nodes s (os_TempDir s) = Some NDir" "no_faults s"
    and rnd: "\<forall>i. plainName (''pve-packer-'' @ rnd i)"
    and d: "d = os_TempDir s @ slash # ''pve-packer-'' @ rnd 0" "os_Nodes s d = None" "\<forall>q \<in> below d. os_Nodes s q = None"
    and pf: "plain_plugin pf" and v: "v \<in> {''22.04'', ''24.04''}"
    and bins: "embed_ReadFile bins (''bin/'' @ packerName pf) = Inr core"
      "embed_ReadFile bins (''bin/'' @ pluginName pf) = Inr plugin"
    and u: "u \<noteq> []" "file_data s (resolve s u) = Some cfg" "resolve s u \<notin> below d"
  shows "\<exists>s1. (\<forall>run. RunPacker up pf bins (TemplateFs blob) rnd run ''ubuntu'' u v s =
        run (d @ ''/packer'') [''build'', ''-force'', ''.''] d
          (os_Environ s @ [''PACKER_PLUGIN_PATH='' @ d @ ''/plugins'']) s1) \<and>
      laid_out pf bins blob v (Some cfg) d s1 \<and>
      (\<forall>q. q \<noteq> d \<longrightarrow> q \<notin> below d \<longrightarrow> os_Nodes s1 q = os_Nodes s q)"
proof -
  let ?ann = "announce ''ubuntu'' s" and ?made = "set_node d NDir (announce ''ubuntu'' s)"
  have c: "cleanAbs d" using path_Join_child(2) [OF tmp(1) rnd [rule_format]] d(1) by simp
  have par: "parentOf d = os_TempDir s"
    unfolding d(1) by (rule parentOf_child [OF cleanAbs_nonempty [OF tmp(1)] rnd [rule_format]])
  have nf: "os_Fault ?ann op p = None" for op p using tmp(3) by (simp add: no_faults_def)
  have name: "(os_TempDir s @ slash # ''pve-packer-'') @ rnd 0 = d" by (simp add: d(1))
  have k: "(10000 :: nat) = Suc 9999" by simp
  have r: "resolve x d = d" for x by (rule resolve_abs [OF c])
  have "mkdirTemp_loop (Suc 9999) rnd (os_TempDir s @ slash # ''pve-packer-'') 0 ?ann = (Inr d, ?made)"
    unfolding mkdirTemp_loop.simps Let_def name r
    using nf d(2) par tmp(2) by (simp add: os_Mkdir_def Let_def r create_error_def)
  then have mk: "os_MkdirTemp rnd ''pve-packer-'' ?ann = (Inr d, ?made)"
    unfolding os_MkdirTemp_def k announce_fields .
  have ne: "resolve s u \<noteq> d" using u(2) d(2) by (auto simp: file_data_def)
  have res0: "resolve ?made u = resolve s u" by simp
  have nb: "q \<noteq> d" if "q \<in> below d" for q using that not_below_self by blast
  have "\<exists>s7. populate up pf bins (TemplateFs blob) ''ubuntu'' u v d ?made = (None, s7)"
    by (rule populate_progress [OF c pf v bins _ _ _ u(1)])
      (use tmp(3) d(3) nb u(2,3) ne res0 in \<open>simp_all add: file_data_def\<close>)
  then obtain s7 where p: "populate up pf bins (TemplateFs blob) ''ubuntu'' u v d ?made = (None, s7)" ..
  have lay: "laid_out pf bins blob v (Some cfg) d s7"
    using populate_layout [OF c pf v _ p] u ne res0 by simp
  note env = populate_environ [OF c pf p]
  have j: "child d ''packer'' = d @ ''/packer''" "child d ''plugins'' = d @ ''/plugins''"
    using path_Join_child(1) [OF c] by simp_all
  have "RunPacker up pf bins (TemplateFs blob) rnd run ''ubuntu'' u v s =
      run (d @ ''/packer'') [''build'', ''-force'', ''.''] d
        (os_Environ s @ [''PACKER_PLUGIN_PATH='' @ d @ ''/plugins'']) s7" for run
    by (simp add: RunPacker_unpack unpack_def mk p j env(1))
  then show ?thesis using lay env(2) by (intro exI [of _ s7]) simp
qed

text \<open>
  Claim C12. On a machine without faults whose temporary directory is there, with embedded
  binaries, a known Ubuntu version and a readable variable file, \<open>RunPacker\<close> comes to start
  Packer: in a new directory that holds the two binaries, the hexadecimal SHA-256 sum of the
  plugin, the files of that version, the shared file and the user's variables, with the plugin
  path in the environment. It returns what the command returns, in the state the command leaves:
  nothing removes the directory, with the user's variables in it, afterwards.
\<close>

theorem RunPacker_lays_out:
  assumes tmp: "cleanAbs (os_TempDir s)" "os_Nodes s (os_TempDir s) = Some NDir" "no_faults s"
    and rnd: "\<forall>i. plainName (''pve-packer-'' @ rnd i)"
    and d: "d = os_TempDir s @ slash # ''pve-packer-'' @ rnd 0" "os_Nodes s d = None" "\<forall>q \<in> below d. os_Nodes s q = None"
    and pf: "plain_plugin pf" and v: "v \<in> {''22.04'', ''24.04''}"
    and bins: "embed_ReadFile bins (''bin/'' @ packerName pf) = Inr core"
      "embed_ReadFile bins (''bin/'' @ pluginName pf) = Inr plugin"
    and u: "u \<noteq> []" "file_data s (resolve s u) = Some cfg" "resolve s u \<notin> below d"
  shows "\<exists>s1. (\<forall>run. RunPacker up pf bins (TemplateFs blob) rnd run ''ubuntu'' u v s =
        run (d @ ''/packer'') [''build'', ''-force'', ''.''] d
          (os_Environ s @ [''PACKER_PLUGIN_PATH='' @ d @ ''/plugins'']) s1) \<and>
      laid_out pf bins blob v (Some cfg) d s1 \<and>
      (\<forall>q. q \<noteq> d \<longrightarrow> q \<notin> below d \<longrightarrow> os_Nodes s1 q = os_Nodes s q)"
  by (rule RunPacker_start [OF tmp rnd d pf v bins u])

theorem RunPacker_lays_out_witness:
  "\<exists>s1. RunPacker anyRune samplePlatform sampleBins (TemplateFs (\<lambda>p. p)) (\<lambda>i. ''17'') (\<lambda>c a d e s. (None, s))
       ''ubuntu'' ''/home/cfg.hcl'' ''24.04'' sampleMachine = (None, s1) \<and>
     laid_out samplePlatform sampleBins (\<lambda>p. p) ''24.04'' (Some ''vm_id = 9000'') ''/tmp/pve-packer-17'' s1"
proof -
  have d: "''/tmp/pve-packer-17'' = os_TempDir sampleMachine @ slash # ''pve-packer-'' @ ''17''"
    "os_Nodes sampleMachine ''/tmp/pve-packer-17'' = None"
    "\<forall>q \<in> below ''/tmp/pve-packer-17''. os_Nodes sampleMachine q = None"
    using sample_fresh by (simp_all add: sampleMachine_def)
  have u: "''/home/cfg.hcl'' \<noteq> []" "file_data sampleMachine (resolve sampleMachine ''/home/cfg.hcl'') = Some ''vm_id = 9000''"
    "resolve sampleMachine ''/home/cfg.hcl'' \<notin> below ''/tmp/pve-packer-17''"
    using sample_user by (simp_all add: sample_resolve below_def)
  have tmp: "cleanAbs (os_TempDir sampleMachine)" "os_Nodes sampleMachine (os_TempDir sampleMachine) = Some NDir"
    using sample_tmp by simp_all
  have v: "''24.04'' \<in> {''22.04'', ''24.04''}" by simp
  obtain s1 where
    "\<forall>run. RunPacker anyRune samplePlatform sampleBins (TemplateFs (\<lambda>p. p)) (\<lambda>i. ''17'') run ''ubuntu'' ''/home/cfg.hcl'' ''24.04'' sampleMachine =
        run (''/tmp/pve-packer-17'' @ ''/packer'') [''build'', ''-force'', ''.''] ''/tmp/pve-packer-17''
          (os_Environ sampleMachine @ [''PACKER_PLUGIN_PATH='' @ ''/tmp/pve-packer-17'' @ ''/plugins'']) s1"
    "laid_out samplePlatform sampleBins (\<lambda>p. p) ''24.04'' (Some ''vm_id = 9000'') ''/tmp/pve-packer-17'' s1"
    using RunPacker_lays_out [OF tmp sample_machine(2) sample_rnd d sample_plugin v sample_bins u, of anyRune "\<lambda>p. p"]
    by (elim exE conjE)
  then show ?thesis by (intro exI [of _ s1] conjI) (simp_all only:)
qed

text \<open>The seven steps that fill the directory \<open>d\<close>, each without error in the state the one before has left.\<close>

definition steps_ok ::
    "platform \<Rightarrow> entry list \<Rightarrow> entry list \<Rightarrow> string \<Rightarrow> string \<Rightarrow> string \<Rightarrow> string \<Rightarrow> os_state \<Rightarrow> os_state \<Rightarrow> bool" where
  "steps_ok pf bins fsys t u v d s0 s7 \<longleftrightarrow> (\<exists>s1 s2 s3 s4 s5 s6.
     extractFile bins (path_Join [d, ''packer'']) (''bin/'' @ packerName pf) s0 = (None, s1) \<and>
     os_MkdirAll (pluginDir d) s1 = (None, s2) \<and>
     extractFile bins (path_Join [pluginDir d, pluginFile pf]) (''bin/'' @ pluginName pf) s2 = (None, s3) \<and>
     writePluginChecksum (path_Join [pluginDir d, pluginFile pf]) s3 = (None, s4) \<and>
     extractDir fsys (path_Join [embeddedRootDir, t @ ''/'' @ v]) d s4 = (None, s5) \<and>
     extractDir fsys embeddedRootDir d s5 = (None, s6) \<and>
     copyFile u (path_Join [d, ''user.auto.pkrvars.hcl'']) 0x180 s6 = (None, s7))"

lemma populate_steps_ok: "populate up pf bins fsys t u v d s = (None, s7) \<Longrightarrow> steps_ok pf bins fsys t u v d s s7"
  by (erule populate_steps) (unfold steps_ok_def, blast)

text \<open>
  Claim C27. Whatever template name, version and variable file are given, everything that
  \<open>RunPacker\<close> changes before it starts the command is one new directory and what is below it:
  path tricks in the arguments cannot reach outside. Either it returns an error whatever the
  command is, and then it has changed nothing or made that directory; or it starts the command in
  it, and then every one of the seven steps before has returned no error, each in the state the
  one before has left. So if a step fails, the command is never run.
\<close>

theorem RunPacker_confined:
  assumes tmp: "cleanAbs (os_TempDir s)" and rnd: "\<forall>i. plainName (''pve-packer-'' @ rnd i)"
    and pf: "plain_plugin pf"
  shows "(\<exists>err s1. os_Nodes s1 = os_Nodes s \<and>
      (\<forall>run. RunPacker up pf bins fsys rnd run t u v s = (Some err, s1))) \<or>
    (\<exists>j d s0 s7. d = os_TempDir s @ ''/pve-packer-'' @ rnd j \<and> os_Nodes s d = None \<and>
      os_Nodes s0 = (os_Nodes s)(d \<mapsto> NDir) \<and> os_Nodes s7 d = Some NDir \<and>
      (\<forall>q. q \<noteq> d \<longrightarrow> q \<notin> below d \<longrightarrow> os_Nodes s7 q = os_Nodes s q) \<and>
      ((\<exists>err. \<forall>run. RunPacker up pf bins fsys rnd run t u v s = (Some err, s7)) \<or>
       (steps_ok pf bins fsys t u v d s0 s7 \<and>
        (\<forall>run. RunPacker up pf bins fsys rnd run t u v s = run (d @ ''/packer'') [''build'', ''-force'', ''.''] d
            (os_Environ s @ [''PACKER_PLUGIN_PATH='' @ d @ ''/plugins'']) s7))))"
  using tmp rnd
proof (cases rule: RunPacker_cases [where up = up and pf = pf and bins = bins and fsys = fsys and t = t and u = u and v = v])
  case (no_dir err)
  then show ?thesis by (intro disjI1 exI [of _ err] exI [of _ "announce t s"]) simp
next
  case (failed j d s7 err)
  note env = populate_environ [OF failed(2) pf failed(4)]
  show ?thesis
    by (intro disjI2 exI [of _ j] exI [of _ d] exI [of _ "set_node d NDir (announce t s)"] exI [of _ s7])
      (use failed(1,3,5) env in \<open>simp add: set_node_def\<close>)
next
  case (started j d s7)
  note env = populate_environ [OF started(2) pf started(4)]
  have p: "child d ''packer'' = d @ ''/packer''" "child d ''plugins'' = d @ ''/plugins''"
    using path_Join_child(1) [OF started(2)] by simp_all
  have run: "\<forall>run. RunPacker up pf bins fsys rnd run t u v s = run (d @ ''/packer'') [''build'', ''-force'', ''.''] d
      (os_Environ s @ [''PACKER_PLUGIN_PATH='' @ d @ ''/plugins'']) s7"
    using started(5) env p by simp
  show ?thesis
    by (intro disjI2 exI [of _ j] exI [of _ d] exI [of _ "set_node d NDir (announce t s)"] exI [of _ s7])
      (use started(1,3) env(2,3) run populate_steps_ok [OF started(4)] in \<open>simp add: set_node_def\<close>)
qed

theorem RunPacker_confined_witness:
  "\<exists>s7. (\<exists>run. snd (RunPacker anyRune samplePlatform sampleBins (TemplateFs (\<lambda>p. p)) (\<lambda>i. ''17'') run
       ''../../etc'' ''/home/cfg.hcl'' ''passwd'' sampleMachine) = s7) \<and>
     os_Nodes s7 ''/home/cfg.hcl'' = Some (NFile ''vm_id = 9000'' 0x180)"
proof -
  let ?run = "\<lambda>run. RunPacker anyRune samplePlatform sampleBins (TemplateFs (\<lambda>p. p)) (\<lambda>i. ''17'') run
       ''../../etc'' ''/home/cfg.hcl'' ''passwd'' sampleMachine"
  have tmp: "cleanAbs (os_TempDir sampleMachine)" using sample_tmp by simp
  have "\<exists>s7. os_Nodes s7 ''/home/cfg.hcl'' = os_Nodes sampleMachine ''/home/cfg.hcl'' \<and>
      ((\<exists>err. \<forall>run. ?run run = (Some err, s7)) \<or> (\<exists>c a d e. \<forall>run. ?run run = run c a d e s7))"
    using RunPacker_confined [OF tmp sample_rnd sample_plugin, of anyRune sampleBins "TemplateFs (\<lambda>p. p)"
        "''../../etc''" "''/home/cfg.hcl''" "''passwd''"]
  proof (elim disjE exE conjE)
    fix err s1
    assume "os_Nodes s1 = os_Nodes sampleMachine" "\<forall>run. ?run run = (Some err, s1)"
    then show ?thesis by (intro exI [of _ s1] conjI disjI1 exI [of _ err]) simp_all
  next
    fix j d s0 s7 err
    assume d: "d = os_TempDir sampleMachine @ ''/pve-packer-'' @ ''17''"
      "\<forall>q. q \<noteq> d \<longrightarrow> q \<notin> below d \<longrightarrow> os_Nodes s7 q = os_Nodes sampleMachine q" "\<forall>run. ?run run = (Some err, s7)"
    have "os_Nodes s7 ''/home/cfg.hcl'' = os_Nodes sampleMachine ''/home/cfg.hcl''"
      using d(2) unfolding d(1) by (simp add: below_def)
    with d(3) show ?thesis by (intro exI [of _ s7] conjI disjI1 exI [of _ err])
  next
    fix j d s0 s7
    assume d: "d = os_TempDir sampleMachine @ ''/pve-packer-'' @ ''17''"
      "\<forall>q. q \<noteq> d \<longrightarrow> q \<notin> below d \<longrightarrow> os_Nodes s7 q = os_Nodes sampleMachine q"
      "\<forall>run. ?run run = run (d @ ''/packer'') [''build'', ''-force'', ''.''] d
            (os_Environ sampleMachine @ [''PACKER_PLUGIN_PATH='' @ d @ ''/plugins'']) s7"
    have "os_Nodes s7 ''/home/cfg.hcl'' = os_Nodes sampleMachine ''/home/cfg.hcl''"
      using d(2) unfolding d(1) by (simp add: below_def)
    with d(3) show ?thesis
      by (intro exI [of _ s7] conjI disjI2 exI [of _ "d @ ''/packer''"] exI [of _ "[''build'', ''-force'', ''.'']"]
          exI [of _ d] exI [of _ "os_Environ sampleMachine @ [''PACKER_PLUGIN_PATH='' @ d @ ''/plugins'']"])
  qed
  then obtain s7 where s7: "os_Nodes s7 ''/home/cfg.hcl'' = os_Nodes sampleMachine ''/home/cfg.hcl''"
    "(\<exists>err. \<forall>run. ?run run = (Some err, s7)) \<or> (\<exists>c a d e. \<forall>run. ?run run = run c a d e s7)" by blast
  from s7(2) have "\<exists>run. snd (?run run) = s7"
    by (elim disjE exE) (rule exI [of _ "\<lambda>c a d e s. (None, s)"], simp)+
  with s7(1) show ?thesis by (intro exI [of _ s7]) (simp add: sample_node)
qed

text \<open>The draws of \<open>os.MkdirTemp\<close>: the first name that is free, if there is one in time.\<close>

lemma mkdirTemp_loop_first:
  assumes "no_faults s" and "\<forall>i. cleanAbs (pre @ rnd i) \<and> os_Nodes s (parentOf (pre @ rnd i)) = Some NDir"
  shows "mkdirTemp_loop k rnd pre i s =
    (case List.find (\<lambda>j. os_Nodes s (pre @ rnd j) = None) [i..<i + k] of
       None \<Rightarrow> (Inl (path_error ''mkdirtemp'' (pre @ ''*'') ''file exists''), s)
     | Some j \<Rightarrow> (Inr (pre @ rnd j), set_node (pre @ rnd j) NDir s))"
proof (induction k arbitrary: i)
  case (Suc k)
  have r: "resolve s (pre @ rnd i) = pre @ rnd i" using assms(2) by (simp add: resolve_abs)
  have u: "[i..<i + Suc k] = i # [Suc i..<Suc i + k]" by (simp add: upt_conv_Cons)
  have f: "os_Fault s op p = None" for op p using assms(1) by (simp add: no_faults_def)
  show ?case
  proof (cases "os_Nodes s (pre @ rnd i) = None")
    case True
    then have "os_Mkdir (pre @ rnd i) s = (None, set_node (pre @ rnd i) NDir s)"
      using assms(2) by (simp add: os_Mkdir_def Let_def r f create_error_def)
    then show ?thesis unfolding u using True by (simp add: Let_def r del: upt_Suc)
  next
    case False
    then show ?thesis unfolding u using Suc.IH [of "Suc i"] by (auto simp: Let_def r f simp del: upt_Suc)
  qed
qed simp

text \<open>
  Claim C37. The search for a new directory ends: the names are tried in the order they are drawn,
  the first free one of ten thousand is the directory that everything then happens in, and when
  all of them are taken \<open>RunPacker\<close> returns an error, has changed no file and runs nothing.
\<close>

theorem RunPacker_temp_dir:
  assumes tmp: "cleanAbs (os_TempDir s)" "os_Nodes s (os_TempDir s) = Some NDir" "no_faults s"
    and rnd: "\<forall>i. plainName (''pve-packer-'' @ rnd i)" and pf: "plain_plugin pf"
  shows "case List.find (\<lambda>i. os_Nodes s (os_TempDir s @ ''/pve-packer-'' @ rnd i) = None) [0..<10000] of
      None \<Rightarrow> (\<exists>s1 cause. os_Nodes s1 = os_Nodes s \<and>
        (\<forall>run. RunPacker up pf bins fsys rnd run t u v s = (Some (Wrap ''failed to create temp dir'' cause), s1)))
    | Some i \<Rightarrow> (let d = os_TempDir s @ ''/pve-packer-'' @ rnd i in
        \<exists>s1. os_Nodes s1 d = Some NDir \<and> (\<forall>q. q \<noteq> d \<longrightarrow> q \<notin> below d \<longrightarrow> os_Nodes s1 q = os_Nodes s q) \<and>
          ((\<exists>err. \<forall>run. RunPacker up pf bins fsys rnd run t u v s = (Some err, s1)) \<or>
           (\<exists>env. \<forall>run. RunPacker up pf bins fsys rnd run t u v s =
              run (d @ ''/packer'') [''build'', ''-force'', ''.''] d env s1)))"
proof -
  define pre where "pre = os_TempDir s @ slash # ''pve-packer-''"
  let ?a = "announce t s"
  have name: "os_TempDir s @ ''/pve-packer-'' @ rnd i = pre @ rnd i" for i by (simp add: pre_def)
  have c: "cleanAbs (pre @ rnd i)" for i
    using path_Join_child(2) [OF tmp(1) rnd [rule_format]] by (simp add: pre_def)
  have "parentOf (pre @ rnd i) = os_TempDir s" for i
    using parentOf_child [OF cleanAbs_nonempty [OF tmp(1)] rnd [rule_format, of i]] by (simp add: pre_def)
  then have ok: "\<forall>i. cleanAbs (pre @ rnd i) \<and> os_Nodes ?a (parentOf (pre @ rnd i)) = Some NDir"
    using c tmp(2) by simp
  have nf: "no_faults ?a" using tmp(3) by simp
  have m: "os_MkdirTemp rnd ''pve-packer-'' ?a =
      (case List.find (\<lambda>j. os_Nodes s (pre @ rnd j) = None) [0..<10000] of
         None \<Rightarrow> (Inl (path_error ''mkdirtemp'' (pre @ ''*'') ''file exists''), ?a)
       | Some j \<Rightarrow> (Inr (pre @ rnd j), set_node (pre @ rnd j) NDir ?a))"
    unfolding os_MkdirTemp_def announce_fields pre_def [symmetric] mkdirTemp_loop_first [OF nf ok] add_0 ..
  show ?thesis
  proof (cases "List.find (\<lambda>j. os_Nodes s (pre @ rnd j) = None) [0..<10000]")
    case None
    have "RunPacker up pf bins fsys rnd run t u v s =
        (Some (Wrap ''failed to create temp dir'' (path_error ''mkdirtemp'' (pre @ ''*'') ''file exists'')), ?a)" for run
      unfolding RunPacker_unpack unpack_def m None option.case prod.case sum.case ..
    then show ?thesis unfolding name None option.case
      by (intro exI [of _ ?a] exI [of _ "path_error ''mkdirtemp'' (pre @ ''*'') ''file exists''"] conjI allI) simp_all
  next
    case (Some j)
    let ?d = "pre @ rnd j"
    obtain e s1 where p: "populate up pf bins fsys t u v ?d (set_node ?d NDir ?a) = (e, s1)" by fastforce
    note env = populate_environ [OF c pf p]
    have child: "child ?d ''packer'' = ?d @ ''/packer''" using path_Join_child(1) [OF c] by simp
    have r: "RunPacker up pf bins fsys rnd run t u v s = (case e of Some err \<Rightarrow> (Some err, s1)
        | None \<Rightarrow> run (?d @ ''/packer'') [''build'', ''-force'', ''.''] ?d
            (os_Environ s1 @ [''PACKER_PLUGIN_PATH='' @ child ?d ''plugins'']) s1)" for run
      unfolding RunPacker_unpack unpack_def m Some option.case prod.case sum.case p
      by (cases e) (simp_all add: child)
    have "(\<exists>err. \<forall>run. RunPacker up pf bins fsys rnd run t u v s = (Some err, s1)) \<or>
        (\<exists>env. \<forall>run. RunPacker up pf bins fsys rnd run t u v s =
           run (?d @ ''/packer'') [''build'', ''-force'', ''.''] ?d env s1)"
      unfolding r by (cases e) auto
    then show ?thesis unfolding name Some option.case Let_def
      using env(2,3) by (intro exI [of _ s1] conjI allI impI) simp_all
  qed
qed

theorem RunPacker_temp_dir_witness:
  "\<exists>s1. os_Nodes s1 ''/tmp/pve-packer-17'' = Some NDir \<and>
     ((\<exists>err. RunPacker anyRune samplePlatform sampleBins (TemplateFs (\<lambda>p. p)) (\<lambda>i. ''17'') (\<lambda>c a d e s. (None, s))
        ''ubuntu'' ''/home/cfg.hcl'' ''24.04'' sampleMachine = (Some err, s1)) \<or>
      RunPacker anyRune samplePlatform sampleBins (TemplateFs (\<lambda>p. p)) (\<lambda>i. ''17'') (\<lambda>c a d e s. (None, s))
        ''ubuntu'' ''/home/cfg.hcl'' ''24.04'' sampleMachine = (None, s1))"
proof -
  have tmp: "cleanAbs (os_TempDir sampleMachine)" "os_Nodes sampleMachine (os_TempDir sampleMachine) = Some NDir"
    using sample_tmp by simp_all
  have "os_Nodes sampleMachine ''/tmp/pve-packer-17'' = None" by (simp add: sampleMachine_def)
  then have f: "List.find (\<lambda>i. os_Nodes sampleMachine (os_TempDir sampleMachine @ ''/pve-packer-'' @ ''17'') = None) [0..<10000]
      = Some 0"
    by (subst upt_conv_Cons) simp_all
  let ?run = "\<lambda>run. RunPacker anyRune samplePlatform sampleBins (TemplateFs (\<lambda>p. p)) (\<lambda>i. ''17'') run
        ''ubuntu'' ''/home/cfg.hcl'' ''24.04'' sampleMachine"
  have d: "os_TempDir sampleMachine @ ''/pve-packer-'' @ ''17'' = ''/tmp/pve-packer-17''" by simp
  obtain s1 where s1: "os_Nodes s1 ''/tmp/pve-packer-17'' = Some NDir"
    "(\<exists>err. \<forall>run. ?run run = (Some err, s1)) \<or>
     (\<exists>env. \<forall>run. ?run run = run (''/tmp/pve-packer-17'' @ ''/packer'') [''build'', ''-force'', ''.''] ''/tmp/pve-packer-17'' env s1)"
    using RunPacker_temp_dir [OF tmp sample_machine(2) sample_rnd sample_plugin, of anyRune sampleBins
        "TemplateFs (\<lambda>p. p)" "''ubuntu''" "''/home/cfg.hcl''" "''24.04''", unfolded f option.case Let_def, unfolded d]
    by (elim exE conjE)
  from s1(2) have "(\<exists>err. ?run (\<lambda>c a d e s. (None, s)) = (Some err, s1)) \<or> ?run (\<lambda>c a d e s. (None, s)) = (None, s1)"
    by (elim disjE exE) simp_all
  with s1(1) show ?thesis by (intro exI [of _ s1] conjI)
qed

text \<open>
  A template or version that is not embedded is an error before anything is run: no
  command, whatever it is, is started.
\<close>

theorem RunPacker_unknown_version:
  assumes tmp: "cleanAbs (os_TempDir s)" and rnd: "\<forall>i. plainName (''pve-packer-'' @ rnd i)"
    and unknown: "embed_Open fsys (path_Join [''templates'', t @ ''/'' @ v]) = Inl e"
  shows "\<exists>err s1. \<forall>run. RunPacker up pf bins fsys rnd run t u v s = (Some err, s1)"
  using tmp rnd
proof (cases rule: RunPacker_cases [where up = up and pf = pf and bins = bins and fsys = fsys and t = t and u = u and v = v])
  case (no_dir err)
  then show ?thesis by blast
next
  case (failed j d s1 err)
  then show ?thesis by blast
next
  case (started j d s1)
  from started(4) obtain s4 s5 where "extractDir fsys (path_Join [embeddedRootDir, t @ ''/'' @ v]) d s4 = (None, s5)"
    by (rule populate_steps)
  then show ?thesis using extractDir_missing [OF unknown] by (simp add: embeddedRootDir_def)
qed

theorem RunPacker_unknown_version_witness:
  "\<exists>err s1. \<forall>run. RunPacker anyRune samplePlatform sampleBins (TemplateFs (\<lambda>p. p)) (\<lambda>i. ''17'') run
     ''ubuntu'' ''/home/cfg.hcl'' ''26.04'' sampleMachine = (Some err, s1)"
proof -
  have p: "path_Join [''templates'', ''ubuntu/26.04''] = ''templates/ubuntu/26.04''"
    "splitOn slash ''templates/ubuntu/26.04'' = [''templates'', ''ubuntu'', ''26.04'']" by code_simp+
  have "embed_Open (TemplateFs (\<lambda>p. p)) ''templates/ubuntu/26.04'' =
      Inl (Err (''open '' @ ''templates/ubuntu/26.04'' @ '': file does not exist''))"
    by (simp only: embed_Open_def fs_ValidPath_def p Let_def) (simp add: TemplateFs_def)
  then have "embed_Open (TemplateFs (\<lambda>p. p)) (path_Join [''templates'', ''ubuntu'' @ ''/'' @ ''26.04'']) =
      Inl (Err (''open '' @ ''templates/ubuntu/26.04'' @ '': file does not exist''))"
    by (simp add: p)
  from RunPacker_unknown_version [OF _ _ this, of sampleMachine "\<lambda>i. ''17''"] show ?thesis
    using sample_tmp sample_rnd unfolding sample_machine(1) by blast
qed

text \<open>
  With an empty version the template directory itself is extracted: it lists only
  directories, so no file of any version is written, and no error is reported.
\<close>

theorem extractDir_empty_version:
  "extractDir (TemplateFs blob) (path_Join [embeddedRootDir, ''ubuntu'' @ ''/'' @ '''']) dest s = (None, s)"
proof -
  have p: "path_Join [''templates'', ''ubuntu/''] = ''templates/ubuntu''"
    "splitOn slash ''templates/ubuntu'' = [''templates'', ''ubuntu'']"
    "path_Join [''templates/ubuntu'', ''22.04''] = ''templates/ubuntu/22.04''"
    "path_Join [''templates/ubuntu'', ''24.04''] = ''templates/ubuntu/24.04''" by code_simp+
  have "\<exists>a b. embed_Open (TemplateFs blob) ''templates/ubuntu'' = Inr (EDir ''ubuntu'' [EDir ''22.04'' a, EDir ''24.04'' b])"
    by (simp only: embed_Open_def fs_ValidPath_def p Let_def) (simp add: TemplateFs_def)
  then obtain a b where o: "embed_Open (TemplateFs blob) ''templates/ubuntu'' = Inr (EDir ''ubuntu'' [EDir ''22.04'' a, EDir ''24.04'' b])"
    by blast
  have src: "path_Join [embeddedRootDir, ''ubuntu'' @ ''/'' @ ''''] = ''templates/ubuntu''"
    by (simp add: embeddedRootDir_def p)
  show ?thesis
    unfolding src extractDir_def fs_WalkDir_def o
    by (simp add: extractDir_visit_def p)
qed

text \<open>
  When \<open>writePluginChecksum\<close> succeeds, the companion file holds the 64 hexadecimal
  digits of the SHA-256 sum of the bytes of the plugin as they are on disk, and the plugin is
  unchanged; whatever the outcome, no other file is touched.
\<close>

theorem writePluginChecksum_matches:
  assumes "writePluginChecksum p s = (e, s')" "cleanAbs p" "cleanAbs (p @ ''_SHA256SUM'')"
  shows "(\<forall>q. q \<noteq> p @ ''_SHA256SUM'' \<longrightarrow> os_Nodes s' q = os_Nodes s q) \<and>
    (e = None \<longrightarrow> (\<exists>data sum. file_data s p = Some data \<and> file_data s' p = Some data \<and>
       file_data s' (p @ ''_SHA256SUM'') = Some sum \<and> length sum = 64 \<and>
       sum = hex_EncodeToString (sha256_Sum256 data)))"
proof (intro conjI allI impI)
  show "os_Nodes s' q = os_Nodes s q" if "q \<noteq> p @ ''_SHA256SUM''" for q
    using touches_outside [OF writePluginChecksum_touches [OF assms(1,3)], of q] that by simp
  assume "e = None"
  then show "\<exists>data sum. file_data s p = Some data \<and> file_data s' p = Some data \<and>
       file_data s' (p @ ''_SHA256SUM'') = Some sum \<and> length sum = 64 \<and>
       sum = hex_EncodeToString (sha256_Sum256 data)"
    using writePluginChecksum_ok [OF _ assms(2,3)] assms(1) by fastforce
qed

theorem writePluginChecksum_matches_witness:
  "os_Nodes (snd (writePluginChecksum ''/home/cfg.hcl'' sampleMachine)) ''/tmp'' = Some NDir"
proof -
  have c: "cleanAbs ''/home/cfg.hcl''" "cleanAbs (''/home/cfg.hcl'' @ ''_SHA256SUM'')"
    unfolding cleanAbs_def
    by (intro exI [of _ "[''home'', ''cfg.hcl'']"], simp add: plainName_def,
        intro exI [of _ "[''home'', ''cfg.hcl_SHA256SUM'']"], simp add: plainName_def)
  obtain e s' where w: "writePluginChecksum ''/home/cfg.hcl'' sampleMachine = (e, s')" by fastforce
  from writePluginChecksum_matches [OF w c] w show ?thesis by simp
qed

text \<open>
  \<open>copyFile\<close> copies: when it succeeds the destination holds the bytes the source had,
  unless both names are the same file, which is then left empty; nothing else is touched.
\<close>

theorem copyFile_copies:
  assumes "copyFile src dst mode s = (e, s')"
  shows "(\<forall>q. q \<noteq> resolve s dst \<longrightarrow> os_Nodes s' q = os_Nodes s q) \<and>
    (e = None \<longrightarrow>
      (if resolve s src = resolve s dst then file_data s' (resolve s dst) = Some []
       else \<exists>data. file_data s (resolve s src) = Some data \<and> file_data s' (resolve s dst) = Some data))"
  using copyFile_ok touches_outside [OF copyFile_touches [OF assms]] assms
  by (cases e) fastforce+

theorem copyFile_copies_witness:
  "file_data (snd (copyFile ''/home/cfg.hcl'' ''/home/cfg.hcl'' 0x180 sampleMachine)) ''/home/cfg.hcl'' = Some []"
proof -
  have c: "copyFile ''/home/cfg.hcl'' ''/home/cfg.hcl'' 0x180 sampleMachine =
      (None, set_node ''/home/cfg.hcl'' (NFile [] 0x180) sampleMachine)"
    by (simp add: copyFile_def os_Open_def os_OpenTrunc_def os_Read_def Let_def sample_resolve sample_node if_ok_def)
  from copyFile_copies [OF this] show ?thesis using c by (simp add: sample_resolve)
qed

end
