(* ===== verification/Cluster_Init.thy ===== *)
theory Cluster_Init
  imports Packer_Properties
begin

text \<open>
  \<open>cmd/cluster-init\<close>: the config template, the commands \<open>init\<close> and \<open>build\<close> and the exit code
  of the program. Parsing the command line is cobra's; the commands get the values of their
  flags, and \<open>requiredFlags\<close> are the ones cobra refuses to run \<open>build\<close> without.
\<close>

section \<open>The config template\<close>

text \<open>Two characters of the template are not ASCII; these are their UTF-8 bytes.\<close>

definition boxDrawing :: string where
  "boxDrawing = [CHR 0xE2, CHR 0x94, CHR 0x80]"

definition emDash :: string where
  "emDash = [CHR 0xE2, CHR 0x80, CHR 0x94]"

definition ruleLine :: string where
  "ruleLine = ''# '' @ concat (replicate 78 boxDrawing)"

definition configLines :: "string list" where
  "configLines = [
    ''# cluster-init configuration'',
    ''# Fill in the values below, then run:'',
    ''#   cluster-init build -c <path-to-this-file>'',
    '''',
    ruleLine,
    ''# Proxmox connection'',
    ruleLine,
    ''proxmox_node             = \"pve\"'',
    ''proxmox_api_url          = \"https://pve.example.com:8006/api2/json\"'',
    ''proxmox_api_token_id     = \"packer@pve!bootstrap\"'',
    ''proxmox_api_token_secret = \"your-token-uuid-here\"'',
    '''',
    ruleLine,
    ''# Target Proxmox node & storage'',
    ruleLine,
    ''storage_pool            = \"local\"'',
    '''',
    ''# Storage pool to store the downloaded ISO. Defaults to storage_pool if not set.'',
    ''# iso_storage_pool      = \"local\"'',
    '''',
    ruleLine,
    ''# Boot ISO '' @ emDash @ '' provide EITHER iso_file OR (iso_url + iso_checksum), not both.'',
    ruleLine,
    '''',
    ''# Option 1: path to pre-uploaded ISO on the Proxmox node.'',
    ''iso_file = \"local:iso/ubuntu-24.04-live-server-amd64.iso\"'',
    '''',
    ''# Option 2: ISO downloaded by Packer at build time.'',
    ''iso_url          = \"https://releases.ubuntu.com/24.04/ubuntu-24.04-live-server-amd64.iso\"'',
    '''',
    ''## iso_checksum can be a raw SHA256 hash or'',
    ''## a URL with \"file:\" prefix pointing to a file containing the hash.'',
    ''## Defaults to none.'',
    ''iso_checksum     = \"file:https://releases.ubuntu.com/24.04/SHA256SUMS\"'',
    '''',
    '''',
    '''',
    ruleLine,
    ''# Disk'',
    ruleLine,
    ''disk_format = \"qcow2\"'',
    '''',
    ruleLine,
    ''# Network - for VM network access during build. This should be a bridge with internet access,'',
    ''# but it doesn't have to be the same one used by the final cluster VMs.'',
    ruleLine,
    ''network_bridge = \"vmbr0\"'',
    '''',
    ''# Optional VLAN tag for the network interface. Defaults to untagged if not set.'',
    ''# network_vlan_tag = \"20\"'',
    '''',
    ruleLine,
    ''# VM Settings'',
    ruleLine,
    ''vm_id = 9000'',
    '''',
    ''# IANA timezone'',
    ''timezone = \"UTC\"'',
    '''',
    ruleLine,
    ''# Template settings'',
    ruleLine,
    ''template_name = \"ubuntu-2404-live-server\"'',
    ''template_description = \"Ubuntu 24.04 LTS live server template for karpenter-provider-pve\"'']"

definition configTemplate :: string where
  "configTemplate = concat (map (\<lambda>l. l @ [CHR 0x0A]) configLines)"

section \<open>The commands\<close>

definition initCmd :: "string \<Rightarrow> os_state \<Rightarrow> go_error option \<times> os_state" where
  "initCmd outPutName s =
     (if outPutName = '''' then print_stdout configTemplate s
      else
        (let outPutNameWithExt = outPutName @ ''.pkrvars.hcl''
         in case os_WriteFile outPutNameWithExt configTemplate 0x180 s of
              (Some err, s) \<Rightarrow> (Some (Wrap ''write config template'' err), s)
            | (None, s) \<Rightarrow>
                (None, print_stderr (''Wrote config template to '' @ outPutNameWithExt @ [CHR 0x0A]) s)))"

text \<open>
  The flags of \<open>build\<close>: the variables with their defaults, and the ones marked as required.
  \<open>given\<close> is the list of flags on the command line with their values; a later one overrides an
  earlier one.
\<close>

record build_flags =
  configPath :: string
  templateName :: string
  osVersion :: string

definition defaultBuildFlags :: build_flags where
  "defaultBuildFlags = \<lparr>configPath = '''', templateName = ''ubuntu'', osVersion = ''''\<rparr>"

definition requiredFlags :: "string list" where
  "requiredFlags = [''config'', ''template'', ''os-version'']"

definition set_flag :: "string \<times> string \<Rightarrow> build_flags \<Rightarrow> build_flags" where
  "set_flag g flags =
     (if fst g = ''config'' then flags\<lparr>configPath := snd g\<rparr>
      else if fst g = ''template'' then flags\<lparr>templateName := snd g\<rparr>
      else if fst g = ''os-version'' then flags\<lparr>osVersion := snd g\<rparr>
      else flags)"

definition parsedFlags :: "(string \<times> string) list \<Rightarrow> build_flags" where
  "parsedFlags given = fold set_flag given defaultBuildFlags"

definition missingFlags :: "(string \<times> string) list \<Rightarrow> string list" where
  "missingFlags given = filter (\<lambda>n. n \<notin> fst ` set given) requiredFlags"

definition buildCmd ::
    "(nat \<Rightarrow> bool) \<Rightarrow> platform \<Rightarrow> entry list \<Rightarrow> entry list \<Rightarrow> (nat \<Rightarrow> string) \<Rightarrow> command
       \<Rightarrow> build_flags \<Rightarrow> os_state \<Rightarrow> go_error option \<times> os_state" where
  "buildCmd up pf bins fsys rnd run flags s =
     (case os_Stat (configPath flags) s of
        Some err \<Rightarrow> (Some (Wrap ''config file'' err), s)
      | None \<Rightarrow> RunPacker up pf bins fsys rnd run (templateName flags) (configPath flags) (osVersion flags) s)"

text \<open>
  What cobra makes of the command line: one of the two commands with its flags, or an error of its
  own. Before it runs \<open>build\<close> it checks the required flags; \<open>refuse\<close> is its error for the missing
  ones. \<open>main\<close> returns the exit code.
\<close>

datatype invocation = Init string | Build "(string \<times> string) list" | Refused go_error

definition root_Execute ::
    "(string list \<Rightarrow> go_error) \<Rightarrow> (nat \<Rightarrow> bool) \<Rightarrow> platform \<Rightarrow> entry list \<Rightarrow> entry list \<Rightarrow> (nat \<Rightarrow> string)
       \<Rightarrow> command \<Rightarrow> invocation \<Rightarrow> os_state \<Rightarrow> go_error option \<times> os_state" where
  "root_Execute refuse up pf bins fsys rnd run call s =
     (case call of
        Init name \<Rightarrow> initCmd name s
      | Build given \<Rightarrow>
          (if missingFlags given \<noteq> [] then (Some (refuse (missingFlags given)), s)
           else buildCmd up pf bins fsys rnd run (parsedFlags given) s)
      | Refused err \<Rightarrow> (Some err, s))"

definition cluster_init_main ::
    "(string list \<Rightarrow> go_error) \<Rightarrow> (nat \<Rightarrow> bool) \<Rightarrow> platform \<Rightarrow> entry list \<Rightarrow> entry list \<Rightarrow> (nat \<Rightarrow> string)
       \<Rightarrow> command \<Rightarrow> invocation \<Rightarrow> os_state \<Rightarrow> nat \<times> os_state" where
  "cluster_init_main refuse up pf bins fsys rnd run call s =
     (case root_Execute refuse up pf bins fsys rnd run call s of
        (Some err, s) \<Rightarrow> (1, s)
      | (None, s) \<Rightarrow> (0, s))"

section \<open>The lines of the template\<close>

lemma splitOn_terminated:
  "\<forall>l \<in> set ls. x \<notin> set l \<Longrightarrow> splitOn x (concat (map (\<lambda>l. l @ [x]) ls)) = ls @ [[]]"
  by (induction ls) (simp_all add: splitOn_append)

lemma configLines_no_newline: "\<forall>l \<in> set configLines. CHR 0x0A \<notin> set l"
  by (simp add: configLines_def ruleLine_def boxDrawing_def emDash_def)

section \<open>Lemmas\<close>

text \<open>The flags that \<open>build\<close> runs with are the last values given for each.\<close>

lemma parsedFlags_given:
  "fold set_flag given flags =
     \<lparr>configPath = (case map_of (rev given) ''config'' of Some v \<Rightarrow> v | None \<Rightarrow> configPath flags),
      templateName = (case map_of (rev given) ''template'' of Some v \<Rightarrow> v | None \<Rightarrow> templateName flags),
      osVersion = (case map_of (rev given) ''os-version'' of Some v \<Rightarrow> v | None \<Rightarrow> osVersion flags)\<rparr>"
  by (induction given rule: rev_induct) (auto simp: set_flag_def split: option.split)

lemma missingFlags_none:
  "missingFlags given = [] \<longleftrightarrow> (\<forall>n \<in> set requiredFlags. \<exists>v. map_of (rev given) n = Some v)"
proof -
  have "n \<in> fst ` set given \<longleftrightarrow> (\<exists>v. map_of (rev given) n = Some v)" for n
    using map_of_eq_None_iff [of "rev given" n] by auto
  then show ?thesis by (simp add: missingFlags_def filter_empty_conv)
qed

lemma print_stdout_nodes: "print_stdout t s = (e, s') \<Longrightarrow> os_Nodes s' = os_Nodes s"
  by (auto simp: print_stdout_def split: option.splits)

lemma print_stderr_fields [simp]:
  "os_Nodes (print_stderr t s) = os_Nodes s" "os_TempDir (print_stderr t s) = os_TempDir s"
  "os_Environ (print_stderr t s) = os_Environ s" "os_Stdout (print_stderr t s) = os_Stdout s"
  "os_Fault (print_stderr t s) = os_Fault s"
  "resolve (print_stderr t s) p = resolve s p" "no_faults (print_stderr t s) = no_faults s"
  "file_data (print_stderr t s) q = file_data s q"
  by (simp_all add: print_stderr_def resolve_def no_faults_def file_data_def split: option.split)

lemma initCmd_file:
  assumes "no_faults s" "name \<noteq> []" "p = name @ ''.pkrvars.hcl''" "cleanAbs p"
    and "os_Nodes s (parentOf p) = Some NDir" "os_Nodes s p \<noteq> Some NDir"
  shows "\<exists>s0. initCmd name s = (None, s0) \<and> file_data s0 p = Some configTemplate \<and> no_faults s0 \<and>
    os_TempDir s0 = os_TempDir s \<and> os_Environ s0 = os_Environ s \<and>
    (\<forall>q. q \<noteq> p \<longrightarrow> os_Nodes s0 q = os_Nodes s q)"
proof -
  obtain s1 where w: "os_WriteFile p configTemplate 0x180 s = (None, s1)"
    using WriteFile_progress [OF assms(1,4,5,6)] by blast
  note t = WriteFile_touches [OF w, unfolded resolve_abs [OF assms(4)]]
  let ?s0 = "print_stderr (''Wrote config template to '' @ p @ [CHR 0x0A]) s1"
  have "initCmd name s = (None, ?s0)"
    using assms(2,3) w by (simp add: initCmd_def Let_def)
  moreover have "file_data s1 p = Some configTemplate" by (rule os_files.put_get [OF assms(4) w])
  ultimately show ?thesis
    using touches_fields [OF t] touches_outside [OF t] no_faults_touches [OF t] assms(1) by auto
qed

section \<open>Properties\<close>

text \<open>
  Claim C14. \<open>init -o\<close> and then \<open>build\<close> with the file it wrote fit together: on a machine without
  faults the first exits with 0, and the second comes to start Packer with the template's text as
  the user variables and the files of the chosen version beside it; it exits with 0 exactly when
  Packer does not fail.
\<close>

theorem init_then_build:
  assumes tmp: "cleanAbs (os_TempDir s)" "os_Nodes s (os_TempDir s) = Some NDir" "no_faults s"
    and rnd: "\<forall>i. plainName (''pve-packer-'' @ rnd i)"
    and d: "d = os_TempDir s @ slash # ''pve-packer-'' @ rnd 0" "os_Nodes s d = None" "\<forall>q \<in> below d. os_Nodes s q = None"
    and pf: "plain_plugin pf" and v: "v \<in> {''22.04'', ''24.04''}"
    and bins: "embed_ReadFile bins (''bin/'' @ packerName pf) = Inr core"
      "embed_ReadFile bins (''bin/'' @ pluginName pf) = Inr plugin"
    and p: "name \<noteq> []" "p = name @ ''.pkrvars.hcl''" "cleanAbs p" "os_Nodes s (parentOf p) = Some NDir"
      "os_Nodes s p \<noteq> Some NDir" "p \<noteq> d" "p \<notin> below d"
  shows "\<exists>s0 s1. (\<forall>run. cluster_init_main refuse up pf bins (TemplateFs blob) rnd run (Init name) s = (0, s0)) \<and>
      laid_out pf bins blob v (Some configTemplate) d s1 \<and>
      (\<forall>run. cluster_init_main refuse up pf bins (TemplateFs blob) rnd run
          (Build [(''config'', p), (''template'', ''ubuntu''), (''os-version'', v)]) s0 =
        (case run (d @ ''/packer'') [''build'', ''-force'', ''.''] d
            (os_Environ s @ [''PACKER_PLUGIN_PATH='' @ d @ ''/plugins'']) s1 of
           (Some err, s2) \<Rightarrow> (1, s2) | (None, s2) \<Rightarrow> (0, s2)))"
proof -
  obtain s0 where i: "initCmd name s = (None, s0)" and f: "file_data s0 p = Some configTemplate"
    and s0: "no_faults s0" "os_TempDir s0 = os_TempDir s" "os_Environ s0 = os_Environ s"
    and out: "\<forall>q. q \<noteq> p \<longrightarrow> os_Nodes s0 q = os_Nodes s q"
    using initCmd_file [OF tmp(3) p(1-5)] by blast
  have ne: "p \<noteq> []" by (rule cleanAbs_nonempty [OF p(3)])
  have res: "resolve s0 p = p" by (rule resolve_abs [OF p(3)])
  have "os_Nodes s (os_TempDir s) = Some NDir \<Longrightarrow> os_Nodes s0 (os_TempDir s) = Some NDir"
    using p(5) out by (cases "os_TempDir s = p") auto
  then have tmp0: "cleanAbs (os_TempDir s0)" "os_Nodes s0 (os_TempDir s0) = Some NDir"
    using tmp(1,2) by (simp_all add: s0(2))
  have d0: "d = os_TempDir s0 @ slash # ''pve-packer-'' @ rnd 0" "os_Nodes s0 d = None"
    "\<forall>q \<in> below d. os_Nodes s0 q = None"
    using d p(6,7) out by (auto simp: s0(2))
  have u: "file_data s0 (resolve s0 p) = Some configTemplate" "resolve s0 p \<notin> below d"
    using f p(7) by (simp_all add: res)
  obtain s1 where run: "\<forall>run. RunPacker up pf bins (TemplateFs blob) rnd run ''ubuntu'' p v s0 =
        run (d @ ''/packer'') [''build'', ''-force'', ''.''] d
          (os_Environ s0 @ [''PACKER_PLUGIN_PATH='' @ d @ ''/plugins'']) s1"
    and lay: "laid_out pf bins blob v (Some configTemplate) d s1"
    using RunPacker_start [OF tmp0 s0(1) rnd d0 pf v bins ne u, of up blob] by (elim exE conjE)
  have st: "os_Stat p s0 = None"
    using f ne s0(1) by (auto simp: os_Stat_def res file_data_def no_faults_def split: option.splits)
  let ?given = "[(''config'', p), (''template'', ''ubuntu''), (''os-version'', v)]"
  have flags: "parsedFlags ?given = \<lparr>configPath = p, templateName = ''ubuntu'', osVersion = v\<rparr>"
    "missingFlags ?given = []"
    by (simp_all add: parsedFlags_def set_flag_def defaultBuildFlags_def missingFlags_def requiredFlags_def)
  have "root_Execute refuse up pf bins (TemplateFs blob) rnd run (Build ?given) s0 =
      run (d @ ''/packer'') [''build'', ''-force'', ''.''] d
        (os_Environ s @ [''PACKER_PLUGIN_PATH='' @ d @ ''/plugins'']) s1" for run
    by (simp add: root_Execute_def flags buildCmd_def st run [rule_format] s0(3))
  then show ?thesis
    using lay i by (intro exI [of _ s0] exI [of _ s1]) (simp add: cluster_init_main_def root_Execute_def)
qed

theorem init_then_build_witness:
  "\<exists>s0 s1. cluster_init_main (\<lambda>ns. Err ''missing'') anyRune samplePlatform sampleBins (TemplateFs (\<lambda>p. p)) (\<lambda>i. ''17'')
        (\<lambda>c a d e s. (None, s)) (Init ''/home/new'') sampleMachine = (0, s0) \<and>
     cluster_init_main (\<lambda>ns. Err ''missing'') anyRune samplePlatform sampleBins (TemplateFs (\<lambda>p. p)) (\<lambda>i. ''17'')
        (\<lambda>c a d e s. (None, s))
        (Build [(''config'', ''/home/new.pkrvars.hcl''), (''template'', ''ubuntu''), (''os-version'', ''24.04'')]) s0 = (0, s1) \<and>
     laid_out samplePlatform sampleBins (\<lambda>p. p) ''24.04'' (Some configTemplate) ''/tmp/pve-packer-17'' s1"
proof -
  have d: "''/tmp/pve-packer-17'' = os_TempDir sampleMachine @ slash # ''pve-packer-'' @ ''17''"
    "os_Nodes sampleMachine ''/tmp/pve-packer-17'' = None"
    "\<forall>q \<in> below ''/tmp/pve-packer-17''. os_Nodes sampleMachine q = None"
    using sample_fresh by (simp_all add: sampleMachine_def)
  have tmp: "cleanAbs (os_TempDir sampleMachine)" "os_Nodes sampleMachine (os_TempDir sampleMachine) = Some NDir"
    using sample_tmp by simp_all
  have v: "''24.04'' \<in> {''22.04'', ''24.04''}" by simp
  have c: "cleanAbs ''/home/new.pkrvars.hcl''"
    unfolding cleanAbs_def by (intro exI [of _ "[''home'', ''new.pkrvars.hcl'']"]) (simp add: plainName_def)
  have p: "''/home/new'' \<noteq> []" "''/home/new.pkrvars.hcl'' = ''/home/new'' @ ''.pkrvars.hcl''"
    "os_Nodes sampleMachine (parentOf ''/home/new.pkrvars.hcl'') = Some NDir"
    "os_Nodes sampleMachine ''/home/new.pkrvars.hcl'' \<noteq> Some NDir"
    "''/home/new.pkrvars.hcl'' \<noteq> ''/tmp/pve-packer-17''"
    "''/home/new.pkrvars.hcl'' \<notin> below ''/tmp/pve-packer-17''"
    by (simp_all add: parentOf_def sampleMachine_def below_def)
  obtain s0 s1 where
    "\<forall>run. cluster_init_main (\<lambda>ns. Err ''missing'') anyRune samplePlatform sampleBins (TemplateFs (\<lambda>p. p)) (\<lambda>i. ''17'') run
        (Init ''/home/new'') sampleMachine = (0, s0)"
    "laid_out samplePlatform sampleBins (\<lambda>p. p) ''24.04'' (Some configTemplate) ''/tmp/pve-packer-17'' s1"
    "\<forall>run. cluster_init_main (\<lambda>ns. Err ''missing'') anyRune samplePlatform sampleBins (TemplateFs (\<lambda>p. p)) (\<lambda>i. ''17'') run
        (Build [(''config'', ''/home/new.pkrvars.hcl''), (''template'', ''ubuntu''), (''os-version'', ''24.04'')]) s0 =
      (case run (''/tmp/pve-packer-17'' @ ''/packer'') [''build'', ''-force'', ''.''] ''/tmp/pve-packer-17''
          (os_Environ sampleMachine @ [''PACKER_PLUGIN_PATH='' @ ''/tmp/pve-packer-17'' @ ''/plugins'']) s1 of
         (Some err, s2) \<Rightarrow> (1, s2) | (None, s2) \<Rightarrow> (0, s2))"
    using init_then_build [OF tmp sample_machine(2) sample_rnd d sample_plugin v sample_bins p(1,2) c p(3-6),
        of "\<lambda>ns. Err ''missing''" anyRune "\<lambda>p. p"]
    by (elim exE conjE)
  then show ?thesis by (intro exI [of _ s0] exI [of _ s1] conjI) (simp_all only: option.case prod.case)
qed

text \<open>
  \<open>init\<close> without a name prints the template and touches no file. With a name it touches
  only the file of that name with \<open>.pkrvars.hcl\<close> appended and prints nothing on the standard
  output; when it succeeds the file holds the template, readable by its owner only if the file is
  new (less the umask), with the mode it had otherwise. Its errors are wrapped.
\<close>

theorem initCmd_writes:
  assumes "initCmd name s = (e, s')"
  shows "if name = [] then os_Nodes s' = os_Nodes s \<and> (e = None \<longrightarrow> os_Stdout s' = os_Stdout s @ configTemplate)
    else (let p = resolve s (name @ ''.pkrvars.hcl'') in
      (\<forall>q. q \<noteq> p \<longrightarrow> os_Nodes s' q = os_Nodes s q) \<and> os_Stdout s' = os_Stdout s \<and>
      (case e of
         Some err \<Rightarrow> \<exists>cause. err = Wrap ''write config template'' cause
       | None \<Rightarrow> os_Nodes s' p = Some (NFile configTemplate
           (case os_Nodes s p of Some (NFile d m) \<Rightarrow> m
            | _ \<Rightarrow> and 0x180 (mask 9 - and (mask 9) (os_Umask s))))))"
proof (cases "name = []")
  case True
  then show ?thesis using assms
    by (auto simp: initCmd_def print_stdout_def split: option.splits)
next
  case False
  let ?p = "name @ ''.pkrvars.hcl''"
  obtain e1 s1 where w: "os_WriteFile ?p configTemplate 0x180 s = (e1, s1)" by fastforce
  note t = WriteFile_touches [OF w]
  show ?thesis
  proof (cases e1)
    case None
    note ok = WriteFile_ok [OF w [unfolded None]]
    have "e = None \<and> s' = print_stderr (''Wrote config template to '' @ ?p @ [CHR 0x0A]) s1"
      using assms False w None by (simp add: initCmd_def Let_def)
    then show ?thesis
      using False ok touches_outside [OF t] touches_fields(6) [OF t] by (simp add: Let_def)
  next
    case (Some err)
    then show ?thesis
      using assms False w touches_outside [OF t] touches_fields(6) [OF t]
      by (auto simp: initCmd_def Let_def)
  qed
qed

theorem initCmd_writes_witness:
  "os_Nodes (snd (initCmd ''../home/cfg'' sampleMachine)) ''/tmp'' = Some NDir"
proof -
  obtain e s' where i: "initCmd ''../home/cfg'' sampleMachine = (e, s')" by fastforce
  have r: "resolve sampleMachine (''../home/cfg'' @ ''.pkrvars.hcl'') \<noteq> ''/tmp''" by (simp add: sampleMachine_def) code_simp
  from initCmd_writes [OF i] i r show ?thesis by (simp add: Let_def)
qed

text \<open>
  Claim C31. \<open>build\<close> runs only with all three flags given, the values being the last ones given: the
  defaults of the code are never used. Without one of them, or when the config file is not there,
  the exit code is 1, nothing is changed and Packer is never started, whatever it would do.
\<close>

theorem build_needs_flags:
  "cluster_init_main refuse up pf bins fsys rnd run (Build given) s =
     (case (map_of (rev given) ''config'', map_of (rev given) ''template'', map_of (rev given) ''os-version'') of
        (Some c, Some t, Some v) \<Rightarrow>
          (if os_Stat c s \<noteq> None then (1, s)
           else case RunPacker up pf bins fsys rnd run t c v s of
             (Some err, s') \<Rightarrow> (1, s') | (None, s') \<Rightarrow> (0, s'))
      | _ \<Rightarrow> (1, s))"
proof (cases "missingFlags given = []")
  case True
  then obtain c t v where g: "map_of (rev given) ''config'' = Some c"
    "map_of (rev given) ''template'' = Some t" "map_of (rev given) ''os-version'' = Some v"
    by (auto simp: missingFlags_none requiredFlags_def)
  then show ?thesis using True
    by (cases "os_Stat c s") (simp_all add: cluster_init_main_def root_Execute_def buildCmd_def
        parsedFlags_def parsedFlags_given)
next
  case False
  then have "map_of (rev given) ''config'' = None \<or> map_of (rev given) ''template'' = None \<or>
      map_of (rev given) ''os-version'' = None"
    by (auto simp: missingFlags_none requiredFlags_def)
  then show ?thesis using False
    by (auto simp: cluster_init_main_def root_Execute_def split: option.split)
qed


end
