(* ===== verification/Pkrvars.thy ===== *)
theory Pkrvars
  imports Go_Quote Go_Embed Api_Types
begin

text \<open>
  \<open>internal/controller/pkvars.go\<close>: the input of a Packer build (\<open>pkrvarsInput\<close>), its
  rendering as an HCL variable file (\<open>renderPkrvars\<close>), its construction from a custom
  resource (\<open>pkrvarsFromImage\<close>) and the template reader (\<open>ubuntuTemplate\<close>). A line-wise
  specification of the file and a reader of it follow; the reader recovers every field from
  the rendered text, so rendering loses nothing, and no value can add a line.
\<close>

abbreviation nl :: string where
  "nl \<equiv> [CHR 0x0A]"

section \<open>The code\<close>

definition ubuntuTemplate :: "entry list \<Rightarrow> bytes result" where
  "ubuntuTemplate fsys = embed_ReadFile fsys ''templates/ubuntu.pkr.hcl''"

record pkrvarsInput =
  pk_ProxmoxNode :: string
  pk_StoragePool :: string
  pk_ISOStoragePool :: string
  pk_NetworkBridge :: string
  pk_VMID :: int32
  pk_TemplateName :: string
  pk_TemplateDescription :: string
  pk_DistributionType :: string
  pk_DistributionVersion :: string
  pk_Timezone :: string
  pk_ExtraPackages :: "string list"
  pk_SSHAuthorizedKeys :: "string list"
  pk_ISOURL :: string
  pk_ISOChecksum :: string
  pk_ISOFile :: string

text \<open>The three closures of \<open>renderPkrvars\<close>; each appends to the builder \<open>b\<close>.\<close>

definition writeString :: "(nat \<Rightarrow> bool) \<Rightarrow> string \<Rightarrow> string \<Rightarrow> string \<Rightarrow> string" where
  "writeString up key value b = b @ key @ '' = '' @ quote up value @ nl"

definition writeNumber :: "string \<Rightarrow> int32 \<Rightarrow> string \<Rightarrow> string" where
  "writeNumber key value b = b @ key @ '' = '' @ fmt_d (sint value) @ nl"

fun writeItems :: "(nat \<Rightarrow> bool) \<Rightarrow> string list \<Rightarrow> string \<Rightarrow> string" where
  "writeItems up [] b = b"
| "writeItems up (v # vs) b = writeItems up vs (b @ ''  '' @ quote up v @ '','' @ nl)"

definition writeStringList :: "(nat \<Rightarrow> bool) \<Rightarrow> string \<Rightarrow> string list \<Rightarrow> string \<Rightarrow> string" where
  "writeStringList up key values b =
     (if length values = 0 then b @ key @ '' = []'' @ nl
      else writeItems up values (b @ key @ '' = ['' @ nl) @ '']'' @ nl)"

definition renderPkrvars :: "(nat \<Rightarrow> bool) \<Rightarrow> pkrvarsInput \<Rightarrow> string" where
  "renderPkrvars up inp =
     (let b = ''# Generated by karpenter-provider-pve. Do not edit.'' @ nl @ nl;
          b = writeString up ''proxmox_node'' (pk_ProxmoxNode inp) b;
          b = writeString up ''storage_pool'' (pk_StoragePool inp) b;
          b = writeString up ''iso_storage_pool'' (pk_ISOStoragePool inp) b;
          b = writeString up ''network_bridge'' (pk_NetworkBridge inp) b;
          b = writeNumber ''vm_id'' (pk_VMID inp) b;
          b = writeString up ''template_name'' (pk_TemplateName inp) b;
          b = writeString up ''template_description'' (pk_TemplateDescription inp) b;
          b = writeString up ''distribution_type'' (pk_DistributionType inp) b;
          b = writeString up ''distribution_version'' (pk_DistributionVersion inp) b;
          b = writeString up ''timezone'' (pk_Timezone inp) b;
          b = writeStringList up ''extra_packages'' (pk_ExtraPackages inp) b;
          b = writeStringList up ''ssh_authorized_keys'' (pk_SSHAuthorizedKeys inp) b;
          b = writeString up ''iso_url'' (pk_ISOURL inp) b;
          b = writeString up ''iso_checksum'' (pk_ISOChecksum inp) b;
          b = writeString up ''iso_file'' (pk_ISOFile inp) b
      in b)"

text \<open>
  Go's \<open>time.LoadLocation\<close>: the empty name and \<open>UTC\<close> and \<open>Local\<close> need no lookup, a name with
  \<open>..\<close> or a leading slash or backslash is refused, any other is looked up in the time zone
  database of the machine, the parameter \<open>tzdb\<close>.
\<close>

fun containsDotDot :: "string \<Rightarrow> bool" where
  "containsDotDot (a # b # s) = (a = CHR ''.'' \<and> b = CHR ''.'' \<or> containsDotDot (b # s))"
| "containsDotDot s = False"

definition time_LoadLocation :: "(string \<Rightarrow> go_error option) \<Rightarrow> string \<Rightarrow> go_error option" where
  "time_LoadLocation tzdb name =
     (if name = [] \<or> name = ''UTC'' then None
      else if name = ''Local'' then None
      else if containsDotDot name \<or> hd name = slash \<or> hd name = bslash
        then Some (Err ''time: invalid location name'')
      else tzdb name)"

definition pkrvarsFromImage ::
    "(nat \<Rightarrow> bool) \<Rightarrow> (string \<Rightarrow> go_error option) \<Rightarrow> PVENodeImage \<Rightarrow> int32 \<Rightarrow> string
       \<Rightarrow> pkrvarsInput result" where
  "pkrvarsFromImage up tzdb img vmID templateName =
     (let spec = im_Spec img;
          isoPool = (if bc_ISOStoragePool (is_BuildConfig spec) = []
                     then bc_StoragePool (is_BuildConfig spec)
                     else bc_ISOStoragePool (is_BuildConfig spec));
          timezone = is_Timezone spec
      in case time_LoadLocation tzdb timezone of
           Some err \<Rightarrow>
             Inl (Wrap (''spec.timezone '' @ quote up timezone @ '' is not a valid IANA timezone'') err)
         | None \<Rightarrow> Inr \<lparr>
             pk_ProxmoxNode = bc_Node (is_BuildConfig spec),
             pk_StoragePool = bc_StoragePool (is_BuildConfig spec),
             pk_ISOStoragePool = isoPool,
             pk_NetworkBridge = bc_Bridge (is_BuildConfig spec),
             pk_VMID = vmID,
             pk_TemplateName = templateName,
             pk_TemplateDescription =
               ''Built by karpenter-provider-pve for PVENodeImage/'' @ om_Name (im_ObjectMeta img),
             pk_DistributionType = di_Type (is_Distribution spec),
             pk_DistributionVersion = di_Version (is_Distribution spec),
             pk_Timezone = timezone,
             pk_ExtraPackages = is_Packages spec,
             pk_SSHAuthorizedKeys = is_SSHAuthorizedKeys spec,
             pk_ISOURL = bi_URL (is_BaseImage spec),
             pk_ISOChecksum = bi_Checksum (is_BaseImage spec),
             pk_ISOFile = bi_ISOFile (is_BaseImage spec)\<rparr>)"

section \<open>The file as a list of lines\<close>

text \<open>The lines that a rendered file consists of, one per assignment and list element.\<close>

definition assignLine :: "(nat \<Rightarrow> bool) \<Rightarrow> string \<Rightarrow> string \<Rightarrow> string" where
  "assignLine up key v = key @ '' = '' @ quote up v"

definition listLines :: "(nat \<Rightarrow> bool) \<Rightarrow> string \<Rightarrow> string list \<Rightarrow> string list" where
  "listLines up key vs =
     (if vs = [] then [key @ '' = []'']
      else [key @ '' = ['' ] @ map (\<lambda>v. ''  '' @ quote up v @ '','') vs @ ['']''])"

definition pkrvarsLines :: "(nat \<Rightarrow> bool) \<Rightarrow> pkrvarsInput \<Rightarrow> string list" where
  "pkrvarsLines up inp =
     [''# Generated by karpenter-provider-pve. Do not edit.'', '''',
      assignLine up ''proxmox_node'' (pk_ProxmoxNode inp),
      assignLine up ''storage_pool'' (pk_StoragePool inp),
      assignLine up ''iso_storage_pool'' (pk_ISOStoragePool inp),
      assignLine up ''network_bridge'' (pk_NetworkBridge inp),
      ''vm_id = '' @ fmt_d (sint (pk_VMID inp)),
      assignLine up ''template_name'' (pk_TemplateName inp),
      assignLine up ''template_description'' (pk_TemplateDescription inp),
      assignLine up ''distribution_type'' (pk_DistributionType inp),
      assignLine up ''distribution_version'' (pk_DistributionVersion inp),
      assignLine up ''timezone'' (pk_Timezone inp)]
     @ listLines up ''extra_packages'' (pk_ExtraPackages inp)
     @ listLines up ''ssh_authorized_keys'' (pk_SSHAuthorizedKeys inp)
     @ [assignLine up ''iso_url'' (pk_ISOURL inp),
        assignLine up ''iso_checksum'' (pk_ISOChecksum inp),
        assignLine up ''iso_file'' (pk_ISOFile inp)]"

definition unlines :: "string list \<Rightarrow> string" where
  "unlines ls = concat (map (\<lambda>l. l @ nl) ls)"

lemma unlines_simps [simp]:
  "unlines [] = []" "unlines (l # ls) = l @ nl @ unlines ls"
  "unlines (xs @ ys) = unlines xs @ unlines ys"
  by (simp_all add: unlines_def)

lemma writeItems_eq: "writeItems up vs b = b @ unlines (map (\<lambda>v. ''  '' @ quote up v @ '','') vs)"
  by (induction vs arbitrary: b) simp_all

lemma writeStringList_eq: "writeStringList up key vs b = b @ unlines (listLines up key vs)"
  by (simp add: writeStringList_def listLines_def writeItems_eq)

lemma writeString_eq: "writeString up key v b = b @ unlines [assignLine up key v]"
  by (simp add: writeString_def assignLine_def)

lemma writeNumber_eq: "writeNumber key v b = b @ unlines [key @ '' = '' @ fmt_d (sint v)]"
  by (simp add: writeNumber_def)

lemmas write_eqs = writeString_eq writeNumber_eq writeStringList_eq

lemma renderPkrvars_unlines: "renderPkrvars up inp = unlines (pkrvarsLines up inp)"
  by (simp add: renderPkrvars_def pkrvarsLines_def write_eqs Let_def)

section \<open>Values cannot break a line\<close>

lemma quote_no_nl [simp]: "CHR 0x0A \<notin> set (quote up s)"
  by (auto dest: quote_no_control)

lemma fmt_d_no_nl [simp]: "CHR 0x0A \<notin> set (fmt_d i)"
  by (auto dest!: fmt_d_chars simp: isDigit_def)

lemma pkrvarsLines_no_nl: "l \<in> set (pkrvarsLines up inp) \<Longrightarrow> CHR 0x0A \<notin> set l"
  by (auto simp: pkrvarsLines_def assignLine_def listLines_def split: if_splits)

lemma splitOn_unlines:
  "\<forall>l \<in> set ls. CHR 0x0A \<notin> set l \<Longrightarrow> splitOn (CHR 0x0A) (unlines ls) = ls @ [[]]"
  by (induction ls) (simp_all add: splitOn_append)

section \<open>A reader of the file\<close>

fun strip :: "string \<Rightarrow> string \<Rightarrow> string option" where
  "strip [] s = Some s"
| "strip (p # ps) [] = None"
| "strip (p # ps) (c # cs) = (if p = c then strip ps cs else None)"

lemma strip_append [simp]: "strip p (p @ t) = Some t"
  by (induction p) simp_all

text \<open>A quoted string followed by the text \<open>after\<close>.\<close>

definition readQuoted :: "string \<Rightarrow> string \<Rightarrow> (string \<times> string) option" where
  "readQuoted after s = Option.bind (strip [dquote] s) (\<lambda>t. Option.bind (unquoteBody t)
     (\<lambda>(v, u). map_option (Pair v) (strip after u)))"

definition readString :: "string \<Rightarrow> string \<Rightarrow> (string \<times> string) option" where
  "readString key s = Option.bind (strip (key @ '' = '') s) (readQuoted nl)"

definition readNumber :: "string \<Rightarrow> string \<Rightarrow> (int32 \<times> string) option" where
  "readNumber key s = Option.bind (strip (key @ '' = '') s) (\<lambda>t.
     map_option (Pair (word_of_int (readInt (takeWhile (\<lambda>c. c \<noteq> CHR 0x0A) t))))
       (strip nl (dropWhile (\<lambda>c. c \<noteq> CHR 0x0A) t)))"

text \<open>List elements up to the closing bracket; each takes at least one of the \<open>fuel\<close>.\<close>

fun readItems :: "nat \<Rightarrow> string \<Rightarrow> (string list \<times> string) option" where
  "readItems 0 s = None"
| "readItems (Suc fuel) s =
     (case strip ('']'' @ nl) s of
        Some t \<Rightarrow> Some ([], t)
      | None \<Rightarrow> Option.bind (strip ''  '' s) (\<lambda>t. Option.bind (readQuoted ('','' @ nl) t)
          (\<lambda>(v, u). map_option (\<lambda>(vs, w). (v # vs, w)) (readItems fuel u))))"

definition readList :: "string \<Rightarrow> string \<Rightarrow> (string list \<times> string) option" where
  "readList key s = (case strip (key @ '' = []'' @ nl) s of
     Some t \<Rightarrow> Some ([], t)
   | None \<Rightarrow> Option.bind (strip (key @ '' = ['' @ nl) s) (readItems (length s)))"

lemma quote_hd: "quote up v = dquote # tl (quote up v)"
  by (simp add: quote_def)

lemma readQuoted_quote: "readQuoted after (quote up v @ after @ t) = Some (v, t)"
proof -
  have "strip [dquote] (quote up v @ after @ t) = Some (tl (quote up v) @ after @ t)"
    by (subst quote_hd) simp
  then show ?thesis by (simp add: readQuoted_def unquote_quote)
qed

lemma readString_line: "readString key (unlines [assignLine up key v] @ t) = Some (v, t)"
proof -
  have "unlines [assignLine up key v] @ t = (key @ '' = '') @ (quote up v @ nl @ t)"
    by (simp add: assignLine_def)
  then show ?thesis
    unfolding readString_def by (simp only: strip_append Option.bind.simps readQuoted_quote)
qed

lemma takeWhile_fmt_d:
  "takeWhile (\<lambda>c. c \<noteq> CHR 0x0A) (fmt_d i @ nl @ t) = fmt_d i"
  "dropWhile (\<lambda>c. c \<noteq> CHR 0x0A) (fmt_d i @ nl @ t) = nl @ t"
  using fmt_d_no_nl [of i] by (auto simp: takeWhile_append dropWhile_append)

lemma readNumber_line: "readNumber key (unlines [key @ '' = '' @ fmt_d (sint v)] @ t) = Some (v, t)"
proof -
  have "unlines [key @ '' = '' @ fmt_d (sint v)] @ t = (key @ '' = '') @ (fmt_d (sint v) @ nl @ t)"
    by simp
  then show ?thesis
    unfolding readNumber_def
    by (simp only: strip_append Option.bind.simps takeWhile_fmt_d readInt_fmt_d option.map of_int_sint scast_id id_apply)
qed

definition itemLine :: "(nat \<Rightarrow> bool) \<Rightarrow> string \<Rightarrow> string" where
  "itemLine up v = ''  '' @ quote up v @ '','' @ nl"

lemma readItems_lines:
  "length vs < fuel \<Longrightarrow> readItems fuel (concat (map (itemLine up) vs) @ '']'' @ nl @ t) = Some (vs, t)"
proof (induction vs arbitrary: fuel)
  case Nil
  then show ?case by (cases fuel) simp_all
next
  case (Cons v vs)
  let ?rest = "concat (map (itemLine up) vs) @ '']'' @ nl @ t"
  obtain f where f: "fuel = Suc f" "length vs < f" using Cons.prems by (cases fuel) auto
  have s: "concat (map (itemLine up) (v # vs)) @ '']'' @ nl @ t
      = ''  '' @ (quote up v @ ('','' @ nl) @ ?rest)"
    by (simp add: itemLine_def)
  have "strip ('']'' @ nl) (''  '' @ x) = None" for x by simp
  moreover have "strip ''  '' (''  '' @ x) = Some x" for x by (rule strip_append)
  ultimately show ?case
    unfolding f(1) s readItems.simps
    by (simp only: option.case Option.bind.simps readQuoted_quote prod.case Cons.IH [OF f(2)] option.map)
qed

lemma strip_fork: "x \<noteq> y \<Longrightarrow> strip (p @ x # q) (p @ y # t) = None"
  by (induction p) simp_all

lemma readList_lines: "readList key (unlines (listLines up key vs) @ t) = Some (vs, t)"
proof (cases "vs = []")
  case True
  then have "unlines (listLines up key vs) @ t = (key @ '' = []'' @ nl) @ t"
    by (simp add: listLines_def)
  then show ?thesis
    unfolding readList_def by (simp only: strip_append option.case True)
next
  case False
  let ?items = "concat (map (itemLine up) vs) @ '']'' @ nl @ t"
  have s: "unlines (listLines up key vs) @ t = (key @ '' = ['' @ nl) @ ?items"
    using False by (simp add: listLines_def unlines_def itemLine_def [abs_def] comp_def)
  have n: "strip (key @ '' = []'' @ nl) ((key @ '' = ['' @ nl) @ ?items) = None"
    using strip_fork [of "CHR '']''" "CHR 0x0A" "key @ '' = [''" nl ?items] by simp
  have "length vs \<le> length (concat (map (itemLine up) vs))"
    by (induction vs) (simp_all add: itemLine_def)
  then have "length vs < length ((key @ '' = ['' @ nl) @ ?items)" by simp
  from readItems_lines [OF this] show ?thesis
    unfolding readList_def s n by (simp only: strip_append option.case Option.bind.simps)
qed

text \<open>The whole file, field by field in the order of the code.\<close>

definition parsePkrvars :: "string \<Rightarrow> pkrvarsInput option" where
  "parsePkrvars s0 =
     Option.bind (strip (''# Generated by karpenter-provider-pve. Do not edit.'' @ nl @ nl) s0) (\<lambda>s.
     Option.bind (readString ''proxmox_node'' s) (\<lambda>(node, s).
     Option.bind (readString ''storage_pool'' s) (\<lambda>(pool, s).
     Option.bind (readString ''iso_storage_pool'' s) (\<lambda>(isopool, s).
     Option.bind (readString ''network_bridge'' s) (\<lambda>(bridge, s).
     Option.bind (readNumber ''vm_id'' s) (\<lambda>(vmid, s).
     Option.bind (readString ''template_name'' s) (\<lambda>(tname, s).
     Option.bind (readString ''template_description'' s) (\<lambda>(tdesc, s).
     Option.bind (readString ''distribution_type'' s) (\<lambda>(dtype, s).
     Option.bind (readString ''distribution_version'' s) (\<lambda>(dver, s).
     Option.bind (readString ''timezone'' s) (\<lambda>(tz, s).
     Option.bind (readList ''extra_packages'' s) (\<lambda>(pkgs, s).
     Option.bind (readList ''ssh_authorized_keys'' s) (\<lambda>(keys, s).
     Option.bind (readString ''iso_url'' s) (\<lambda>(url, s).
     Option.bind (readString ''iso_checksum'' s) (\<lambda>(sum, s).
     Option.bind (readString ''iso_file'' s) (\<lambda>(file, s).
       if s = [] then Some \<lparr>pk_ProxmoxNode = node, pk_StoragePool = pool, pk_ISOStoragePool = isopool,
         pk_NetworkBridge = bridge, pk_VMID = vmid, pk_TemplateName = tname,
         pk_TemplateDescription = tdesc, pk_DistributionType = dtype, pk_DistributionVersion = dver,
         pk_Timezone = tz, pk_ExtraPackages = pkgs, pk_SSHAuthorizedKeys = keys, pk_ISOURL = url,
         pk_ISOChecksum = sum, pk_ISOFile = file\<rparr> else None))))))))))))))))"

lemma unlines_Cons1: "ls \<noteq> [] \<Longrightarrow> unlines (l # ls) = unlines [l] @ unlines ls"
  by simp

lemma parse_unlines_pkrvars: "parsePkrvars (unlines (pkrvarsLines up inp)) = Some inp"
proof -
  let ?a = "assignLine up"
  have "unlines (pkrvarsLines up inp) =
      (''# Generated by karpenter-provider-pve. Do not edit.'' @ nl @ nl) @
      (unlines [?a ''proxmox_node'' (pk_ProxmoxNode inp)] @
      (unlines [?a ''storage_pool'' (pk_StoragePool inp)] @
      (unlines [?a ''iso_storage_pool'' (pk_ISOStoragePool inp)] @
      (unlines [?a ''network_bridge'' (pk_NetworkBridge inp)] @
      (unlines [''vm_id'' @ '' = '' @ fmt_d (sint (pk_VMID inp))] @
      (unlines [?a ''template_name'' (pk_TemplateName inp)] @
      (unlines [?a ''template_description'' (pk_TemplateDescription inp)] @
      (unlines [?a ''distribution_type'' (pk_DistributionType inp)] @
      (unlines [?a ''distribution_version'' (pk_DistributionVersion inp)] @
      (unlines [?a ''timezone'' (pk_Timezone inp)] @
      (unlines (listLines up ''extra_packages'' (pk_ExtraPackages inp)) @
      (unlines (listLines up ''ssh_authorized_keys'' (pk_SSHAuthorizedKeys inp)) @
      (unlines [?a ''iso_url'' (pk_ISOURL inp)] @
      (unlines [?a ''iso_checksum'' (pk_ISOChecksum inp)] @
      (unlines [?a ''iso_file'' (pk_ISOFile inp)] @ [])))))))))))))))"
    by (simp add: pkrvarsLines_def)
  then show ?thesis
    unfolding parsePkrvars_def
    by (simp only: strip_append Option.bind.simps prod.case readString_line readNumber_line
        readList_lines refl if_True) simp
qed

section \<open>Properties\<close>

lemma quoteBody_identity:
  "\<forall>c \<in> set s. 0x20 \<le> byte c \<and> byte c < 0x7F \<and> c \<noteq> dquote \<and> c \<noteq> bslash \<Longrightarrow> quoteBody up s = s"
proof (induction s)
  case Nil
  then show ?case by simp
next
  case (Cons c s)
  then have "byte c \<noteq> byte dquote" "byte c \<noteq> byte bslash"
    by (simp_all add: inj_eq [OF inj_of_char] del: of_char_Char)
  then have "byte c \<noteq> 0x22" "byte c \<noteq> 0x5C" by simp_all
  with Cons have "escapedRune up (byte c) = [c]"
    by (simp add: escapedRune_def isPrint_def appendRune_ascii)
  with Cons show ?case by simp
qed

text \<open>
  Claim C15. Rendering loses nothing: the reader of the variable file recovers every field of
  the input, the integer and both lists included, for arbitrary bytes in every value.
\<close>

theorem renderPkrvars_roundtrip: "parsePkrvars (renderPkrvars up inp) = Some inp"
  by (simp only: renderPkrvars_unlines parse_unlines_pkrvars)

text \<open>
  The rendered file consists of exactly the specified lines, in the specified order,
  each ended by one newline: no value, whatever bytes it holds, can end its line or add an
  assignment.
\<close>

theorem renderPkrvars_lines:
  "splitOn (CHR 0x0A) (renderPkrvars up inp) = pkrvarsLines up inp @ [[]]"
  by (simp add: renderPkrvars_unlines splitOn_unlines pkrvarsLines_no_nl)

text \<open>
  The construction from a custom resource fails exactly when the time zone cannot be
  loaded, whatever the other fields hold, and then with the time zone error wrapped.
\<close>

theorem pkrvarsFromImage_error_iff:
  "pkrvarsFromImage up tzdb img v t = Inl e \<longleftrightarrow>
     (\<exists>err. time_LoadLocation tzdb (is_Timezone (im_Spec img)) = Some err \<and>
        e = Wrap (''spec.timezone '' @ quote up (is_Timezone (im_Spec img))
                  @ '' is not a valid IANA timezone'') err)"
  by (auto simp: pkrvarsFromImage_def Let_def split: option.splits)

text \<open>A resource whose build configuration and time zone are all empty.\<close>

definition bareImage :: "PVENodeImage \<Rightarrow> PVENodeImage" where
  "bareImage img = img\<lparr>im_Spec := (im_Spec img)\<lparr>is_Timezone := '''',
     is_BuildConfig := \<lparr>bc_Node = '''', bc_StoragePool = '''', bc_ISOStoragePool = '''',
                        bc_Bridge = ''''\<rparr>\<rparr>\<rparr>"

text \<open>
  Empty node, storage pool and bridge are accepted: a resource that sets none of the
  required placement fields still yields a build input, with empty placement values and an
  empty time zone.
\<close>

theorem pkrvarsFromImage_accepts_missing_placement:
  "\<exists>inp. pkrvarsFromImage up tzdb (bareImage img) v t = Inr inp \<and> pk_ProxmoxNode inp = '''' \<and>
      pk_StoragePool inp = '''' \<and> pk_ISOStoragePool inp = '''' \<and> pk_NetworkBridge inp = '''' \<and>
      pk_Timezone inp = ''''"
  by (simp add: pkrvarsFromImage_def time_LoadLocation_def bareImage_def)

text \<open>
  End to end, from the resource to the file: if the construction succeeds, reading
  the rendered file gives the values of the resource's spec, the ISO pool defaulting to the
  storage pool.
\<close>

theorem pkrvars_file_of_image:
  assumes "pkrvarsFromImage up tzdb img v t = Inr inp"
  shows "\<exists>r. parsePkrvars (renderPkrvars up inp) = Some r \<and>
      pk_ProxmoxNode r = bc_Node (is_BuildConfig (im_Spec img)) \<and>
      pk_StoragePool r = bc_StoragePool (is_BuildConfig (im_Spec img)) \<and>
      pk_ISOStoragePool r =
        (case bc_ISOStoragePool (is_BuildConfig (im_Spec img)) of
           [] \<Rightarrow> bc_StoragePool (is_BuildConfig (im_Spec img)) | p # ps \<Rightarrow> p # ps) \<and>
      pk_NetworkBridge r = bc_Bridge (is_BuildConfig (im_Spec img)) \<and>
      pk_VMID r = v \<and> pk_TemplateName r = t \<and>
      pk_DistributionType r = di_Type (is_Distribution (im_Spec img)) \<and>
      pk_DistributionVersion r = di_Version (is_Distribution (im_Spec img)) \<and>
      pk_Timezone r = is_Timezone (im_Spec img) \<and>
      pk_ExtraPackages r = is_Packages (im_Spec img) \<and>
      pk_SSHAuthorizedKeys r = is_SSHAuthorizedKeys (im_Spec img) \<and>
      (pk_ISOURL r, pk_ISOChecksum r, pk_ISOFile r) =
        (bi_URL (is_BaseImage (im_Spec img)), bi_Checksum (is_BaseImage (im_Spec img)),
         bi_ISOFile (is_BaseImage (im_Spec img)))"
  using assms
  by (auto simp: renderPkrvars_unlines parse_unlines_pkrvars pkrvarsFromImage_def Let_def
      split: option.splits list.splits)

theorem pkrvars_file_of_image_witness:
  "\<exists>inp r. pkrvarsFromImage (\<lambda>_. False) (\<lambda>_. None) sampleImage 9000 ''rke2'' = Inr inp \<and>
     parsePkrvars (renderPkrvars (\<lambda>_. False) inp) = Some r \<and>
     pk_ISOStoragePool r = ''local-lvm'' \<and> pk_VMID r = 9000 \<and> pk_ISOFile r = ''''"
proof -
  obtain inp where i: "pkrvarsFromImage (\<lambda>_. False) (\<lambda>_. None) sampleImage 9000 ''rke2'' = Inr inp"
    by (simp add: pkrvarsFromImage_def time_LoadLocation_def sampleImage_def sampleSpec_def)
  from pkrvars_file_of_image [OF i] i show ?thesis
    by (auto simp: sampleImage_def sampleSpec_def)
qed

text \<open>
  Printable ASCII text without quotes and backslashes is quoted verbatim. In
  particular the interpolation sequence of HCL templates, a dollar sign and a brace, reaches
  the file unescaped.
\<close>

theorem quote_verbatim:
  assumes "\<forall>c \<in> set s. 0x20 \<le> byte c \<and> byte c < 0x7F \<and> c \<noteq> dquote \<and> c \<noteq> bslash"
  shows "writeString up key s b = b @ key @ '' = '' @ [dquote] @ s @ [dquote] @ nl"
  using quoteBody_identity [OF assms] by (simp add: writeString_def quote_def)

theorem quote_verbatim_witness:
  "writeString (\<lambda>_. False) ''timezone'' ''${file}'' [] = ''timezone = '' @ [dquote] @ ''${file}'' @ [dquote] @ nl"
  using quote_verbatim [of "''${file}''" "\<lambda>_. False" "''timezone''" "[]"] by simp

text \<open>
  The template that \<open>ubuntuTemplate\<close> reads is not in the embedded tree, whatever the
  files of the tree hold: the call always fails.
\<close>

theorem ubuntuTemplate_missing:
  "ubuntuTemplate (TemplateFs blob) = Inl (Err ''open templates/ubuntu.pkr.hcl: file does not exist'')"
  by (simp add: ubuntuTemplate_def embed_ReadFile_def embed_Open_def fs_ValidPath_def TemplateFs_def)

end
