(* ===== verification/Node_Class.thy ===== *)
theory Node_Class
  imports Api_Types
begin

text \<open>
  The methods of \<open>PVENodeClass\<close> (\<open>api/v1alpha1/pvenodeclass_types.go\<close>) that make it a
  \<open>status.Object\<close> of operatorpkg: \<open>GetConditions\<close>, \<open>SetConditions\<close> and
  \<open>StatusConditions\<close>. The first two copy a slice element by element; the library's
  \<open>Condition\<close> type has the same fields as the Kubernetes one, so both conversions are the
  identity on the model's records. The interface is the locale \<open>status_object\<close>.
\<close>

section \<open>The copy loop\<close>

text \<open>
  \<open>out := make([]T, len(xs)); for i, c := range xs { out[i] = conv(c) }\<close>: the loop writes
  index \<open>i\<close> of a slice of zero values at each step.
\<close>

fun fill_loop :: "('a \<Rightarrow> 'b) \<Rightarrow> nat \<Rightarrow> 'a list \<Rightarrow> 'b list \<Rightarrow> 'b list" where
  "fill_loop conv i [] out = out"
| "fill_loop conv i (c # cs) out = fill_loop conv (Suc i) cs (out[i := conv c])"

lemma fill_loop_append:
  "length out = length done + length cs \<Longrightarrow> take (length done) out = done \<Longrightarrow>
     fill_loop conv (length done) cs out = done @ map conv cs"
proof (induction cs arbitrary: "done" out)
  case Nil
  then show ?case by simp
next
  case (Cons c cs)
  let ?out = "out[length done := conv c]"
  have "take (Suc (length done)) ?out = done @ [conv c]"
    using Cons.prems by (simp add: take_Suc_conv_app_nth take_update_swap)
  then have "fill_loop conv (length (done @ [conv c])) cs ?out = (done @ [conv c]) @ map conv cs"
    using Cons.prems(1) by (intro Cons.IH) simp_all
  then show ?case by simp
qed

lemma fill_loop_map: "fill_loop conv 0 cs (replicate (length cs) z) = map conv cs"
  using fill_loop_append [of "replicate (length cs) z" "[]" cs conv] by simp

section \<open>The methods\<close>

definition GetConditions :: "PVENodeClass \<Rightarrow> Condition list" where
  "GetConditions nc = (let cs = cst_Conditions (nc_Status nc)
     in fill_loop id 0 cs (replicate (length cs) zeroCondition))"

definition SetConditions :: "PVENodeClass \<Rightarrow> Condition list \<Rightarrow> PVENodeClass" where
  "SetConditions nc conditions =
     (let out = fill_loop id 0 conditions (replicate (length conditions) zeroCondition)
      in nc\<lparr>nc_Status := (nc_Status nc)\<lparr>cst_Conditions := out\<rparr>\<rparr>)"

text \<open>
  \<open>status.NewReadyConditions(...).For(in)\<close>: the library builds the condition set; the code
  chooses the dependent condition types.
\<close>

definition StatusConditions ::
    "(string list \<Rightarrow> 'types) \<Rightarrow> ('types \<Rightarrow> PVENodeClass \<Rightarrow> 'set) \<Rightarrow> PVENodeClass \<Rightarrow> 'set" where
  "StatusConditions newReadyConditions forObject nc =
     forObject (newReadyConditions [ConditionTypeTemplateResolved, ConditionTypeNodeImageReady]) nc"

section \<open>The interface\<close>

text \<open>
  What operatorpkg relies on: reading back what was written, and writing nothing else. The
  frame \<open>rest\<close> is everything of the object but its conditions.
\<close>

locale status_object =
  fixes get :: "'o \<Rightarrow> 'c list"
    and put :: "'o \<Rightarrow> 'c list \<Rightarrow> 'o"
    and rest :: "'o \<Rightarrow> 'r"
  assumes get_put: "get (put x cs) = cs"
    and rest_put: "rest (put x cs) = rest x"
    and ext: "get x = get y \<Longrightarrow> rest x = rest y \<Longrightarrow> x = y"
begin

lemma put_get: "put x (get x) = x"
  by (rule ext) (simp_all add: get_put rest_put)

lemma put_put: "put (put x cs) ds = put x ds"
  by (rule ext) (simp_all add: get_put rest_put)

lemma put_inj: "put x cs = put x ds \<Longrightarrow> cs = ds"
  by (metis get_put)

text \<open>Read, modify and write, the way the library's condition sets update an object.\<close>

lemma modify_twice:
  "put (put x (f (get x))) (g (get (put x (f (get x))))) = put x (g (f (get x)))"
  by (simp add: get_put put_put)

lemma modify_rest: "rest (put x (f (get x))) = rest x"
  by (rule rest_put)

end

definition class_rest :: "PVENodeClass \<Rightarrow> TypeMeta \<times> ObjectMeta \<times> PVENodeClassSpec" where
  "class_rest nc = (nc_TypeMeta nc, nc_ObjectMeta nc, nc_Spec nc)"

lemma GetConditions_eq: "GetConditions nc = cst_Conditions (nc_Status nc)"
  by (simp add: GetConditions_def fill_loop_map)

lemma SetConditions_eq:
  "SetConditions nc cs = nc\<lparr>nc_Status := (nc_Status nc)\<lparr>cst_Conditions := cs\<rparr>\<rparr>"
  by (simp add: SetConditions_def fill_loop_map)

interpretation class_status: status_object GetConditions SetConditions class_rest
  by unfold_locales (auto simp: GetConditions_eq SetConditions_eq class_rest_def)

section \<open>Properties\<close>

text \<open>
  The conditions behave like a field of their own: what \<open>SetConditions\<close> writes is what
  \<open>GetConditions\<close> reads, element by element and in order; writing back what was read changes
  nothing, the last write wins, and nothing but the conditions is touched.
\<close>

theorem conditions_roundtrip:
  "GetConditions (SetConditions nc cs) = cs \<and>
   SetConditions nc (GetConditions nc) = nc \<and>
   SetConditions (SetConditions nc cs) ds = SetConditions nc ds \<and>
   nc_TypeMeta (SetConditions nc cs) = nc_TypeMeta nc \<and> nc_ObjectMeta (SetConditions nc cs) = nc_ObjectMeta nc \<and>
   nc_Spec (SetConditions nc cs) = nc_Spec nc"
  using class_status.get_put class_status.put_get class_status.put_put class_status.rest_put [of nc cs]
  by (simp add: class_rest_def)

end
