(* ===== verification/Cloud_Provider.thy ===== *)
theory Cloud_Provider
  imports Node_Class
begin

text \<open>
  \<open>pkg/cloudprovider/cloudprovider.go\<close>: the Karpenter interface over Proxmox, in its scaffold
  version. The types of Karpenter's API are parameters; a nil pointer or slice is \<open>None\<close>. The
  operations get the cluster as a state, which they return.
\<close>

section \<open>The provider\<close>

definition CloudProviderName :: string where
  "CloudProviderName = ''proxmox-pve''"

definition ErrNotImplemented :: go_error where
  "ErrNotImplemented = Err ''not implemented''"

record 'client CloudProvider =
  kubeClient :: 'client

definition CloudProvider_New :: "'client \<Rightarrow> 'client CloudProvider" where
  "CloudProvider_New cl = \<lparr>kubeClient = cl\<rparr>"

definition CloudProvider_Create ::
    "'client CloudProvider \<Rightarrow> 'claim \<Rightarrow> 's \<Rightarrow> ('claim option \<times> go_error option) \<times> 's" where
  "CloudProvider_Create c nodeClaim s = ((None, Some ErrNotImplemented), s)"

definition CloudProvider_Delete :: "'client CloudProvider \<Rightarrow> 'claim \<Rightarrow> 's \<Rightarrow> go_error option \<times> 's" where
  "CloudProvider_Delete c nodeClaim s = (Some ErrNotImplemented, s)"

definition CloudProvider_Get ::
    "'client CloudProvider \<Rightarrow> string \<Rightarrow> 's \<Rightarrow> ('claim option \<times> go_error option) \<times> 's" where
  "CloudProvider_Get c providerID s = ((None, Some ErrNotImplemented), s)"

definition CloudProvider_List ::
    "'client CloudProvider \<Rightarrow> 's \<Rightarrow> ('claim list option \<times> go_error option) \<times> 's" where
  "CloudProvider_List c s = ((None, Some ErrNotImplemented), s)"

definition CloudProvider_GetInstanceTypes ::
    "'client CloudProvider \<Rightarrow> 'pool \<Rightarrow> 's \<Rightarrow> ('itype list option \<times> go_error option) \<times> 's" where
  "CloudProvider_GetInstanceTypes c nodePool s = ((None, Some ErrNotImplemented), s)"

definition CloudProvider_IsDrifted ::
    "'client CloudProvider \<Rightarrow> 'claim \<Rightarrow> 's \<Rightarrow> (string \<times> go_error option) \<times> 's" where
  "CloudProvider_IsDrifted c nodeClaim s = (('''', Some ErrNotImplemented), s)"

definition CloudProvider_RepairPolicies :: "'client CloudProvider \<Rightarrow> 'policy list option" where
  "CloudProvider_RepairPolicies c = None"

definition CloudProvider_Name :: "'client CloudProvider \<Rightarrow> string" where
  "CloudProvider_Name c = CloudProviderName"

text \<open>The zero value of a node class, \<open>PVENodeClass{}\<close>.\<close>

definition zeroPVENodeClass :: PVENodeClass where
  "zeroPVENodeClass = \<lparr>
     nc_TypeMeta = \<lparr>tm_Kind = '''', tm_APIVersion = ''''\<rparr>,
     nc_ObjectMeta = \<lparr>om_Name = '''', om_Namespace = '''', om_UID = '''', om_ResourceVersion = '''',
       om_Generation = 0, om_DeletionTimestamp = None, om_Labels = Map.empty, om_OwnerReferences = []\<rparr>,
     nc_Spec = \<lparr>cs_NodeImageRef = \<lparr>nr_Name = ''''\<rparr>, cs_InstanceTypes = [], cs_PlacementTargets = [],
       cs_StoragePool = '''', cs_Network = \<lparr>nc_Bridge = '''', nc_VLANTag = None, nc_Firewall = False\<rparr>,
       cs_Tags = []\<rparr>,
     nc_Status = \<lparr>cst_Conditions = []\<rparr>\<rparr>"

definition CloudProvider_GetSupportedNodeClasses :: "'client CloudProvider \<Rightarrow> PVENodeClass list" where
  "CloudProvider_GetSupportedNodeClasses c = [zeroPVENodeClass]"

section \<open>Lemmas\<close>

lemma supported_class_has_no_conditions:
  "\<forall>nc \<in> set (CloudProvider_GetSupportedNodeClasses c). GetConditions nc = [] \<and> SetConditions nc [] = nc"
  by (simp add: CloudProvider_GetSupportedNodeClasses_def GetConditions_eq SetConditions_eq zeroPVENodeClass_def)

end
