(* ===== verification/Go_Flag.thy ===== *)
theory Go_Flag
  imports Prelude
begin

text \<open>
  Go's \<open>flag\<close> package as far as the controller's \<open>main\<close> uses it: \<open>flag.Parse\<close> over the
  registered flags, \<open>strconv.ParseBool\<close> for the boolean ones and the exit codes of
  \<open>flag.ExitOnError\<close>. A flag set is a table of kinds and a setter that may refuse a value.
\<close>

section \<open>Tokens\<close>

datatype flag_kind = BoolFlag | ValueFlag

datatype token =
    Operand
  | Terminator
  | Malformed
  | Flag string "string option"

text \<open>The part of \<open>parseOne\<close> that looks at one argument.\<close>

definition flag_token :: "string \<Rightarrow> token" where
  "flag_token s =
     (if length s < 2 \<or> s ! 0 \<noteq> CHR ''-'' then Operand
      else if s = ''--'' then Terminator
      else let name = drop (if s ! 1 = CHR ''-'' then 2 else 1) s in
        if name = [] \<or> hd name = CHR ''-'' \<or> hd name = CHR ''='' then Malformed
        else if CHR ''='' \<in> set name
          then Flag (takeWhile (\<lambda>c. c \<noteq> CHR ''='') name) (Some (tl (dropWhile (\<lambda>c. c \<noteq> CHR ''='') name)))
          else Flag name None)"

definition ParseBool :: "string \<Rightarrow> bool option" where
  "ParseBool s =
     (if s \<in> {''1'', ''t'', ''T'', ''TRUE'', ''true'', ''True''} then Some True
      else if s \<in> {''0'', ''f'', ''F'', ''FALSE'', ''false'', ''False''} then Some False
      else None)"

section \<open>Parse\<close>

datatype flag_error =
    ErrHelp
  | BadSyntax string
  | NotDefined string
  | NeedsArgument string
  | InvalidValue string string

text \<open>
  \<open>flag.Parse\<close>: the flags up to the first operand or \<open>--\<close>, and the operands that are left. A
  boolean flag takes a value only behind \<open>=\<close>, another one from the next argument too.
\<close>

fun flag_Parse ::
    "(string \<Rightarrow> flag_kind option) \<Rightarrow> (string \<Rightarrow> string \<Rightarrow> 's \<Rightarrow> 's option) \<Rightarrow> string list \<Rightarrow> 's
       \<Rightarrow> flag_error + string list \<times> 's" where
  "flag_Parse formal assign [] st = Inr ([], st)"
| "flag_Parse formal assign (s # rest) st =
     (case flag_token s of
        Operand \<Rightarrow> Inr (s # rest, st)
      | Terminator \<Rightarrow> Inr (rest, st)
      | Malformed \<Rightarrow> Inl (BadSyntax s)
      | Flag name value \<Rightarrow>
          (case formal name of
             None \<Rightarrow> Inl (if name = ''help'' \<or> name = ''h'' then ErrHelp else NotDefined name)
           | Some BoolFlag \<Rightarrow>
               (let v = (case value of Some v \<Rightarrow> v | None \<Rightarrow> ''true'') in
                case assign name v st of
                  None \<Rightarrow> Inl (InvalidValue name v)
                | Some st' \<Rightarrow> flag_Parse formal assign rest st')
           | Some ValueFlag \<Rightarrow>
               (case value of
                  Some v \<Rightarrow> (case assign name v st of
                      None \<Rightarrow> Inl (InvalidValue name v)
                    | Some st' \<Rightarrow> flag_Parse formal assign rest st')
                | None \<Rightarrow>
                    (case rest of
                       [] \<Rightarrow> Inl (NeedsArgument name)
                     | v # rest' \<Rightarrow> (case assign name v st of
                         None \<Rightarrow> Inl (InvalidValue name v)
                       | Some st' \<Rightarrow> flag_Parse formal assign rest' st')))))"

text \<open>What the process does with an error.\<close>

definition ExitOnError :: "flag_error \<Rightarrow> nat" where
  "ExitOnError e = (if e = ErrHelp then 0 else 2)"

section \<open>Lemmas\<close>

text \<open>Flags written as \<open>--name=value\<close> are assigned in their order.\<close>

definition long_flag :: "string \<times> string \<Rightarrow> string" where
  "long_flag g = ''--'' @ fst g @ CHR ''='' # snd g"

definition flag_name :: "string \<Rightarrow> bool" where
  "flag_name n \<longleftrightarrow> n \<noteq> [] \<and> hd n \<noteq> CHR ''-'' \<and> CHR ''='' \<notin> set n"

fun assign_all ::
    "(string \<Rightarrow> string \<Rightarrow> 's \<Rightarrow> 's option) \<Rightarrow> (string \<times> string) list \<Rightarrow> 's \<Rightarrow> flag_error + 's" where
  "assign_all assign [] st = Inr st"
| "assign_all assign ((n, v) # gs) st =
     (case assign n v st of None \<Rightarrow> Inl (InvalidValue n v) | Some st' \<Rightarrow> assign_all assign gs st')"

lemma split_at_first: "x \<notin> set xs \<Longrightarrow> takeWhile (\<lambda>c. c \<noteq> x) (xs @ x # ys) = xs"
    "x \<notin> set xs \<Longrightarrow> dropWhile (\<lambda>c. c \<noteq> x) (xs @ x # ys) = x # ys"
  by (induction xs) auto

lemma flag_token_long:
  assumes "flag_name n"
  shows "flag_token (long_flag (n, v)) = Flag n (Some v)"
proof -
  have n: "n \<noteq> []" "hd n \<noteq> CHR ''-''" "CHR ''='' \<notin> set n" "hd n \<noteq> CHR ''=''"
    using assms by (auto simp: flag_name_def neq_Nil_conv)
  then show ?thesis
    by (simp add: flag_token_def long_flag_def split_at_first Let_def)
qed

lemma flag_Parse_long:
  "\<forall>(n, v) \<in> set given. flag_name n \<and> formal n \<noteq> None \<Longrightarrow>
     flag_Parse formal assign (map long_flag given) st =
       (case assign_all assign given st of Inl e \<Rightarrow> Inl e | Inr st' \<Rightarrow> Inr ([], st'))"
proof (induction given arbitrary: st)
  case (Cons g given)
  obtain n v where g: "g = (n, v)" by fastforce
  obtain k where k: "formal n = Some k" "flag_name n" using Cons.prems g by auto
  have IH: "flag_Parse formal assign (map long_flag given) st' =
      (case assign_all assign given st' of Inl e \<Rightarrow> Inl e | Inr st' \<Rightarrow> Inr ([], st'))" for st'
    using Cons.prems by (intro Cons.IH) simp
  show ?case by (cases k) (simp_all add: g flag_token_long k IH split: option.split)
qed simp

end
