(* ===== verification/Scheme_Registration.thy ===== *)
theory Scheme_Registration
  imports Api_Types
begin

text \<open>
  The registration of the API types: \<open>api/v1alpha1/groupversion_info.go\<close>, the \<open>init\<close> functions of
  both types files and of \<open>cmd/controller/main.go\<close>, in the order in which Go runs them. The scheme
  and its builder are library types \<open>'s\<close> and \<open>'b\<close>; an object is given by the name of its Go type,
  which is the kind the library registers it under.
\<close>

record GroupVersion =
  gv_Group :: string
  gv_Version :: string

record GroupVersionKind =
  gvk_GroupVersion :: GroupVersion
  gvk_Kind :: string

record ('b, 's) scheme_lib =
  sl_NewScheme :: 's
  sl_Builder :: "GroupVersion \<Rightarrow> 'b"
  sl_Register :: "string list \<Rightarrow> 'b \<Rightarrow> 'b"
  sl_AddToScheme :: "'b \<Rightarrow> 's \<Rightarrow> go_error option \<times> 's"
  sl_clientgo_AddToScheme :: "'s \<Rightarrow> go_error option \<times> 's"
  sl_Recognizes :: "'s \<Rightarrow> GroupVersionKind \<Rightarrow> bool"

definition SchemeGroupVersion :: GroupVersion where
  "SchemeGroupVersion = \<lparr>gv_Group = ''karpenter.algo7.dev'', gv_Version = ''v1alpha1''\<rparr>"

definition GroupVersion_alias :: GroupVersion where
  "GroupVersion_alias = SchemeGroupVersion"

definition SchemeBuilder :: "('b, 's) scheme_lib \<Rightarrow> 'b" where
  "SchemeBuilder lib = sl_Builder lib SchemeGroupVersion"

text \<open>The \<open>init\<close> functions of the package, in the order of its files.\<close>

definition init_pvenodeclass_types :: "('b, 's) scheme_lib \<Rightarrow> 'b \<Rightarrow> 'b" where
  "init_pvenodeclass_types lib b = sl_Register lib [''PVENodeClass'', ''PVENodeClassList''] b"

definition init_pvenodeimage_types :: "('b, 's) scheme_lib \<Rightarrow> 'b \<Rightarrow> 'b" where
  "init_pvenodeimage_types lib b = sl_Register lib [''PVENodeImage'', ''PVENodeImageList''] b"

definition v1alpha1_AddToScheme :: "('b, 's) scheme_lib \<Rightarrow> 's \<Rightarrow> go_error option \<times> 's" where
  "v1alpha1_AddToScheme lib =
     sl_AddToScheme lib (init_pvenodeimage_types lib (init_pvenodeclass_types lib (SchemeBuilder lib)))"

text \<open>\<open>utilruntime.Must\<close> panics on an error: the outcome of \<open>init\<close> is the panic or the scheme.\<close>

definition main_init :: "('b, 's) scheme_lib \<Rightarrow> 's result" where
  "main_init lib =
     (case sl_clientgo_AddToScheme lib (sl_NewScheme lib) of
        (Some err, s) \<Rightarrow> Inl err
      | (None, s) \<Rightarrow>
          (case v1alpha1_AddToScheme lib s of
             (Some err, s) \<Rightarrow> Inl err
           | (None, s) \<Rightarrow> Inr s))"

section \<open>What is relied on\<close>

text \<open>
  The documented effect of the library: adding a builder to a scheme makes it recognize the kinds
  registered with the builder under the builder's group and version, and forget none; the
  scheme of client-go has the Jobs of \<open>batch/v1\<close>.
\<close>

definition batchJob :: GroupVersionKind where
  "batchJob = \<lparr>gvk_GroupVersion = \<lparr>gv_Group = ''batch'', gv_Version = ''v1''\<rparr>, gvk_Kind = ''Job''\<rparr>"

definition scheme_contract :: "('b, 's) scheme_lib \<Rightarrow> bool" where
  "scheme_contract lib \<longleftrightarrow>
     (\<forall>gv kss s s'. sl_AddToScheme lib (fold (sl_Register lib) kss (sl_Builder lib gv)) s = (None, s') \<longrightarrow>
        (\<forall>ks \<in> set kss. \<forall>k \<in> set ks. sl_Recognizes lib s' \<lparr>gvk_GroupVersion = gv, gvk_Kind = k\<rparr>) \<and>
        (\<forall>gvk. sl_Recognizes lib s gvk \<longrightarrow> sl_Recognizes lib s' gvk)) \<and>
     (\<forall>s s'. sl_clientgo_AddToScheme lib s = (None, s') \<longrightarrow> sl_Recognizes lib s' batchJob)"

text \<open>A library that keeps the kinds as a list, and can be told to fail.\<close>

definition list_scheme :: "(GroupVersion \<times> string list, GroupVersionKind list) scheme_lib" where
  "list_scheme = \<lparr>sl_NewScheme = [], sl_Builder = (\<lambda>gv. (gv, [])),
     sl_Register = (\<lambda>ks b. (fst b, snd b @ ks)),
     sl_AddToScheme = (\<lambda>b s. (None, s @ map (\<lambda>k. \<lparr>gvk_GroupVersion = fst b, gvk_Kind = k\<rparr>) (snd b))),
     sl_clientgo_AddToScheme = (\<lambda>s. (None, s @ [batchJob])),
     sl_Recognizes = (\<lambda>s gvk. gvk \<in> set s)\<rparr>"

lemma list_scheme_fold:
  "fold (sl_Register list_scheme) kss (gv, ks) = (gv, ks @ concat kss)"
  by (induction kss arbitrary: ks) (simp_all add: list_scheme_def)

lemma list_scheme_ok: "scheme_contract list_scheme"
proof -
  have "sl_Builder list_scheme gv = (gv, [])" for gv by (simp add: list_scheme_def)
  then show ?thesis
    by (simp add: scheme_contract_def list_scheme_fold) (auto simp: list_scheme_def)
qed

section \<open>The scheme of the controller\<close>

lemma main_init_recognizes:
  assumes "scheme_contract lib" "main_init lib = Inr s"
    and "gvk = batchJob \<or> gvk_GroupVersion gvk = SchemeGroupVersion \<and>
      gvk_Kind gvk \<in> {''PVENodeClass'', ''PVENodeClassList'', ''PVENodeImage'', ''PVENodeImageList''}"
  shows "sl_Recognizes lib s gvk"
proof -
  let ?kss = "[[''PVENodeClass'', ''PVENodeClassList''], [''PVENodeImage'', ''PVENodeImageList'']]"
  obtain s1 where c: "sl_clientgo_AddToScheme lib (sl_NewScheme lib) = (None, s1)"
    and v: "v1alpha1_AddToScheme lib s1 = (None, s)"
    using assms(2) by (auto simp: main_init_def split: prod.splits option.splits)
  have job: "sl_Recognizes lib s1 batchJob"
    using assms(1) c unfolding scheme_contract_def by blast
  have "sl_AddToScheme lib (fold (sl_Register lib) ?kss (sl_Builder lib SchemeGroupVersion)) s1 = (None, s)"
    using v by (simp add: v1alpha1_AddToScheme_def init_pvenodeclass_types_def init_pvenodeimage_types_def
        SchemeBuilder_def)
  then have all: "\<forall>ks \<in> set ?kss. \<forall>k \<in> set ks. sl_Recognizes lib s \<lparr>gvk_GroupVersion = SchemeGroupVersion, gvk_Kind = k\<rparr>"
    and keep: "\<forall>gvk. sl_Recognizes lib s1 gvk \<longrightarrow> sl_Recognizes lib s gvk"
    using assms(1) unfolding scheme_contract_def by blast+
  show ?thesis
  proof (cases "gvk = batchJob")
    case True
    then show ?thesis using keep job by simp
  next
    case False
    then have "gvk = \<lparr>gvk_GroupVersion = SchemeGroupVersion, gvk_Kind = gvk_Kind gvk\<rparr>"
      using assms(3) by (cases gvk) simp
    then show ?thesis using all assms(3) False by (metis (no_types) insertE empty_iff list.set_intros)
  qed
qed

end
