(* ===== verification/Manager_Main.thy ===== *)
theory Manager_Main
  imports Go_Flag Scheme_Registration
begin

text \<open>
  \<open>cmd/controller/main.go\<close>: the flags of the controller with their defaults, the options of the
  webhook server, the metrics server and the manager, the registration of the two reconcilers
  and the start with its exit codes. Flags registered by libraries (the zap logger's and
  \<open>--kubeconfig\<close>) are a value \<open>'z\<close> behind two parameters; the manager is a record of functions
  over an abstract state \<open>'w\<close>.
\<close>

section \<open>Flags\<close>

record 'z ctrl_flags =
  metricsAddr :: string
  probeAddr :: string
  enableLeaderElection :: bool
  secureMetrics :: bool
  webhookCertPath :: string
  webhookCertName :: string
  webhookCertKey :: string
  metricsCertPath :: string
  metricsCertName :: string
  metricsCertKey :: string
  enableHTTP2 :: bool
  libFlags :: 'z

record 'z flag_libs =
  fl_formal :: "string \<Rightarrow> flag_kind option"
  fl_assign :: "string \<Rightarrow> string \<Rightarrow> 'z \<Rightarrow> 'z option"
  fl_initial :: 'z

definition defaultFlags :: "'z flag_libs \<Rightarrow> 'z ctrl_flags" where
  "defaultFlags fl = \<lparr>metricsAddr = ''0'', probeAddr = '':8081'', enableLeaderElection = False,
     secureMetrics = True, webhookCertPath = '''', webhookCertName = ''tls.crt'',
     webhookCertKey = ''tls.key'', metricsCertPath = '''', metricsCertName = ''tls.crt'',
     metricsCertKey = ''tls.key'', enableHTTP2 = False, libFlags = fl_initial fl\<rparr>"

definition stringFlags :: "(string \<times> (string \<Rightarrow> 'z ctrl_flags \<Rightarrow> 'z ctrl_flags)) list" where
  "stringFlags = [
     (''metrics-bind-address'', \<lambda>v. metricsAddr_update (\<lambda>_. v)),
     (''health-probe-bind-address'', \<lambda>v. probeAddr_update (\<lambda>_. v)),
     (''webhook-cert-path'', \<lambda>v. webhookCertPath_update (\<lambda>_. v)),
     (''webhook-cert-name'', \<lambda>v. webhookCertName_update (\<lambda>_. v)),
     (''webhook-cert-key'', \<lambda>v. webhookCertKey_update (\<lambda>_. v)),
     (''metrics-cert-path'', \<lambda>v. metricsCertPath_update (\<lambda>_. v)),
     (''metrics-cert-name'', \<lambda>v. metricsCertName_update (\<lambda>_. v)),
     (''metrics-cert-key'', \<lambda>v. metricsCertKey_update (\<lambda>_. v))]"

definition boolFlags :: "(string \<times> (bool \<Rightarrow> 'z ctrl_flags \<Rightarrow> 'z ctrl_flags)) list" where
  "boolFlags = [
     (''leader-elect'', \<lambda>b. enableLeaderElection_update (\<lambda>_. b)),
     (''metrics-secure'', \<lambda>b. secureMetrics_update (\<lambda>_. b)),
     (''enable-http2'', \<lambda>b. enableHTTP2_update (\<lambda>_. b))]"

definition formalFlag :: "'z flag_libs \<Rightarrow> string \<Rightarrow> flag_kind option" where
  "formalFlag fl n =
     (if n \<in> set (map fst (stringFlags :: (string \<times> (string \<Rightarrow> 'z ctrl_flags \<Rightarrow> _)) list)) then Some ValueFlag
      else if n \<in> set (map fst (boolFlags :: (string \<times> (bool \<Rightarrow> 'z ctrl_flags \<Rightarrow> _)) list)) then Some BoolFlag
      else fl_formal fl n)"

definition assignFlag :: "'z flag_libs \<Rightarrow> string \<Rightarrow> string \<Rightarrow> 'z ctrl_flags \<Rightarrow> 'z ctrl_flags option" where
  "assignFlag fl n v st =
     (case map_of stringFlags n of
        Some f \<Rightarrow> Some (f v st)
      | None \<Rightarrow>
          (case map_of boolFlags n of
             Some f \<Rightarrow> map_option (\<lambda>b. f b st) (ParseBool v)
           | None \<Rightarrow> map_option (\<lambda>z. st\<lparr>libFlags := z\<rparr>) (fl_assign fl n v (libFlags st))))"

definition parseFlags :: "'z flag_libs \<Rightarrow> string list \<Rightarrow> flag_error + string list \<times> 'z ctrl_flags" where
  "parseFlags fl args = flag_Parse (formalFlag fl) (assignFlag fl) args (defaultFlags fl)"

section \<open>TLS and server options\<close>

text \<open>Of \<open>tls.Config\<close> only \<open>NextProtos\<close> is written; the other fields are the record's extension.\<close>

record tls_Config =
  NextProtos :: "string list"

definition disableHTTP2 :: "'a tls_Config_scheme \<Rightarrow> 'a tls_Config_scheme" where
  "disableHTTP2 c = c\<lparr>NextProtos := [''http/1.1'']\<rparr>"

definition tlsOpts :: "'z ctrl_flags \<Rightarrow> ('a tls_Config_scheme \<Rightarrow> 'a tls_Config_scheme) list" where
  "tlsOpts fs = (if \<not> enableHTTP2 fs then [] @ [disableHTTP2] else [])"

record 'a webhook_Options =
  wo_TLSOpts :: "('a tls_Config_scheme \<Rightarrow> 'a tls_Config_scheme) list"
  wo_CertDir :: string
  wo_CertName :: string
  wo_KeyName :: string

definition webhookServerOptions :: "'z ctrl_flags \<Rightarrow> 'a webhook_Options" where
  "webhookServerOptions fs =
     (let o0 = \<lparr>wo_TLSOpts = tlsOpts fs, wo_CertDir = '''', wo_CertName = '''', wo_KeyName = ''''\<rparr>
      in if length (webhookCertPath fs) > 0
         then o0\<lparr>wo_CertDir := webhookCertPath fs, wo_CertName := webhookCertName fs, wo_KeyName := webhookCertKey fs\<rparr>
         else o0)"

datatype filter_provider = WithAuthenticationAndAuthorization

record 'a metrics_Options =
  mo_BindAddress :: string
  mo_SecureServing :: bool
  mo_TLSOpts :: "('a tls_Config_scheme \<Rightarrow> 'a tls_Config_scheme) list"
  mo_FilterProvider :: "filter_provider option"
  mo_CertDir :: string
  mo_CertName :: string
  mo_KeyName :: string

definition metricsServerOptions :: "'z ctrl_flags \<Rightarrow> 'a metrics_Options" where
  "metricsServerOptions fs =
     (let o0 = \<lparr>mo_BindAddress = metricsAddr fs, mo_SecureServing = secureMetrics fs, mo_TLSOpts = tlsOpts fs,
                mo_FilterProvider = None, mo_CertDir = '''', mo_CertName = '''', mo_KeyName = ''''\<rparr>;
          o1 = (if secureMetrics fs then o0\<lparr>mo_FilterProvider := Some WithAuthenticationAndAuthorization\<rparr> else o0)
      in if length (metricsCertPath fs) > 0
         then o1\<lparr>mo_CertDir := metricsCertPath fs, mo_CertName := metricsCertName fs, mo_KeyName := metricsCertKey fs\<rparr>
         else o1)"

record ('a, 'h, 's) ctrl_Options =
  op_Scheme :: 's
  op_Metrics :: "'a metrics_Options"
  op_WebhookServer :: 'h
  op_HealthProbeBindAddress :: string
  op_LeaderElection :: bool
  op_LeaderElectionID :: string

definition ctrlOptions :: "'s \<Rightarrow> 'z ctrl_flags \<Rightarrow> 'h \<Rightarrow> ('a, 'h, 's) ctrl_Options" where
  "ctrlOptions scheme fs webhookServer = \<lparr>
     op_Scheme = scheme,
     op_Metrics = metricsServerOptions fs,
     op_WebhookServer = webhookServer,
     op_HealthProbeBindAddress = probeAddr fs,
     op_LeaderElection = enableLeaderElection fs,
     op_LeaderElectionID = ''9f54aff9.algo7.dev''\<rparr>"

section \<open>Registration of the reconcilers\<close>

text \<open>
  \<open>SetupWithManager\<close>: the kind a reconciler is for, the kinds it watches through their owners,
  and its name. \<open>complete\<close> is the library's builder.
\<close>

record owner_watch =
  ow_Kind :: string
  ow_OwnerKind :: string
  ow_OnlyController :: bool

record registration =
  rg_For :: string
  rg_Watches :: "owner_watch list"
  rg_Named :: string

definition SetupPVENodeImage ::
    "('m \<Rightarrow> registration \<Rightarrow> 'w \<Rightarrow> go_error option \<times> 'w) \<Rightarrow> 'm \<Rightarrow> 'w \<Rightarrow> go_error option \<times> 'w" where
  "SetupPVENodeImage complete mgr w =
     complete mgr \<lparr>rg_For = ''PVENodeImage'',
       rg_Watches = [\<lparr>ow_Kind = ''Job'', ow_OwnerKind = ''PVENodeImage'', ow_OnlyController = True\<rparr>],
       rg_Named = ''pvenodeimage''\<rparr> w"

definition SetupPVENodeClass ::
    "('m \<Rightarrow> registration \<Rightarrow> 'w \<Rightarrow> go_error option \<times> 'w) \<Rightarrow> 'm \<Rightarrow> 'w \<Rightarrow> go_error option \<times> 'w" where
  "SetupPVENodeClass complete mgr w =
     complete mgr \<lparr>rg_For = ''PVENodeClass'', rg_Watches = [], rg_Named = ''pvenodeclass''\<rparr> w"

section \<open>main\<close>

record ('a, 'h, 's, 'c, 'm, 'w) manager_lib =
  ml_NewServer :: "'a webhook_Options \<Rightarrow> 'h"
  ml_GetConfig :: "'w \<Rightarrow> 'c result \<times> 'w"
  ml_NewManager :: "'c \<Rightarrow> ('a, 'h, 's) ctrl_Options \<Rightarrow> 'w \<Rightarrow> 'm result \<times> 'w"
  ml_Complete :: "'m \<Rightarrow> registration \<Rightarrow> 'w \<Rightarrow> go_error option \<times> 'w"
  ml_AddHealthzCheck :: "'m \<Rightarrow> string \<Rightarrow> 'w \<Rightarrow> go_error option \<times> 'w"
  ml_AddReadyzCheck :: "'m \<Rightarrow> string \<Rightarrow> 'w \<Rightarrow> go_error option \<times> 'w"
  ml_Start :: "'m \<Rightarrow> 'w \<Rightarrow> go_error option \<times> 'w"

text \<open>
  A step, or \<open>os.Exit(1)\<close> after its message. The outcome of \<open>main\<close> is the exit code, the messages
  of the setup log and the state.
\<close>

definition or_exit ::
    "string list \<Rightarrow> go_error option \<times> 'w \<Rightarrow> string \<Rightarrow> ('w \<Rightarrow> nat \<times> string list \<times> 'w) \<Rightarrow> nat \<times> string list \<times> 'w" where
  "or_exit log step msg rest =
     (case step of (Some err, w) \<Rightarrow> (1, log @ [msg], w) | (None, w) \<Rightarrow> rest w)"

definition certLog :: "'z ctrl_flags \<Rightarrow> string list" where
  "certLog fs =
     (if length (webhookCertPath fs) > 0
      then [''Initializing webhook certificate watcher using provided certificates''] else []) @
     (if length (metricsCertPath fs) > 0
      then [''Initializing metrics certificate watcher using provided certificates''] else [])"

definition controller_main ::
    "'z flag_libs \<Rightarrow> ('a, 'h, 's, 'c, 'm, 'w) manager_lib \<Rightarrow> 's \<Rightarrow> string list \<Rightarrow> 'w \<Rightarrow> nat \<times> string list \<times> 'w" where
  "controller_main fl lib scheme args w =
     (case parseFlags fl args of
        Inl e \<Rightarrow> (ExitOnError e, [], w)
      | Inr (_, fs) \<Rightarrow>
          (let log = certLog fs;
               webhookServer = ml_NewServer lib (webhookServerOptions fs)
           in case ml_GetConfig lib w of
                (Inl err, w) \<Rightarrow> (1, log, w)
              | (Inr cfg, w) \<Rightarrow>
                  (case ml_NewManager lib cfg (ctrlOptions scheme fs webhookServer) w of
                     (Inl err, w) \<Rightarrow> (1, log @ [''Failed to start manager''], w)
                   | (Inr mgr, w) \<Rightarrow>
                       or_exit log (SetupPVENodeImage (ml_Complete lib) mgr w) ''Failed to create controller'' (\<lambda>w.
                       or_exit log (SetupPVENodeClass (ml_Complete lib) mgr w) ''Failed to create controller'' (\<lambda>w.
                       or_exit log (ml_AddHealthzCheck lib mgr ''healthz'' w) ''Failed to set up health check'' (\<lambda>w.
                       or_exit log (ml_AddReadyzCheck lib mgr ''readyz'' w) ''Failed to set up ready check'' (\<lambda>w.
                       or_exit (log @ [''Starting manager'']) (ml_Start lib mgr w) ''Failed to run manager'' (\<lambda>w.
                       (0, log @ [''Starting manager''], w)))))))))"

text \<open>
  The process: the \<open>init\<close> functions, of which a panic ends the process with exit code 2, then
  \<open>main\<close> with the scheme they have built.
\<close>

definition controller_process ::
    "('b, 's) scheme_lib \<Rightarrow> 'z flag_libs \<Rightarrow> ('a, 'h, 's, 'c, 'm, 'w) manager_lib \<Rightarrow> string list \<Rightarrow> 'w
       \<Rightarrow> nat \<times> string list \<times> 'w" where
  "controller_process sl fl lib args w =
     (case main_init sl of
        Inl err \<Rightarrow> (2, [], w)
      | Inr scheme \<Rightarrow> controller_main fl lib scheme args w)"

section \<open>Reference definitions\<close>

text \<open>A command line that sets all flags of the program.\<close>

definition show_bool :: "bool \<Rightarrow> string" where
  "show_bool b = (if b then ''true'' else ''false'')"

definition renderFlags :: "'z ctrl_flags \<Rightarrow> string list" where
  "renderFlags fs = map long_flag [
     (''metrics-bind-address'', metricsAddr fs), (''health-probe-bind-address'', probeAddr fs),
     (''leader-elect'', show_bool (enableLeaderElection fs)), (''metrics-secure'', show_bool (secureMetrics fs)),
     (''webhook-cert-path'', webhookCertPath fs), (''webhook-cert-name'', webhookCertName fs),
     (''webhook-cert-key'', webhookCertKey fs), (''metrics-cert-path'', metricsCertPath fs),
     (''metrics-cert-name'', metricsCertName fs), (''metrics-cert-key'', metricsCertKey fs),
     (''enable-http2'', show_bool (enableHTTP2 fs))]"

lemma ParseBool_show [simp]: "ParseBool (show_bool b) = Some b"
  by (simp add: ParseBool_def show_bool_def)

text \<open>A library that records the calls and fails those it is told to.\<close>

definition call :: "(string \<Rightarrow> bool) \<Rightarrow> string \<Rightarrow> string list \<Rightarrow> go_error option \<times> string list" where
  "call fails n w = (if fails n then Some (Err n) else None, w @ [n])"

definition call_result :: "(string \<Rightarrow> bool) \<Rightarrow> string \<Rightarrow> string list \<Rightarrow> unit result \<times> string list" where
  "call_result fails n w = (if fails n then Inl (Err n) else Inr (), w @ [n])"

definition recorder :: "(string \<Rightarrow> bool) \<Rightarrow> ('a, unit, 's, unit, unit, string list) manager_lib" where
  "recorder fails = \<lparr>ml_NewServer = (\<lambda>o1. ()), ml_GetConfig = call_result fails ''config'',
     ml_NewManager = (\<lambda>c o1. call_result fails ''manager''),
     ml_Complete = (\<lambda>m r. call fails (rg_Named r)),
     ml_AddHealthzCheck = (\<lambda>m n. call fails n), ml_AddReadyzCheck = (\<lambda>m n. call fails n),
     ml_Start = (\<lambda>m. call fails ''start'')\<rparr>"

definition startSteps :: "string list" where
  "startSteps = [''config'', ''manager'', ''pvenodeimage'', ''pvenodeclass'', ''healthz'', ''readyz'', ''start'']"

section \<open>Properties\<close>

text \<open>
  Claim C25. Parsing reads back what the command line says: the flags of the program written out
  as \<open>--name=value\<close> give exactly their values, whatever bytes the values are made of, and leave
  the library flags alone.
\<close>

theorem parseFlags_roundtrip:
  "parseFlags fl (renderFlags fs) = Inr ([], fs\<lparr>libFlags := fl_initial fl\<rparr>)"
proof -
  have "parseFlags fl (renderFlags fs) =
      (case assign_all (assignFlag fl) [
     (''metrics-bind-address'', metricsAddr fs), (''health-probe-bind-address'', probeAddr fs),
     (''leader-elect'', show_bool (enableLeaderElection fs)), (''metrics-secure'', show_bool (secureMetrics fs)),
     (''webhook-cert-path'', webhookCertPath fs), (''webhook-cert-name'', webhookCertName fs),
     (''webhook-cert-key'', webhookCertKey fs), (''metrics-cert-path'', metricsCertPath fs),
     (''metrics-cert-name'', metricsCertName fs), (''metrics-cert-key'', metricsCertKey fs),
     (''enable-http2'', show_bool (enableHTTP2 fs))] (defaultFlags fl) of Inl e \<Rightarrow> Inl e | Inr st' \<Rightarrow> Inr ([], st'))"
    unfolding parseFlags_def renderFlags_def
    by (rule flag_Parse_long) (simp add: flag_name_def formalFlag_def stringFlags_def boolFlags_def)
  also have "\<dots> = Inr ([], fs\<lparr>libFlags := fl_initial fl\<rparr>)"
    by (simp add: assignFlag_def stringFlags_def boolFlags_def defaultFlags_def)
  finally show ?thesis .
qed

text \<open>
  Claim C30. What the options say of the two servers: HTTP/2 is off on both unless it is enabled,
  and nothing else of the TLS configuration is touched; the metrics endpoint is filtered exactly
  when it is secure; a certificate is configured exactly for a server whose directory is given.
\<close>

theorem server_options:
  fixes c :: "'a tls_Config_scheme"
  shows "fold (\<lambda>f. f) (wo_TLSOpts (webhookServerOptions fs)) c =
      (if enableHTTP2 fs then c else c\<lparr>NextProtos := [''http/1.1'']\<rparr>) \<and>
    fold (\<lambda>f. f) (mo_TLSOpts (metricsServerOptions fs)) c =
      (if enableHTTP2 fs then c else c\<lparr>NextProtos := [''http/1.1'']\<rparr>) \<and>
    (mo_FilterProvider (metricsServerOptions fs :: 'a metrics_Options) \<noteq> None \<longleftrightarrow> secureMetrics fs) \<and>
    mo_SecureServing (metricsServerOptions fs :: 'a metrics_Options) = secureMetrics fs \<and>
    wo_CertDir (webhookServerOptions fs :: 'a webhook_Options) = webhookCertPath fs \<and>
    mo_CertDir (metricsServerOptions fs :: 'a metrics_Options) = metricsCertPath fs \<and>
    (wo_CertName (webhookServerOptions fs :: 'a webhook_Options), wo_KeyName (webhookServerOptions fs :: 'a webhook_Options)) =
      (if webhookCertPath fs = [] then ([], []) else (webhookCertName fs, webhookCertKey fs)) \<and>
    (mo_CertName (metricsServerOptions fs :: 'a metrics_Options), mo_KeyName (metricsServerOptions fs :: 'a metrics_Options)) =
      (if metricsCertPath fs = [] then ([], []) else (metricsCertName fs, metricsCertKey fs))"
  by (simp add: webhookServerOptions_def metricsServerOptions_def tlsOpts_def disableHTTP2_def Let_def)

text \<open>
  Claim C20. The start: the calls to the library are made in one order, each only after all before
  it have succeeded; the process exits with 0 exactly when none fails, with 1 after the first
  that fails, and with 2 (0 for \<open>--help\<close>) and no call at all when the command line is refused.
\<close>

theorem controller_main_order:
  "case parseFlags fl args of
     Inl e \<Rightarrow> controller_main fl (recorder fails) scheme args [] = (if e = ErrHelp then 0 else 2, [], [])
   | Inr (rest, fs) \<Rightarrow>
       (let (code, log, calls) = controller_main fl (recorder fails) scheme args [] in
        calls = takeWhile (\<lambda>n. \<not> fails n) startSteps @ take 1 (dropWhile (\<lambda>n. \<not> fails n) startSteps) \<and>
        code = (if \<exists>n \<in> set startSteps. fails n then 1 else 0) \<and>
        (''Starting manager'' \<in> set log \<longleftrightarrow> ''start'' \<in> set calls))"
proof (cases "parseFlags fl args")
  case (Inl e)
  then show ?thesis by (simp add: controller_main_def ExitOnError_def)
next
  case (Inr p)
  then show ?thesis
    by (cases p) (simp add: controller_main_def or_exit_def recorder_def call_def call_result_def
        SetupPVENodeImage_def SetupPVENodeClass_def startSteps_def certLog_def Let_def)
qed

section \<open>The scheme the manager gets\<close>

text \<open>A library that records what it is asked to register and with which scheme the manager is made.\<close>

record 's start_record =
  sr_Schemes :: "'s list"
  sr_Registrations :: "registration list"

definition registrar :: "('a, unit, 's, unit, unit, 's start_record) manager_lib" where
  "registrar = \<lparr>ml_NewServer = (\<lambda>o1. ()), ml_GetConfig = (\<lambda>w. (Inr (), w)),
     ml_NewManager = (\<lambda>c o1 w. (Inr (), w\<lparr>sr_Schemes := sr_Schemes w @ [op_Scheme o1]\<rparr>)),
     ml_Complete = (\<lambda>m r w. (None, w\<lparr>sr_Registrations := sr_Registrations w @ [r]\<rparr>)),
     ml_AddHealthzCheck = (\<lambda>m n w. (None, w)), ml_AddReadyzCheck = (\<lambda>m n w. (None, w)),
     ml_Start = (\<lambda>m w. (None, w))\<rparr>"

definition own_kind :: "string \<Rightarrow> GroupVersionKind" where
  "own_kind k = \<lparr>gvk_GroupVersion = SchemeGroupVersion, gvk_Kind = k\<rparr>"

text \<open>
  Claim C22. The scheme that the \<open>init\<close> functions build is the one the manager is made with, and it
  recognizes everything the controllers are registered for: the kind each reconciles, with its
  list kind, the owner kinds of its watches, and the Job that is watched.
\<close>

theorem scheme_covers_registrations:
  fixes args :: "string list"
  assumes "scheme_contract sl" "main_init sl = Inr scheme" "parseFlags fl args = Inr (rest, fs)"
    and run: "controller_process sl fl registrar args \<lparr>sr_Schemes = [], sr_Registrations = []\<rparr> = (code, log, w)"
  shows "code = 0 \<and> sr_Schemes w = [scheme] \<and> map rg_Named (sr_Registrations w) = [''pvenodeimage'', ''pvenodeclass''] \<and>
    (\<forall>r \<in> set (sr_Registrations w). sl_Recognizes sl scheme (own_kind (rg_For r)) \<and>
       sl_Recognizes sl scheme (own_kind (rg_For r @ ''List'')) \<and>
       (\<forall>o1 \<in> set (rg_Watches r). ow_Kind o1 = gvk_Kind batchJob \<and> sl_Recognizes sl scheme batchJob \<and>
          sl_Recognizes sl scheme (own_kind (ow_OwnerKind o1))))"
proof -
  have w: "code = 0" "sr_Schemes w = [scheme]"
    "sr_Registrations w = [
       \<lparr>rg_For = ''PVENodeImage'',
        rg_Watches = [\<lparr>ow_Kind = ''Job'', ow_OwnerKind = ''PVENodeImage'', ow_OnlyController = True\<rparr>],
        rg_Named = ''pvenodeimage''\<rparr>,
       \<lparr>rg_For = ''PVENodeClass'', rg_Watches = [], rg_Named = ''pvenodeclass''\<rparr>]"
    using run by (auto simp: controller_process_def assms(2,3) controller_main_def or_exit_def registrar_def
        ctrlOptions_def SetupPVENodeImage_def SetupPVENodeClass_def Let_def)
  have r: "sl_Recognizes sl scheme (own_kind k)"
    if "k \<in> {''PVENodeClass'', ''PVENodeClassList'', ''PVENodeImage'', ''PVENodeImageList''}" for k
    using that by (intro main_init_recognizes [OF assms(1,2)]) (simp add: own_kind_def)
  have "sl_Recognizes sl scheme batchJob" by (rule main_init_recognizes [OF assms(1,2)]) simp
  then show ?thesis unfolding w using r by (simp add: batchJob_def)
qed

definition noFlags :: "unit flag_libs" where
  "noFlags = \<lparr>fl_formal = (\<lambda>n. None), fl_assign = (\<lambda>n v z. None), fl_initial = ()\<rparr>"

definition sampleRegistrar :: "(unit, unit, GroupVersionKind list, unit, unit, GroupVersionKind list start_record) manager_lib" where
  "sampleRegistrar = registrar"

theorem scheme_covers_registrations_witness:
  "\<exists>scheme code log w. main_init list_scheme = Inr scheme \<and>
     controller_process list_scheme noFlags sampleRegistrar [] \<lparr>sr_Schemes = [], sr_Registrations = []\<rparr> = (code, log, w) \<and>
     code = 0 \<and> sr_Schemes w = [scheme] \<and> sl_Recognizes list_scheme scheme (own_kind ''PVENodeImage'')"
proof -
  obtain scheme where i: "main_init list_scheme = Inr scheme"
    by (simp add: main_init_def v1alpha1_AddToScheme_def list_scheme_def)
  have p: "parseFlags noFlags [] = Inr ([], defaultFlags noFlags)"
    by (simp add: parseFlags_def)
  obtain code log w where r: "controller_process list_scheme noFlags sampleRegistrar []
      \<lparr>sr_Schemes = [], sr_Registrations = []\<rparr> = (code, log, w)"
    by (metis prod_cases3)
  from scheme_covers_registrations [OF list_scheme_ok i p r [unfolded sampleRegistrar_def]]
  have "code = 0" "sr_Schemes w = [scheme]" by blast+
  moreover have "sl_Recognizes list_scheme scheme (own_kind ''PVENodeImage'')"
    by (rule main_init_recognizes [OF list_scheme_ok i]) (simp add: own_kind_def)
  ultimately show ?thesis using i r by blast
qed

end
