(* ===== verification/Go_Heap.thy ===== *)
theory Go_Heap
  imports Prelude
begin

text \<open>
  Objects behind pointers: a heap of blocks by address, allocation, slices into arrays, and the
  contract of a deep copy as the locale \<open>copyable\<close>. A value that holds addresses has a
  \<open>view\<close>, the tree of plain values reached from it (\<open>None\<close> when an address does not lead to an
  object of its type, which Go excludes), and a \<open>foot\<close>, the addresses it is made of. The
  combinators for plain values, pairs, pointers and slices carry the contract to structs.
\<close>

section \<open>The heap\<close>

type_synonym addr = nat

record 'b heap =
  hp_next :: addr
  hp_block :: "addr \<rightharpoonup> 'b"

definition alloc :: "'b \<Rightarrow> 'b heap \<Rightarrow> addr \<times> 'b heap" where
  "alloc b h = (hp_next h, \<lparr>hp_next = Suc (hp_next h), hp_block = (hp_block h)(hp_next h \<mapsto> b)\<rparr>)"

definition store :: "addr \<Rightarrow> 'b \<Rightarrow> 'b heap \<Rightarrow> 'b heap" where
  "store a b h = h\<lparr>hp_block := (hp_block h)(a \<mapsto> b)\<rparr>"

definition load :: "('b \<Rightarrow> 'a option) \<Rightarrow> addr \<Rightarrow> 'b heap \<Rightarrow> 'a option" where
  "load un a h = Option.bind (hp_block h a) un"

definition wf_heap :: "'b heap \<Rightarrow> bool" where
  "wf_heap h \<longleftrightarrow> dom (hp_block h) \<subseteq> {..<hp_next h}"

text \<open>Everything that was there is still there, unchanged.\<close>

definition extends :: "'b heap \<Rightarrow> 'b heap \<Rightarrow> bool" where
  "extends h h' \<longleftrightarrow> hp_next h \<le> hp_next h' \<and> (\<forall>a < hp_next h. hp_block h' a = hp_block h a)"

lemma extends_refl [simp]: "extends h h"
  by (simp add: extends_def)

lemma extends_trans: "extends h h' \<Longrightarrow> extends h' h'' \<Longrightarrow> extends h h''"
  by (auto simp: extends_def)

lemma alloc_fields [simp]:
  "fst (alloc b h) = hp_next h" "hp_next (snd (alloc b h)) = Suc (hp_next h)"
  "hp_block (snd (alloc b h)) = (hp_block h)(hp_next h \<mapsto> b)"
  by (simp_all add: alloc_def)

lemma store_fields [simp]:
  "hp_next (store a b h) = hp_next h" "hp_block (store a b h) = (hp_block h)(a \<mapsto> b)"
  by (simp_all add: store_def)

lemma alloc_extends: "extends h (snd (alloc b h))"
  by (simp add: extends_def)

lemma alloc_wf: "wf_heap h \<Longrightarrow> wf_heap (snd (alloc b h))"
  by (auto simp: wf_heap_def)

lemma store_new_extends: "extends h h' \<Longrightarrow> hp_next h \<le> a \<Longrightarrow> extends h (store a b h')"
  by (simp add: extends_def)

lemma store_wf: "wf_heap h \<Longrightarrow> a < hp_next h \<Longrightarrow> wf_heap (store a b h)"
  by (auto simp: wf_heap_def)

section \<open>The contract of a deep copy\<close>

locale copyable =
  fixes view :: "'v \<Rightarrow> 'b heap \<Rightarrow> 'x option"
    and foot :: "'v \<Rightarrow> 'b heap \<Rightarrow> addr set"
    and copy :: "'v \<Rightarrow> 'b heap \<Rightarrow> 'v \<times> 'b heap"
  assumes view_foot: "view v h = Some x \<Longrightarrow> foot v h \<subseteq> dom (hp_block h)"
    and view_local: "view v h = Some x \<Longrightarrow> \<forall>a \<in> foot v h. hp_block h' a = hp_block h a \<Longrightarrow>
      view v h' = Some x \<and> foot v h' = foot v h"
    and copy_deep: "wf_heap h \<Longrightarrow> view v h = Some x \<Longrightarrow> copy v h = (v', h') \<Longrightarrow>
      wf_heap h' \<and> extends h h' \<and> view v' h' = Some x \<and> foot v' h' \<subseteq> {hp_next h..<hp_next h'}"
begin

lemma foot_below: "wf_heap h \<Longrightarrow> view v h = Some x \<Longrightarrow> a \<in> foot v h \<Longrightarrow> a < hp_next h"
  using view_foot [of v h x] unfolding wf_heap_def by blast

lemma view_extends:
  assumes "wf_heap h" "view v h = Some x" "extends h h'"
  shows "view v h' = Some x \<and> foot v h' = foot v h"
  by (rule view_local [OF assms(2)]) (use foot_below [OF assms(1,2)] assms(3) in \<open>simp add: extends_def\<close>)

text \<open>
  Independence: after a copy, whatever is then done to the objects of the copy, the original
  looks as before, and whatever is done to the objects that were there, the copy does.
\<close>

lemma original_independent:
  assumes "wf_heap h" "view v h = Some x" "copy v h = (v', h')"
    and "\<forall>a < hp_next h. hp_block h'' a = hp_block h' a"
  shows "view v h'' = Some x"
proof -
  have "extends h h'" using copy_deep [OF assms(1-3)] by blast
  then have "\<forall>a \<in> foot v h. hp_block h'' a = hp_block h a"
    using foot_below [OF assms(1,2)] assms(4) by (simp add: extends_def)
  then show ?thesis using view_local [OF assms(2)] by blast
qed

lemma copy_independent:
  assumes "wf_heap h" "view v h = Some x" "copy v h = (v', h')"
    and "\<forall>a \<ge> hp_next h. hp_block h'' a = hp_block h' a"
  shows "view v' h'' = Some x"
proof -
  have v: "view v' h' = Some x" and "foot v' h' \<subseteq> {hp_next h..<hp_next h'}"
    using copy_deep [OF assms(1-3)] by blast+
  then have "\<forall>a \<in> foot v' h'. hp_block h'' a = hp_block h' a" using assms(4) by auto
  from view_local [OF v this] show ?thesis ..
qed

text \<open>A copy of a copy is again a copy of the original.\<close>

lemma copy_copy:
  assumes "wf_heap h" "view v h = Some x" "copy v h = (v1, h1)" "copy v1 h1 = (v2, h2)"
  shows "view v h2 = Some x \<and> view v1 h2 = Some x \<and> view v2 h2 = Some x \<and> foot v1 h2 \<inter> foot v2 h2 = {}"
proof -
  note c1 = copy_deep [OF assms(1-3)]
  then have w: "wf_heap h1" "view v1 h1 = Some x" by blast+
  note c2 = copy_deep [OF w assms(4)]
  have "extends h h2" using c1 c2 extends_trans by blast
  then have "view v h2 = Some x" using view_extends [OF assms(1,2)] by blast
  moreover have "view v1 h2 = Some x \<and> foot v1 h2 = foot v1 h1" using view_extends [OF w] c2 by blast
  moreover have "foot v1 h1 \<subseteq> {..<hp_next h1}" using c1 by auto
  ultimately show ?thesis using c2 by fastforce
qed

end

section \<open>Plain values and pairs\<close>

definition view_plain :: "'v \<Rightarrow> 'b heap \<Rightarrow> 'v option" where "view_plain v h = Some v"
definition foot_plain :: "'v \<Rightarrow> 'b heap \<Rightarrow> addr set" where "foot_plain v h = {}"
definition copy_plain :: "'v \<Rightarrow> 'b heap \<Rightarrow> 'v \<times> 'b heap" where "copy_plain v h = (v, h)"

interpretation plain: copyable view_plain foot_plain copy_plain
  by unfold_locales (auto simp: view_plain_def foot_plain_def copy_plain_def)

definition view_pair ::
    "('v \<Rightarrow> 'b heap \<Rightarrow> 'x option) \<Rightarrow> ('w \<Rightarrow> 'b heap \<Rightarrow> 'y option) \<Rightarrow> 'v \<times> 'w \<Rightarrow> 'b heap \<Rightarrow> ('x \<times> 'y) option" where
  "view_pair V W p h =
     (case V (fst p) h of None \<Rightarrow> None | Some x \<Rightarrow> map_option (Pair x) (W (snd p) h))"

definition foot_pair ::
    "('v \<Rightarrow> 'b heap \<Rightarrow> addr set) \<Rightarrow> ('w \<Rightarrow> 'b heap \<Rightarrow> addr set) \<Rightarrow> 'v \<times> 'w \<Rightarrow> 'b heap \<Rightarrow> addr set" where
  "foot_pair F G p h = F (fst p) h \<union> G (snd p) h"

definition copy_pair ::
    "('v \<Rightarrow> 'b heap \<Rightarrow> 'v \<times> 'b heap) \<Rightarrow> ('w \<Rightarrow> 'b heap \<Rightarrow> 'w \<times> 'b heap) \<Rightarrow> 'v \<times> 'w \<Rightarrow> 'b heap
       \<Rightarrow> ('v \<times> 'w) \<times> 'b heap" where
  "copy_pair C D p h = (let (a, h) = C (fst p) h; (b, h) = D (snd p) h in ((a, b), h))"

lemma copyable_pair:
  assumes c: "copyable V F C" and d: "copyable W G D"
  shows "copyable (view_pair V W) (foot_pair F G) (copy_pair C D)"
proof
  fix p :: "'a \<times> 'd" and h :: "'b heap" and z
  assume v: "view_pair V W p h = Some z"
  then obtain x y where xy: "V (fst p) h = Some x" "W (snd p) h = Some y" "z = (x, y)"
    by (auto simp: view_pair_def split: option.splits)
  show "foot_pair F G p h \<subseteq> dom (hp_block h)"
    using copyable.view_foot [OF c xy(1)] copyable.view_foot [OF d xy(2)] by (simp add: foot_pair_def)
  show "view_pair V W p h' = Some z \<and> foot_pair F G p h' = foot_pair F G p h"
    if "\<forall>a \<in> foot_pair F G p h. hp_block h' a = hp_block h a" for h'
  proof -
    have "V (fst p) h' = Some x \<and> F (fst p) h' = F (fst p) h"
      by (rule copyable.view_local [OF c xy(1)]) (use that in \<open>simp add: foot_pair_def\<close>)
    moreover have "W (snd p) h' = Some y \<and> G (snd p) h' = G (snd p) h"
      by (rule copyable.view_local [OF d xy(2)]) (use that in \<open>simp add: foot_pair_def\<close>)
    ultimately show ?thesis using xy(3) by (simp add: view_pair_def foot_pair_def)
  qed
  fix p' h'
  assume w: "wf_heap h" and cp: "copy_pair C D p h = (p', h')"
  obtain a h1 where c1: "C (fst p) h = (a, h1)" by fastforce
  note d1 = copyable.copy_deep [OF c w xy(1) c1]
  obtain b h2 where c2: "D (snd p) h1 = (b, h2)" by fastforce
  have "W (snd p) h1 = Some y" using copyable.view_extends [OF d w xy(2)] d1 by blast
  then have d2: "wf_heap h2 \<and> extends h1 h2 \<and> W b h2 = Some y \<and> G b h2 \<subseteq> {hp_next h1..<hp_next h2}"
    using copyable.copy_deep [OF d _ _ c2] d1 by blast
  have va: "V a h2 = Some x \<and> F a h2 = F a h1" using copyable.view_extends [OF c] d1 d2 by blast
  have "hp_next h \<le> hp_next h1" "hp_next h1 \<le> hp_next h2" using d1 d2 by (simp_all add: extends_def)
  then have "{hp_next h..<hp_next h1} \<subseteq> {hp_next h..<hp_next h2}" "{hp_next h1..<hp_next h2} \<subseteq> {hp_next h..<hp_next h2}"
    by auto
  then have "F a h2 \<union> G b h2 \<subseteq> {hp_next h..<hp_next h2}" using d1 d2 va by (metis Un_least subset_trans)
  moreover have "p' = (a, b)" "h' = h2" using cp c1 c2 by (simp_all add: copy_pair_def)
  ultimately show "wf_heap h' \<and> extends h h' \<and> view_pair V W p' h' = Some z \<and>
      foot_pair F G p' h' \<subseteq> {hp_next h..<hp_next h'}"
    using d2 va xy(3) extends_trans [of h h1 h2] conjunct1 [OF conjunct2 [OF d1]]
    by (simp only: view_pair_def foot_pair_def fst_conv snd_conv option.case option.map simp_thms)
qed

text \<open>A struct is copied like the tuple of its fields.\<close>

lemma copyable_struct:
  assumes "copyable V F C" and "\<And>t. parts (struct t) = t"
    and "\<And>v h. copy v h = (struct (fst (C (parts v) h)), snd (C (parts v) h))"
  shows "copyable (\<lambda>v. V (parts v)) (\<lambda>v. F (parts v)) copy"
proof
  show "F (parts v) h \<subseteq> dom (hp_block h)" if "V (parts v) h = Some x" for v h x
    by (rule copyable.view_foot [OF assms(1), OF that])
  show "V (parts v) h' = Some x \<and> F (parts v) h' = F (parts v) h"
    if "V (parts v) h = Some x" "\<forall>a \<in> F (parts v) h. hp_block h' a = hp_block h a" for v h x h'
    by (rule copyable.view_local [OF assms(1), OF that])
  show "wf_heap h' \<and> extends h h' \<and> V (parts v') h' = Some x \<and> F (parts v') h' \<subseteq> {hp_next h..<hp_next h'}"
    if "wf_heap h" "V (parts v) h = Some x" "copy v h = (v', h')" for v h x v' h'
    using copyable.copy_deep [OF assms(1), OF that(1,2), of "fst (C (parts v) h)" "snd (C (parts v) h)"] that(3)
    by (auto simp: assms(2,3))
qed

section \<open>Pointers\<close>

definition view_ptr :: "('b \<Rightarrow> 'a option) \<Rightarrow> addr option \<Rightarrow> 'b heap \<Rightarrow> 'a option option" where
  "view_ptr un p h = (case p of None \<Rightarrow> Some None | Some a \<Rightarrow> map_option Some (load un a h))"

definition foot_ptr :: "addr option \<Rightarrow> 'b heap \<Rightarrow> addr set" where
  "foot_ptr p h = set_option p"

text \<open>\<open>if in.P != nil { *out = new(T); **out = f(**in) }\<close>, with the zero value of \<open>T\<close>.\<close>

definition copy_ptr :: "('a \<Rightarrow> 'b) \<Rightarrow> ('b \<Rightarrow> 'a option) \<Rightarrow> 'a \<Rightarrow> ('a \<Rightarrow> 'a) \<Rightarrow> addr option \<Rightarrow> 'b heap
    \<Rightarrow> addr option \<times> 'b heap" where
  "copy_ptr mk un zero f p h =
     (case p of
        None \<Rightarrow> (None, h)
      | Some a \<Rightarrow>
          (let (q, h1) = alloc (mk zero) h
           in (Some q, case load un a h1 of Some x \<Rightarrow> store q (mk (f x)) h1 | None \<Rightarrow> h1)))"

lemma copyable_ptr:
  assumes "\<And>x. un (mk x) = Some x" and "\<And>x. f x = x"
  shows "copyable (view_ptr un) foot_ptr (copy_ptr mk un zero f)"
proof
  show "foot_ptr p h \<subseteq> dom (hp_block h)" if "view_ptr un p h = Some x" for p h x
    using that by (auto simp: view_ptr_def foot_ptr_def load_def bind_eq_Some_conv split: option.splits)
  show "view_ptr un p h' = Some x \<and> foot_ptr p h' = foot_ptr p h"
    if "view_ptr un p h = Some x" "\<forall>a \<in> foot_ptr p h. hp_block h' a = hp_block h a" for p h x h'
    using that by (cases p) (simp_all add: view_ptr_def foot_ptr_def load_def)
  show "wf_heap h' \<and> extends h h' \<and> view_ptr un p' h' = Some x \<and> foot_ptr p' h' \<subseteq> {hp_next h..<hp_next h'}"
    if w: "wf_heap h" and v: "view_ptr un p h = Some x" and c: "copy_ptr mk un zero f p h = (p', h')" for p h x p' h'
  proof (cases p)
    case None
    then show ?thesis using w v c by (simp add: copy_ptr_def view_ptr_def foot_ptr_def)
  next
    case (Some a)
    then obtain y where y: "load un a h = Some y" "x = Some y" using v by (auto simp: view_ptr_def)
    then have "a < hp_next h" using w by (auto simp: load_def bind_eq_Some_conv wf_heap_def)
    then have "load un a (snd (alloc (mk zero) h)) = Some y" using y(1) by (simp add: load_def)
    then have "p' = Some (hp_next h) \<and> h' = store (hp_next h) (mk y) (snd (alloc (mk zero) h))"
      using c Some by (auto simp: copy_ptr_def assms(2) alloc_def)
    then show ?thesis using w y(2) assms(1)
      by (auto simp: view_ptr_def foot_ptr_def load_def extends_def wf_heap_def)
  qed
qed

section \<open>Slices\<close>

text \<open>A slice that is not nil: \<open>sl_Len\<close> elements of an array from an offset on.\<close>

record slice =
  sl_Array :: addr
  sl_Offset :: nat
  sl_Len :: nat

definition elems :: "('b \<Rightarrow> 'a list option) \<Rightarrow> slice \<Rightarrow> 'b heap \<Rightarrow> 'a list option" where
  "elems un sl h =
     (case load un (sl_Array sl) h of
        Some xs \<Rightarrow> if sl_Offset sl + sl_Len sl \<le> length xs
          then Some (take (sl_Len sl) (drop (sl_Offset sl) xs)) else None
      | None \<Rightarrow> None)"

definition view_slice ::
    "('b \<Rightarrow> 'a list option) \<Rightarrow> ('a \<Rightarrow> 'b heap \<Rightarrow> 'x option) \<Rightarrow> slice option \<Rightarrow> 'b heap \<Rightarrow> 'x list option option" where
  "view_slice un V s h =
     (case s of
        None \<Rightarrow> Some None
      | Some sl \<Rightarrow> (case elems un sl h of
          None \<Rightarrow> None | Some es \<Rightarrow> map_option Some (those (map (\<lambda>e. V e h) es))))"

definition foot_slice ::
    "('b \<Rightarrow> 'a list option) \<Rightarrow> ('a \<Rightarrow> 'b heap \<Rightarrow> addr set) \<Rightarrow> slice option \<Rightarrow> 'b heap \<Rightarrow> addr set" where
  "foot_slice un F s h =
     (case s of
        None \<Rightarrow> {}
      | Some sl \<Rightarrow> insert (sl_Array sl)
          (case elems un sl h of None \<Rightarrow> {} | Some es \<Rightarrow> (\<Union>e \<in> set es. F e h)))"

text \<open>\<open>for i := range *in { (*in)[i].DeepCopyInto(&(*out)[i]) }\<close> from index \<open>i\<close>, \<open>k\<close> elements left.\<close>

fun slice_loop ::
    "('a list \<Rightarrow> 'b) \<Rightarrow> ('b \<Rightarrow> 'a list option) \<Rightarrow> ('a \<Rightarrow> 'b heap \<Rightarrow> 'a \<times> 'b heap) \<Rightarrow> slice \<Rightarrow> addr
       \<Rightarrow> nat \<Rightarrow> nat \<Rightarrow> 'b heap \<Rightarrow> 'b heap" where
  "slice_loop mk un C sl q i 0 h = h"
| "slice_loop mk un C sl q i (Suc k) h =
     (case elems un sl h of
        None \<Rightarrow> h
      | Some es \<Rightarrow>
          (let (e, h1) = C (es ! i) h in
           case load un q h1 of
             None \<Rightarrow> h1
           | Some out \<Rightarrow> slice_loop mk un C sl q (Suc i) k (store q (mk (out[i := e])) h1)))"

text \<open>\<open>if in.S != nil { *out = make([]T, len(*in)); for ... }\<close>\<close>

definition copy_slice ::
    "('a list \<Rightarrow> 'b) \<Rightarrow> ('b \<Rightarrow> 'a list option) \<Rightarrow> 'a \<Rightarrow> ('a \<Rightarrow> 'b heap \<Rightarrow> 'a \<times> 'b heap) \<Rightarrow> slice option
       \<Rightarrow> 'b heap \<Rightarrow> slice option \<times> 'b heap" where
  "copy_slice mk un zero C s h =
     (case s of
        None \<Rightarrow> (None, h)
      | Some sl \<Rightarrow>
          (let (q, h1) = alloc (mk (replicate (sl_Len sl) zero)) h
           in (Some \<lparr>sl_Array = q, sl_Offset = 0, sl_Len = sl_Len sl\<rparr>, slice_loop mk un C sl q 0 (sl_Len sl) h1)))"

text \<open>\<open>if in.S != nil { *out = make([]T, len(*in)); copy(*out, *in) }\<close>\<close>

definition copy_array ::
    "('a list \<Rightarrow> 'b) \<Rightarrow> ('b \<Rightarrow> 'a list option) \<Rightarrow> 'a \<Rightarrow> slice option \<Rightarrow> 'b heap \<Rightarrow> slice option \<times> 'b heap" where
  "copy_array mk un zero s h =
     (case s of
        None \<Rightarrow> (None, h)
      | Some sl \<Rightarrow>
          (let (q, h1) = alloc (mk (replicate (sl_Len sl) zero)) h
           in (Some \<lparr>sl_Array = q, sl_Offset = 0, sl_Len = sl_Len sl\<rparr>,
               case elems un sl h1 of Some es \<Rightarrow> store q (mk es) h1 | None \<Rightarrow> h1)))"

lemma those_Some: "those xs = Some ys \<longleftrightarrow> xs = map Some ys"
  by (induction xs arbitrary: ys) (auto simp: split: option.splits)

lemma elems_length: "elems un sl h = Some es \<Longrightarrow> length es = sl_Len sl"
  by (auto simp: elems_def split: option.splits if_splits)

lemma elems_array: "elems un sl h = Some es \<Longrightarrow> sl_Array sl \<in> dom (hp_block h)"
  by (auto simp: elems_def load_def bind_eq_Some_conv split: option.splits)

lemma elems_cong: "hp_block h' (sl_Array sl) = hp_block h (sl_Array sl) \<Longrightarrow> elems un sl h' = elems un sl h"
  by (simp add: elems_def load_def)

lemma view_slice_Some:
  "view_slice un V (Some sl) h = Some x \<longleftrightarrow>
     (\<exists>es xs. elems un sl h = Some es \<and> x = Some xs \<and> map (\<lambda>e. V e h) es = map Some xs)"
  by (auto simp: view_slice_def those_Some split: option.splits)

text \<open>Reading a slice depends on nothing but its array and the elements' objects.\<close>

lemma slice_local:
  assumes c: "copyable V F C" and v: "view_slice un V s h = Some x"
    and eq: "\<forall>a \<in> foot_slice un F s h. hp_block h' a = hp_block h a"
  shows "view_slice un V s h' = Some x \<and> foot_slice un F s h' = foot_slice un F s h"
proof (cases s)
  case None
  then show ?thesis using v by (simp add: view_slice_def foot_slice_def)
next
  case (Some sl)
  then obtain es xs where e: "elems un sl h = Some es" "x = Some xs" "map (\<lambda>e. V e h) es = map Some xs"
    using v by (auto simp: view_slice_Some)
  have e': "elems un sl h' = Some es" using eq e(1) Some by (simp add: foot_slice_def elems_cong [of h' sl h])
  have p: "V y h' = V y h \<and> F y h' = F y h" if "y \<in> set es" for y
  proof -
    have "V y h \<in> set (map (\<lambda>e. V e h) es)" using that by simp
    then obtain z where "V y h = Some z" unfolding e(3) by auto
    moreover have "F y h \<subseteq> foot_slice un F s h" using that Some e(1) by (auto simp: foot_slice_def)
    then have "\<forall>a \<in> F y h. hp_block h' a = hp_block h a" using eq by blast
    ultimately show ?thesis using copyable.view_local [OF c, of y h z h'] by simp
  qed
  have "map (\<lambda>e. V e h') es = map Some xs" unfolding e(3) [symmetric] by (rule map_cong [OF refl]) (use p in simp)
  moreover have "(\<Union>e \<in> set es. F e h') = (\<Union>e \<in> set es. F e h)" using p by simp
  ultimately show ?thesis using Some e(1,2) e' by (simp only: view_slice_Some foot_slice_def option.case) simp
qed

lemma slice_foot:
  assumes c: "copyable V F C" and v: "view_slice un V s h = Some x"
  shows "foot_slice un F s h \<subseteq> dom (hp_block h)"
proof (cases s)
  case (Some sl)
  then obtain es xs where e: "elems un sl h = Some es" "map (\<lambda>e. V e h) es = map Some xs"
    using v by (auto simp: view_slice_Some)
  have "F y h \<subseteq> dom (hp_block h)" if "y \<in> set es" for y
  proof -
    have "V y h \<in> set (map (\<lambda>e. V e h) es)" using that by simp
    then obtain z where "V y h = Some z" unfolding e(2) by auto
    then show ?thesis by (rule copyable.view_foot [OF c])
  qed
  then show ?thesis using Some e(1) elems_array [OF e(1)] by (auto simp: foot_slice_def)
qed (simp add: foot_slice_def)

text \<open>
  The loop: \<open>h0\<close> is the heap before the new array \<open>q\<close> was made, and the first \<open>i\<close> elements of
  \<open>out\<close> are copied.
\<close>

definition copied ::
    "('a \<Rightarrow> 'b heap \<Rightarrow> 'x option) \<Rightarrow> ('a \<Rightarrow> 'b heap \<Rightarrow> addr set) \<Rightarrow> addr \<Rightarrow> 'x list \<Rightarrow> 'a list \<Rightarrow> nat \<Rightarrow> 'b heap \<Rightarrow> bool" where
  "copied V F q xs out i h \<longleftrightarrow>
     (\<forall>j < i. V (out ! j) h = Some (xs ! j) \<and> F (out ! j) h \<subseteq> {Suc q..<hp_next h})"

lemma copied_Suc:
  assumes c: "copyable V F C" and w: "wf_heap h" and q: "q < hp_next h" and i: "i < length out"
    and old: "copied V F q xs out i h"
    and step: "C e h = (e', h1)" "V e h = Some (xs ! i)"
  shows "copied V F q xs (out[i := e']) (Suc i) (store q b h1)"
  unfolding copied_def
proof (intro allI impI)
  let ?h2 = "store q b h1"
  fix j
  assume "j < Suc i"
  note d = copyable.copy_deep [OF c w step(2,1)]
  have ext: "extends h h1" and n: "hp_next h \<le> hp_next h1" using d by (simp_all add: extends_def)
  have keep: "V y ?h2 = Some x \<and> F y ?h2 = F y h1" if "V y h1 = Some x" "q \<notin> F y h1" for x y
    by (rule copyable.view_local [OF c that(1)]) (use that(2) in auto)
  show "V (out[i := e'] ! j) ?h2 = Some (xs ! j) \<and> F (out[i := e'] ! j) ?h2 \<subseteq> {Suc q..<hp_next ?h2}"
  proof (cases "j = i")
    case True
    have "V e' h1 = Some (xs ! i)" "F e' h1 \<subseteq> {hp_next h..<hp_next h1}" using d by blast+
    moreover from this(2) q have "F e' h1 \<subseteq> {Suc q..<hp_next h1}" by auto
    moreover from this have "q \<notin> F e' h1" by auto
    ultimately show ?thesis using keep [of e' "xs ! i"] True i by simp
  next
    case False
    then have j: "V (out ! j) h = Some (xs ! j)" "F (out ! j) h \<subseteq> {Suc q..<hp_next h}"
      using old \<open>j < Suc i\<close> by (auto simp: copied_def)
    have o: "V (out ! j) h1 = Some (xs ! j) \<and> F (out ! j) h1 = F (out ! j) h"
      by (rule copyable.view_extends [OF c w j(1) ext])
    then have "q \<notin> F (out ! j) h1" "F (out ! j) h1 \<subseteq> {Suc q..<hp_next h1}" using j(2) n by auto
    then show ?thesis using keep [of "out ! j" "xs ! j"] o False by simp
  qed
qed

lemma slice_loop_copies:
  assumes c: "copyable V F C" and un: "\<And>xs. un (mk xs) = Some xs"
    and h0: "wf_heap h0" "elems un sl h0 = Some es" "map (\<lambda>e. V e h0) es = map Some xs" "hp_next h0 \<le> q"
  shows "i + k = length es \<Longrightarrow> wf_heap h \<Longrightarrow> extends h0 h \<Longrightarrow> q < hp_next h \<Longrightarrow> load un q h = Some out \<Longrightarrow>
    length out = length es \<Longrightarrow> copied V F q xs out i h \<Longrightarrow>
    \<exists>out' h'. slice_loop mk un C sl q i k h = h' \<and> wf_heap h' \<and> extends h0 h' \<and> q < hp_next h' \<and>
      load un q h' = Some out' \<and> length out' = length es \<and> copied V F q xs out' (length es) h'"
proof (induction k arbitrary: i h out)
  case (Suc k)
  obtain e' h1 where C: "C (es ! i) h = (e', h1)" by fastforce
  let ?out = "out[i := e']" and ?h2 = "store q (mk (out[i := e'])) h1"
  have "V (es ! i) h0 = Some (xs ! i)"
    using h0(3) Suc.prems(1) by (metis add_Suc_right length_map less_add_Suc1 nth_map)
  then have v: "V (es ! i) h = Some (xs ! i)" using copyable.view_extends [OF c h0(1) _ Suc.prems(3)] by blast
  have d: "wf_heap h1" "extends h h1" using copyable.copy_deep [OF c Suc.prems(2) v C] by blast+
  have "elems un sl h = Some es"
    using h0(2) Suc.prems(3) elems_array [OF h0(2)] h0(1) elems_cong [of h sl h0 un]
    by (auto simp: extends_def wf_heap_def)
  moreover have "load un q h1 = Some out" using Suc.prems(4,5) d(2) by (simp add: load_def extends_def)
  ultimately have step: "slice_loop mk un C sl q i (Suc k) h = slice_loop mk un C sl q (Suc i) k ?h2"
    by (simp add: C)
  have q1: "q < hp_next h1" using Suc.prems(4) d(2) by (simp add: extends_def)
  show ?case unfolding step
  proof (rule Suc.IH)
    show "Suc i + k = length es" using Suc.prems(1) by simp
    show "wf_heap ?h2" by (rule store_wf [OF d(1) q1])
    show "extends h0 ?h2" by (rule store_new_extends [OF extends_trans [OF Suc.prems(3) d(2)] h0(4)])
    show "q < hp_next ?h2" using q1 by simp
    show "load un q ?h2 = Some ?out" by (simp add: load_def un)
    show "length ?out = length es" using Suc.prems(6) by simp
    show "copied V F q xs ?out (Suc i) ?h2"
      by (rule copied_Suc [OF c Suc.prems(2,4) _ Suc.prems(7) C v]) (use Suc.prems(1,6) in simp)
  qed
qed auto

lemma copyable_slice:
  assumes c: "copyable V F C" and un: "\<And>xs. un (mk xs) = Some xs"
  shows "copyable (view_slice un V) (foot_slice un F) (copy_slice mk un zero C)"
proof
  show "foot_slice un F s h \<subseteq> dom (hp_block h)" if "view_slice un V s h = Some x" for s h x
    by (rule slice_foot [OF c that])
  show "view_slice un V s h' = Some x \<and> foot_slice un F s h' = foot_slice un F s h"
    if "view_slice un V s h = Some x" "\<forall>a \<in> foot_slice un F s h. hp_block h' a = hp_block h a" for s h x h'
    by (rule slice_local [OF c that])
  fix s :: "slice option" and h :: "'b heap" and x s' h'
  assume w: "wf_heap h" and v: "view_slice un V s h = Some x" and cp: "copy_slice mk un zero C s h = (s', h')"
  show "wf_heap h' \<and> extends h h' \<and> view_slice un V s' h' = Some x \<and> foot_slice un F s' h' \<subseteq> {hp_next h..<hp_next h'}"
  proof (cases s)
    case None
    then show ?thesis using w v cp by (simp add: copy_slice_def view_slice_def foot_slice_def)
  next
    case (Some sl)
    then obtain es xs where e: "elems un sl h = Some es" "x = Some xs" "map (\<lambda>e. V e h) es = map Some xs"
      using v by (auto simp: view_slice_Some)
    let ?q = "hp_next h" and ?z = "replicate (sl_Len sl) zero"
    let ?h1 = "snd (alloc (mk ?z) h)" and ?s' = "\<lparr>sl_Array = hp_next h, sl_Offset = 0, sl_Len = sl_Len sl\<rparr>"
    have len: "length es = sl_Len sl" "length xs = length es"
      using elems_length [OF e(1)] arg_cong [OF e(3), of length] by simp_all
    have "\<exists>out' h'. slice_loop mk un C sl ?q 0 (sl_Len sl) ?h1 = h' \<and> wf_heap h' \<and> extends h h' \<and> ?q < hp_next h' \<and>
        load un ?q h' = Some out' \<and> length out' = length es \<and> copied V F ?q xs out' (length es) h'"
      by (rule slice_loop_copies [OF c un w e(1,3) order_refl, where out = ?z])
        (simp_all add: len alloc_wf [OF w] alloc_extends load_def un copied_def)
    then obtain out where o: "s' = Some ?s'" "wf_heap h'" "extends h h'" "?q < hp_next h'"
        "load un ?q h' = Some out" "length out = length es" "copied V F ?q xs out (length es) h'"
      using cp Some by (auto simp: copy_slice_def alloc_def)
    have el: "elems un ?s' h' = Some out" using o(5,6) len(1) by (simp add: elems_def)
    have "map (\<lambda>e. V e h') out = map Some xs"
      using o(6,7) len by (intro nth_equalityI) (simp_all add: copied_def)
    moreover have "foot_slice un F s' h' \<subseteq> {hp_next h..<hp_next h'}"
    proof -
      have "F y h' \<subseteq> {Suc ?q..<hp_next h'}" if "y \<in> set out" for y
        using that o(6,7) by (auto simp: copied_def in_set_conv_nth)
      then have "(\<Union>y \<in> set out. F y h') \<subseteq> {Suc ?q..<hp_next h'}" by blast
      then show ?thesis using o(1,4) el by (auto simp: foot_slice_def)
    qed
    ultimately show ?thesis using o(1-3) e(2) el by (simp add: view_slice_Some)
  qed
qed

lemma copyable_array:
  assumes un: "\<And>xs. un (mk xs) = Some xs"
  shows "copyable (view_slice un view_plain) (foot_slice un foot_plain) (copy_array mk un zero)"
proof
  show "foot_slice un foot_plain s h \<subseteq> dom (hp_block h)" if "view_slice un view_plain s h = Some x" for s h x
    by (rule slice_foot [OF plain.copyable_axioms that])
  show "view_slice un view_plain s h' = Some x \<and> foot_slice un foot_plain s h' = foot_slice un foot_plain s h"
    if "view_slice un view_plain s h = Some x" "\<forall>a \<in> foot_slice un foot_plain s h. hp_block h' a = hp_block h a" for s h x h'
    by (rule slice_local [OF plain.copyable_axioms that])
  fix s :: "slice option" and h :: "'b heap" and x s' h'
  assume w: "wf_heap h" and v: "view_slice un view_plain s h = Some x" and cp: "copy_array mk un zero s h = (s', h')"
  show "wf_heap h' \<and> extends h h' \<and> view_slice un view_plain s' h' = Some x \<and>
      foot_slice un foot_plain s' h' \<subseteq> {hp_next h..<hp_next h'}"
  proof (cases s)
    case None
    then show ?thesis using w v cp by (simp add: copy_array_def view_slice_def foot_slice_def)
  next
    case (Some sl)
    then obtain es where e: "elems un sl h = Some es" "x = Some es"
      using v by (auto simp: view_slice_Some view_plain_def)
    let ?q = "hp_next h" and ?h1 = "snd (alloc (mk (replicate (sl_Len sl) zero)) h)"
    have "sl_Array sl < ?q" using elems_array [OF e(1)] w by (auto simp: wf_heap_def)
    then have "elems un sl ?h1 = Some es" using elems_cong [of ?h1 sl h un] e(1) by simp
    then have o: "s' = Some \<lparr>sl_Array = ?q, sl_Offset = 0, sl_Len = sl_Len sl\<rparr>" "h' = store ?q (mk es) ?h1"
      using cp Some by (simp_all add: copy_array_def alloc_def)
    have el: "elems un (the s') h' = Some es" using elems_length [OF e(1)] by (simp add: o elems_def load_def un)
    have "wf_heap h'" unfolding o(2) by (rule store_wf [OF alloc_wf [OF w]]) simp
    moreover have "extends h h'" unfolding o(2) by (rule store_new_extends [OF alloc_extends order_refl])
    moreover have "view_slice un view_plain s' h' = Some x"
      using el e(2) o(1) by (simp add: view_slice_Some view_plain_def)
    moreover have "foot_slice un foot_plain s' h' \<subseteq> {?q..<hp_next h'}"
      using el by (simp add: foot_slice_def foot_plain_def o)
    ultimately show ?thesis by blast
  qed
qed

section \<open>Structs\<close>

lemma copyable_structI:
  assumes "copyable V F C" and "\<And>t. parts (struct t) = t"
    and "\<And>v h. view v h = V (parts v) h" and "\<And>v h. foot v h = F (parts v) h"
    and "\<And>v h. copy v h = (struct (fst (C (parts v) h)), snd (C (parts v) h))"
  shows "copyable view foot copy"
proof -
  have "view = (\<lambda>v. V (parts v))" "foot = (\<lambda>v. F (parts v))" using assms(3,4) by (intro ext; simp)+
  then show ?thesis using copyable_struct [OF assms(1,2,5)] by simp
qed

text \<open>
  \<open>DeepCopy\<close>: \<open>nil\<close> for \<open>nil\<close>, otherwise a new struct that \<open>DeepCopyInto\<close> fills. A pointer to a
  struct is modelled by the struct; the new one is by construction another than the receiver.
\<close>

definition DeepCopy :: "('v \<Rightarrow> 'b heap \<Rightarrow> 'v \<times> 'b heap) \<Rightarrow> 'v option \<Rightarrow> 'b heap \<Rightarrow> 'v option \<times> 'b heap" where
  "DeepCopy into inp h =
     (case inp of None \<Rightarrow> (None, h) | Some v \<Rightarrow> (let (out, h) = into v h in (Some out, h)))"

text \<open>
  What a copy promises: it looks like the original, is made of objects that were not there
  before, leaves every object that was there alone, and from then on neither side sees what is
  done to the objects of the other.
\<close>

definition deep_copy_of ::
    "('v \<Rightarrow> 'b heap \<Rightarrow> 'x option) \<Rightarrow> ('v \<Rightarrow> 'b heap \<Rightarrow> addr set) \<Rightarrow> 'v \<Rightarrow> 'b heap \<Rightarrow> 'v \<Rightarrow> 'b heap \<Rightarrow> bool" where
  "deep_copy_of view foot v h v' h' \<longleftrightarrow>
     view v' h' = view v h \<and>
     foot v' h' \<inter> dom (hp_block h) = {} \<and>
     (\<forall>a \<in> dom (hp_block h). hp_block h' a = hp_block h a) \<and>
     (\<forall>h''. (\<forall>a \<in> dom (hp_block h). hp_block h'' a = hp_block h a) \<longrightarrow> view v h'' = view v h) \<and>
     (\<forall>h''. (\<forall>a. a \<notin> dom (hp_block h) \<longrightarrow> hp_block h'' a = hp_block h' a) \<longrightarrow> view v' h'' = view v h)"

lemma deep_copy_of_view: "deep_copy_of view foot v h v' h' \<Longrightarrow> view v' h' = view v h"
  unfolding deep_copy_of_def by (elim conjE)

context copyable
begin

lemma DeepCopy_deep:
  assumes "wf_heap h" "view v h = Some x" "DeepCopy copy (Some v) h = (r, h')"
  shows "\<exists>v'. r = Some v' \<and> wf_heap h' \<and> deep_copy_of view foot v h v' h'"
proof -
  obtain v' where r: "copy v h = (v', h')" "r = Some v'"
    using assms(3) by (auto simp: DeepCopy_def split: prod.splits)
  note d = copy_deep [OF assms(1,2) r(1)]
  have dom: "a < hp_next h" if "a \<in> dom (hp_block h)" for a
    using that assms(1) unfolding wf_heap_def by blast
  have "foot v' h' \<inter> dom (hp_block h) = {}" using d dom by fastforce
  moreover have "\<forall>a \<in> dom (hp_block h). hp_block h' a = hp_block h a"
    using d dom by (simp add: extends_def)
  moreover have "view v h'' = Some x" if "\<forall>a \<in> dom (hp_block h). hp_block h'' a = hp_block h a" for h''
    using view_local [OF assms(2)] view_foot [OF assms(2)] that by blast
  moreover have "view v' h'' = Some x" if "\<forall>a. a \<notin> dom (hp_block h) \<longrightarrow> hp_block h'' a = hp_block h' a" for h''
    by (rule copy_independent [OF assms(1,2) r(1)]) (use that dom in fastforce)
  ultimately show ?thesis using d r(2) assms(2) by (simp add: deep_copy_of_def)
qed

end

lemmas [view_simps] = view_pair_def view_plain_def view_ptr_def view_slice_def elems_def load_def

end
