(* ===== verification/Deep_Copy.thy ===== *)
theory Deep_Copy
  imports Go_Heap Api_Types
begin

text \<open>
  \<open>api/v1alpha1/zz_generated.deepcopy.go\<close>: the structs as Go lays them out, with addresses for
  pointers, maps and slices, and every \<open>DeepCopyInto\<close>, \<open>DeepCopy\<close> and \<open>DeepCopyObject\<close>. The copy
  functions of the embedded metadata and of conditions and times are the library's, a record of
  parameters with the contract that they are deep copies themselves. \<open>in\<close> and \<open>out\<close> are different
  structs, as in every call of the file.
\<close>

section \<open>The structs\<close>

record gObjectMeta =
  gm_Name :: string
  gm_Namespace :: string
  gm_UID :: string
  gm_ResourceVersion :: string
  gm_Generation :: int64
  gm_DeletionTimestamp :: "addr option"
  gm_Labels :: "addr option"
  gm_OwnerReferences :: "slice option"

record gListMeta =
  gl_ResourceVersion :: string
  gl_Continue :: string
  gl_RemainingItemCount :: "addr option"

record gNetworkConfig =
  gn_Bridge :: string
  gn_VLANTag :: "addr option"
  gn_Firewall :: bool

record gPVENodeClassSpec =
  gc_NodeImageRef :: NodeImageReference
  gc_InstanceTypes :: "slice option"
  gc_PlacementTargets :: "slice option"
  gc_StoragePool :: string
  gc_Network :: gNetworkConfig
  gc_Tags :: "slice option"

record gPVENodeClassStatus =
  gcs_Conditions :: "slice option"

record gPVENodeClass =
  gk_TypeMeta :: TypeMeta
  gk_ObjectMeta :: gObjectMeta
  gk_Spec :: gPVENodeClassSpec
  gk_Status :: gPVENodeClassStatus

record gPVENodeClassList =
  gkl_TypeMeta :: TypeMeta
  gkl_ListMeta :: gListMeta
  gkl_Items :: "slice option"

record gRebuildPolicy =
  gr_Trigger :: RebuildPolicyTrigger
  gr_Interval :: "addr option"

record gPVENodeImageSpec =
  gi_BaseImage :: BaseImage
  gi_Distribution :: Distribution
  gi_Packages :: "slice option"
  gi_SSHAuthorizedKeys :: "slice option"
  gi_Timezone :: string
  gi_BuildConfig :: BuildConfig
  gi_RebuildPolicy :: gRebuildPolicy

record gPVENodeImageStatus =
  gs_Conditions :: "slice option"
  gs_TemplateVMID :: "addr option"
  gs_TemplateNode :: string
  gs_ObservedSpecHash :: string
  gs_LastBuildTime :: "addr option"

record gPVENodeImage =
  gp_TypeMeta :: TypeMeta
  gp_ObjectMeta :: gObjectMeta
  gp_Spec :: gPVENodeImageSpec
  gp_Status :: gPVENodeImageStatus

record gPVENodeImageList =
  gpl_TypeMeta :: TypeMeta
  gpl_ListMeta :: gListMeta
  gpl_Items :: "slice option"

section \<open>Blocks\<close>

datatype block =
    Int32B int32
  | Int64B int64
  | DurationB int64
  | TimeB Time
  | MapB "string \<rightharpoonup> string"
  | StringsB "string list"
  | OwnersB "OwnerReference list"
  | ConditionsB "Condition list"
  | InstanceTypesB "InstanceType list"
  | PlacementTargetsB "PlacementTarget list"
  | NodeClassesB "gPVENodeClass list"
  | NodeImagesB "gPVENodeImage list"

definition unInt32 :: "block \<Rightarrow> int32 option" where
  "unInt32 b = (case b of Int32B x \<Rightarrow> Some x | _ \<Rightarrow> None)"
definition unInt64 :: "block \<Rightarrow> int64 option" where
  "unInt64 b = (case b of Int64B x \<Rightarrow> Some x | _ \<Rightarrow> None)"
definition unDuration :: "block \<Rightarrow> int64 option" where
  "unDuration b = (case b of DurationB x \<Rightarrow> Some x | _ \<Rightarrow> None)"
definition unTime :: "block \<Rightarrow> Time option" where
  "unTime b = (case b of TimeB x \<Rightarrow> Some x | _ \<Rightarrow> None)"
definition unMap :: "block \<Rightarrow> (string \<rightharpoonup> string) option" where
  "unMap b = (case b of MapB x \<Rightarrow> Some x | _ \<Rightarrow> None)"
definition unStrings :: "block \<Rightarrow> string list option" where
  "unStrings b = (case b of StringsB x \<Rightarrow> Some x | _ \<Rightarrow> None)"
definition unOwners :: "block \<Rightarrow> OwnerReference list option" where
  "unOwners b = (case b of OwnersB x \<Rightarrow> Some x | _ \<Rightarrow> None)"
definition unConditions :: "block \<Rightarrow> Condition list option" where
  "unConditions b = (case b of ConditionsB x \<Rightarrow> Some x | _ \<Rightarrow> None)"
definition unInstanceTypes :: "block \<Rightarrow> InstanceType list option" where
  "unInstanceTypes b = (case b of InstanceTypesB x \<Rightarrow> Some x | _ \<Rightarrow> None)"
definition unPlacementTargets :: "block \<Rightarrow> PlacementTarget list option" where
  "unPlacementTargets b = (case b of PlacementTargetsB x \<Rightarrow> Some x | _ \<Rightarrow> None)"
definition unNodeClasses :: "block \<Rightarrow> gPVENodeClass list option" where
  "unNodeClasses b = (case b of NodeClassesB x \<Rightarrow> Some x | _ \<Rightarrow> None)"
definition unNodeImages :: "block \<Rightarrow> gPVENodeImage list option" where
  "unNodeImages b = (case b of NodeImagesB x \<Rightarrow> Some x | _ \<Rightarrow> None)"

lemma un_mk [simp]:
  "unInt32 (Int32B a1) = Some a1" "unInt64 (Int64B a2) = Some a2" "unDuration (DurationB a3) = Some a3"
  "unTime (TimeB a4) = Some a4" "unMap (MapB a5) = Some a5" "unStrings (StringsB a6) = Some a6"
  "unOwners (OwnersB a7) = Some a7" "unConditions (ConditionsB a8) = Some a8"
  "unInstanceTypes (InstanceTypesB a9) = Some a9" "unPlacementTargets (PlacementTargetsB a10) = Some a10"
  "unNodeClasses (NodeClassesB a11) = Some a11" "unNodeImages (NodeImagesB a12) = Some a12"
  by (simp_all add: unInt32_def unInt64_def unDuration_def unTime_def unMap_def unStrings_def unOwners_def
      unConditions_def unInstanceTypes_def unPlacementTargets_def unNodeClasses_def unNodeImages_def)

section \<open>The library's copy functions\<close>

record deep_libs =
  dl_ObjectMeta :: "gObjectMeta \<Rightarrow> block heap \<Rightarrow> gObjectMeta \<times> block heap"
  dl_ListMeta :: "gListMeta \<Rightarrow> block heap \<Rightarrow> gListMeta \<times> block heap"
  dl_Condition :: "Condition \<Rightarrow> Condition"
  dl_Time :: "Time \<Rightarrow> Time"

text \<open>
  What the values of metadata look like from outside, and the contract: the metadata copies are
  deep copies, and conditions and times, which hold no pointers here, are copied as they are.
\<close>

abbreviation metaFields where
  "metaFields v \<equiv> ((gm_Name v, gm_Namespace v, gm_UID v, gm_ResourceVersion v, gm_Generation v),
     gm_DeletionTimestamp v, gm_Labels v, gm_OwnerReferences v)"

definition view_ObjectMeta where
  "view_ObjectMeta v = view_pair view_plain (view_pair (view_ptr unTime) (view_pair (view_ptr unMap)
     (view_slice unOwners view_plain))) (metaFields v)"

definition foot_ObjectMeta where
  "foot_ObjectMeta v = foot_pair foot_plain (foot_pair foot_ptr (foot_pair foot_ptr
     (foot_slice unOwners foot_plain))) (metaFields v)"

abbreviation listMetaFields where
  "listMetaFields v \<equiv> ((gl_ResourceVersion v, gl_Continue v), gl_RemainingItemCount v)"

definition view_ListMeta where
  "view_ListMeta v = view_pair view_plain (view_ptr unInt64) (listMetaFields v)"

definition foot_ListMeta where
  "foot_ListMeta v = foot_pair foot_plain foot_ptr (listMetaFields v)"

definition libs_contract :: "deep_libs \<Rightarrow> bool" where
  "libs_contract L \<longleftrightarrow>
     copyable view_ObjectMeta foot_ObjectMeta (dl_ObjectMeta L) \<and>
     copyable view_ListMeta foot_ListMeta (dl_ListMeta L) \<and>
     (\<forall>c. dl_Condition L c = c) \<and> (\<forall>t. dl_Time L t = t)"

section \<open>Structs without pointers\<close>

definition BaseImage_DeepCopyInto :: "BaseImage \<Rightarrow> block heap \<Rightarrow> BaseImage \<times> block heap" where
  "BaseImage_DeepCopyInto inp h = (let out = inp in (out, h))"
definition BuildConfig_DeepCopyInto :: "BuildConfig \<Rightarrow> block heap \<Rightarrow> BuildConfig \<times> block heap" where
  "BuildConfig_DeepCopyInto inp h = (let out = inp in (out, h))"
definition Distribution_DeepCopyInto :: "Distribution \<Rightarrow> block heap \<Rightarrow> Distribution \<times> block heap" where
  "Distribution_DeepCopyInto inp h = (let out = inp in (out, h))"
definition InstanceType_DeepCopyInto :: "InstanceType \<Rightarrow> block heap \<Rightarrow> InstanceType \<times> block heap" where
  "InstanceType_DeepCopyInto inp h = (let out = inp in (out, h))"
definition NodeImageReference_DeepCopyInto :: "NodeImageReference \<Rightarrow> block heap \<Rightarrow> NodeImageReference \<times> block heap" where
  "NodeImageReference_DeepCopyInto inp h = (let out = inp in (out, h))"
definition PlacementTarget_DeepCopyInto :: "PlacementTarget \<Rightarrow> block heap \<Rightarrow> PlacementTarget \<times> block heap" where
  "PlacementTarget_DeepCopyInto inp h = (let out = inp in (out, h))"

section \<open>DeepCopyInto\<close>

definition zeroInstanceType :: InstanceType where
  "zeroInstanceType = \<lparr>it_Name = '''', it_CPU = 0, it_MemoryMiB = 0, it_DiskGiB = 0\<rparr>"
definition zeroPlacementTarget :: PlacementTarget where
  "zeroPlacementTarget = \<lparr>pt_Node = '''', pt_Zone = ''''\<rparr>"

definition NetworkConfig_DeepCopyInto :: "gNetworkConfig \<Rightarrow> block heap \<Rightarrow> gNetworkConfig \<times> block heap" where
  "NetworkConfig_DeepCopyInto inp h =
     (let out = inp;
          (p, h) = copy_ptr Int32B unInt32 0 id (gn_VLANTag inp) h; out = out\<lparr>gn_VLANTag := p\<rparr>
      in (out, h))"

definition RebuildPolicy_DeepCopyInto :: "gRebuildPolicy \<Rightarrow> block heap \<Rightarrow> gRebuildPolicy \<times> block heap" where
  "RebuildPolicy_DeepCopyInto inp h =
     (let out = inp;
          (p, h) = copy_ptr DurationB unDuration 0 id (gr_Interval inp) h; out = out\<lparr>gr_Interval := p\<rparr>
      in (out, h))"

definition PVENodeClassSpec_DeepCopyInto :: "gPVENodeClassSpec \<Rightarrow> block heap \<Rightarrow> gPVENodeClassSpec \<times> block heap" where
  "PVENodeClassSpec_DeepCopyInto inp h =
     (let out = inp;
          out = out\<lparr>gc_NodeImageRef := gc_NodeImageRef inp\<rparr>;
          (s, h) = copy_array InstanceTypesB unInstanceTypes zeroInstanceType (gc_InstanceTypes inp) h;
          out = out\<lparr>gc_InstanceTypes := s\<rparr>;
          (s, h) = copy_array PlacementTargetsB unPlacementTargets zeroPlacementTarget (gc_PlacementTargets inp) h;
          out = out\<lparr>gc_PlacementTargets := s\<rparr>;
          (n, h) = NetworkConfig_DeepCopyInto (gc_Network inp) h; out = out\<lparr>gc_Network := n\<rparr>;
          (s, h) = copy_array StringsB unStrings [] (gc_Tags inp) h; out = out\<lparr>gc_Tags := s\<rparr>
      in (out, h))"

text \<open>The library's \<open>Condition.DeepCopyInto\<close>, element by element.\<close>

definition Condition_DeepCopyInto :: "deep_libs \<Rightarrow> Condition \<Rightarrow> block heap \<Rightarrow> Condition \<times> block heap" where
  "Condition_DeepCopyInto L c h = (dl_Condition L c, h)"

definition PVENodeClassStatus_DeepCopyInto ::
    "deep_libs \<Rightarrow> gPVENodeClassStatus \<Rightarrow> block heap \<Rightarrow> gPVENodeClassStatus \<times> block heap" where
  "PVENodeClassStatus_DeepCopyInto L inp h =
     (let out = inp;
          (s, h) = copy_slice ConditionsB unConditions zeroCondition (Condition_DeepCopyInto L) (gcs_Conditions inp) h;
          out = out\<lparr>gcs_Conditions := s\<rparr>
      in (out, h))"

definition PVENodeClass_DeepCopyInto ::
    "deep_libs \<Rightarrow> gPVENodeClass \<Rightarrow> block heap \<Rightarrow> gPVENodeClass \<times> block heap" where
  "PVENodeClass_DeepCopyInto L inp h =
     (let out = inp;
          out = out\<lparr>gk_TypeMeta := gk_TypeMeta inp\<rparr>;
          (m, h) = dl_ObjectMeta L (gk_ObjectMeta inp) h; out = out\<lparr>gk_ObjectMeta := m\<rparr>;
          (s, h) = PVENodeClassSpec_DeepCopyInto (gk_Spec inp) h; out = out\<lparr>gk_Spec := s\<rparr>;
          (t, h) = PVENodeClassStatus_DeepCopyInto L (gk_Status inp) h; out = out\<lparr>gk_Status := t\<rparr>
      in (out, h))"

text \<open>The zero values that \<open>make\<close> fills a new array of structs with.\<close>

definition zeroObjectMeta :: gObjectMeta where
  "zeroObjectMeta = \<lparr>gm_Name = '''', gm_Namespace = '''', gm_UID = '''', gm_ResourceVersion = '''',
     gm_Generation = 0, gm_DeletionTimestamp = None, gm_Labels = None, gm_OwnerReferences = None\<rparr>"

definition zeroNodeClass :: gPVENodeClass where
  "zeroNodeClass = \<lparr>gk_TypeMeta = \<lparr>tm_Kind = '''', tm_APIVersion = ''''\<rparr>, gk_ObjectMeta = zeroObjectMeta,
     gk_Spec = \<lparr>gc_NodeImageRef = \<lparr>nr_Name = ''''\<rparr>, gc_InstanceTypes = None, gc_PlacementTargets = None,
       gc_StoragePool = '''', gc_Network = \<lparr>gn_Bridge = '''', gn_VLANTag = None, gn_Firewall = False\<rparr>,
       gc_Tags = None\<rparr>,
     gk_Status = \<lparr>gcs_Conditions = None\<rparr>\<rparr>"

definition PVENodeClassList_DeepCopyInto ::
    "deep_libs \<Rightarrow> gPVENodeClassList \<Rightarrow> block heap \<Rightarrow> gPVENodeClassList \<times> block heap" where
  "PVENodeClassList_DeepCopyInto L inp h =
     (let out = inp;
          out = out\<lparr>gkl_TypeMeta := gkl_TypeMeta inp\<rparr>;
          (m, h) = dl_ListMeta L (gkl_ListMeta inp) h; out = out\<lparr>gkl_ListMeta := m\<rparr>;
          (s, h) = copy_slice NodeClassesB unNodeClasses zeroNodeClass (PVENodeClass_DeepCopyInto L) (gkl_Items inp) h;
          out = out\<lparr>gkl_Items := s\<rparr>
      in (out, h))"

definition PVENodeImageSpec_DeepCopyInto :: "gPVENodeImageSpec \<Rightarrow> block heap \<Rightarrow> gPVENodeImageSpec \<times> block heap" where
  "PVENodeImageSpec_DeepCopyInto inp h =
     (let out = inp;
          out = out\<lparr>gi_BaseImage := gi_BaseImage inp\<rparr>;
          out = out\<lparr>gi_Distribution := gi_Distribution inp\<rparr>;
          (s, h) = copy_array StringsB unStrings [] (gi_Packages inp) h; out = out\<lparr>gi_Packages := s\<rparr>;
          (s, h) = copy_array StringsB unStrings [] (gi_SSHAuthorizedKeys inp) h; out = out\<lparr>gi_SSHAuthorizedKeys := s\<rparr>;
          out = out\<lparr>gi_BuildConfig := gi_BuildConfig inp\<rparr>;
          (r, h) = RebuildPolicy_DeepCopyInto (gi_RebuildPolicy inp) h; out = out\<lparr>gi_RebuildPolicy := r\<rparr>
      in (out, h))"

definition PVENodeImageStatus_DeepCopyInto ::
    "deep_libs \<Rightarrow> gPVENodeImageStatus \<Rightarrow> block heap \<Rightarrow> gPVENodeImageStatus \<times> block heap" where
  "PVENodeImageStatus_DeepCopyInto L inp h =
     (let out = inp;
          (s, h) = copy_slice ConditionsB unConditions zeroCondition (Condition_DeepCopyInto L) (gs_Conditions inp) h;
          out = out\<lparr>gs_Conditions := s\<rparr>;
          (p, h) = copy_ptr Int32B unInt32 0 id (gs_TemplateVMID inp) h; out = out\<lparr>gs_TemplateVMID := p\<rparr>;
          (p, h) = copy_ptr TimeB unTime 0 (dl_Time L) (gs_LastBuildTime inp) h; out = out\<lparr>gs_LastBuildTime := p\<rparr>
      in (out, h))"

definition PVENodeImage_DeepCopyInto ::
    "deep_libs \<Rightarrow> gPVENodeImage \<Rightarrow> block heap \<Rightarrow> gPVENodeImage \<times> block heap" where
  "PVENodeImage_DeepCopyInto L inp h =
     (let out = inp;
          out = out\<lparr>gp_TypeMeta := gp_TypeMeta inp\<rparr>;
          (m, h) = dl_ObjectMeta L (gp_ObjectMeta inp) h; out = out\<lparr>gp_ObjectMeta := m\<rparr>;
          (s, h) = PVENodeImageSpec_DeepCopyInto (gp_Spec inp) h; out = out\<lparr>gp_Spec := s\<rparr>;
          (t, h) = PVENodeImageStatus_DeepCopyInto L (gp_Status inp) h; out = out\<lparr>gp_Status := t\<rparr>
      in (out, h))"

definition zeroNodeImage :: gPVENodeImage where
  "zeroNodeImage = \<lparr>gp_TypeMeta = \<lparr>tm_Kind = '''', tm_APIVersion = ''''\<rparr>, gp_ObjectMeta = zeroObjectMeta,
     gp_Spec = \<lparr>gi_BaseImage = \<lparr>bi_URL = '''', bi_Checksum = '''', bi_ISOFile = ''''\<rparr>,
       gi_Distribution = \<lparr>di_Type = '''', di_Version = ''''\<rparr>, gi_Packages = None, gi_SSHAuthorizedKeys = None,
       gi_Timezone = '''', gi_BuildConfig = \<lparr>bc_Node = '''', bc_StoragePool = '''', bc_ISOStoragePool = '''', bc_Bridge = ''''\<rparr>,
       gi_RebuildPolicy = \<lparr>gr_Trigger = '''', gr_Interval = None\<rparr>\<rparr>,
     gp_Status = \<lparr>gs_Conditions = None, gs_TemplateVMID = None, gs_TemplateNode = '''',
       gs_ObservedSpecHash = '''', gs_LastBuildTime = None\<rparr>\<rparr>"

definition PVENodeImageList_DeepCopyInto ::
    "deep_libs \<Rightarrow> gPVENodeImageList \<Rightarrow> block heap \<Rightarrow> gPVENodeImageList \<times> block heap" where
  "PVENodeImageList_DeepCopyInto L inp h =
     (let out = inp;
          out = out\<lparr>gpl_TypeMeta := gpl_TypeMeta inp\<rparr>;
          (m, h) = dl_ListMeta L (gpl_ListMeta inp) h; out = out\<lparr>gpl_ListMeta := m\<rparr>;
          (s, h) = copy_slice NodeImagesB unNodeImages zeroNodeImage (PVENodeImage_DeepCopyInto L) (gpl_Items inp) h;
          out = out\<lparr>gpl_Items := s\<rparr>
      in (out, h))"

section \<open>DeepCopy and DeepCopyObject\<close>

definition BaseImage_DeepCopy where "BaseImage_DeepCopy = DeepCopy BaseImage_DeepCopyInto"
definition BuildConfig_DeepCopy where "BuildConfig_DeepCopy = DeepCopy BuildConfig_DeepCopyInto"
definition Distribution_DeepCopy where "Distribution_DeepCopy = DeepCopy Distribution_DeepCopyInto"
definition InstanceType_DeepCopy where "InstanceType_DeepCopy = DeepCopy InstanceType_DeepCopyInto"
definition NodeImageReference_DeepCopy where "NodeImageReference_DeepCopy = DeepCopy NodeImageReference_DeepCopyInto"
definition PlacementTarget_DeepCopy where "PlacementTarget_DeepCopy = DeepCopy PlacementTarget_DeepCopyInto"
definition NetworkConfig_DeepCopy where "NetworkConfig_DeepCopy = DeepCopy NetworkConfig_DeepCopyInto"
definition RebuildPolicy_DeepCopy where "RebuildPolicy_DeepCopy = DeepCopy RebuildPolicy_DeepCopyInto"
definition PVENodeClassSpec_DeepCopy where "PVENodeClassSpec_DeepCopy = DeepCopy PVENodeClassSpec_DeepCopyInto"
definition PVENodeClassStatus_DeepCopy where "PVENodeClassStatus_DeepCopy L = DeepCopy (PVENodeClassStatus_DeepCopyInto L)"
definition PVENodeClass_DeepCopy where "PVENodeClass_DeepCopy L = DeepCopy (PVENodeClass_DeepCopyInto L)"
definition PVENodeClassList_DeepCopy where "PVENodeClassList_DeepCopy L = DeepCopy (PVENodeClassList_DeepCopyInto L)"
definition PVENodeImageSpec_DeepCopy where "PVENodeImageSpec_DeepCopy = DeepCopy PVENodeImageSpec_DeepCopyInto"
definition PVENodeImageStatus_DeepCopy where "PVENodeImageStatus_DeepCopy L = DeepCopy (PVENodeImageStatus_DeepCopyInto L)"
definition PVENodeImage_DeepCopy where "PVENodeImage_DeepCopy L = DeepCopy (PVENodeImage_DeepCopyInto L)"
definition PVENodeImageList_DeepCopy where "PVENodeImageList_DeepCopy L = DeepCopy (PVENodeImageList_DeepCopyInto L)"

text \<open>
  \<open>runtime.Object\<close> holds a struct of one of four types; \<open>None\<close> is the nil interface, which a
  nil pointer is turned into rather than an interface around it.
\<close>

datatype runtime_Object =
    ObjNodeClass gPVENodeClass
  | ObjNodeClassList gPVENodeClassList
  | ObjNodeImage gPVENodeImage
  | ObjNodeImageList gPVENodeImageList

definition PVENodeClass_DeepCopyObject where
  "PVENodeClass_DeepCopyObject L inp h = (let (c, h) = PVENodeClass_DeepCopy L inp h in
     (if c \<noteq> None then map_option ObjNodeClass c else None, h))"
definition PVENodeClassList_DeepCopyObject where
  "PVENodeClassList_DeepCopyObject L inp h = (let (c, h) = PVENodeClassList_DeepCopy L inp h in
     (if c \<noteq> None then map_option ObjNodeClassList c else None, h))"
definition PVENodeImage_DeepCopyObject where
  "PVENodeImage_DeepCopyObject L inp h = (let (c, h) = PVENodeImage_DeepCopy L inp h in
     (if c \<noteq> None then map_option ObjNodeImage c else None, h))"
definition PVENodeImageList_DeepCopyObject where
  "PVENodeImageList_DeepCopyObject L inp h = (let (c, h) = PVENodeImageList_DeepCopy L inp h in
     (if c \<noteq> None then map_option ObjNodeImageList c else None, h))"

section \<open>What the structs look like from outside\<close>

abbreviation networkFields where
  "networkFields v \<equiv> (gn_Bridge v, gn_VLANTag v, gn_Firewall v)"
definition view_NetworkConfig where
  "view_NetworkConfig v = view_pair view_plain (view_pair (view_ptr unInt32) view_plain) (networkFields v)"
definition foot_NetworkConfig where
  "foot_NetworkConfig v = foot_pair foot_plain (foot_pair foot_ptr foot_plain) (networkFields v)"

abbreviation rebuildFields where
  "rebuildFields v \<equiv> (gr_Trigger v, gr_Interval v)"
definition view_RebuildPolicy where
  "view_RebuildPolicy v = view_pair view_plain (view_ptr unDuration) (rebuildFields v)"
definition foot_RebuildPolicy where
  "foot_RebuildPolicy v = foot_pair foot_plain foot_ptr (rebuildFields v)"

abbreviation classSpecFields where
  "classSpecFields v \<equiv> ((gc_NodeImageRef v, gc_StoragePool v), gc_InstanceTypes v, gc_PlacementTargets v,
     gc_Network v, gc_Tags v)"
definition view_PVENodeClassSpec where
  "view_PVENodeClassSpec v = view_pair view_plain (view_pair (view_slice unInstanceTypes view_plain)
     (view_pair (view_slice unPlacementTargets view_plain) (view_pair view_NetworkConfig
     (view_slice unStrings view_plain)))) (classSpecFields v)"
definition foot_PVENodeClassSpec where
  "foot_PVENodeClassSpec v = foot_pair foot_plain (foot_pair (foot_slice unInstanceTypes foot_plain)
     (foot_pair (foot_slice unPlacementTargets foot_plain) (foot_pair foot_NetworkConfig
     (foot_slice unStrings foot_plain)))) (classSpecFields v)"

definition view_PVENodeClassStatus where
  "view_PVENodeClassStatus v = view_slice unConditions view_plain (gcs_Conditions v)"
definition foot_PVENodeClassStatus where
  "foot_PVENodeClassStatus v = foot_slice unConditions foot_plain (gcs_Conditions v)"

abbreviation classFields where
  "classFields v \<equiv> (gk_TypeMeta v, gk_ObjectMeta v, gk_Spec v, gk_Status v)"
definition view_PVENodeClass where
  "view_PVENodeClass v = view_pair view_plain (view_pair view_ObjectMeta (view_pair view_PVENodeClassSpec
     view_PVENodeClassStatus)) (classFields v)"
definition foot_PVENodeClass where
  "foot_PVENodeClass v = foot_pair foot_plain (foot_pair foot_ObjectMeta (foot_pair foot_PVENodeClassSpec
     foot_PVENodeClassStatus)) (classFields v)"

abbreviation classListFields where
  "classListFields v \<equiv> (gkl_TypeMeta v, gkl_ListMeta v, gkl_Items v)"
definition view_PVENodeClassList where
  "view_PVENodeClassList v = view_pair view_plain (view_pair view_ListMeta
     (view_slice unNodeClasses view_PVENodeClass)) (classListFields v)"
definition foot_PVENodeClassList where
  "foot_PVENodeClassList v = foot_pair foot_plain (foot_pair foot_ListMeta
     (foot_slice unNodeClasses foot_PVENodeClass)) (classListFields v)"

abbreviation imageSpecFields where
  "imageSpecFields v \<equiv> ((gi_BaseImage v, gi_Distribution v, gi_Timezone v, gi_BuildConfig v),
     gi_Packages v, gi_SSHAuthorizedKeys v, gi_RebuildPolicy v)"
definition view_PVENodeImageSpec where
  "view_PVENodeImageSpec v = view_pair view_plain (view_pair (view_slice unStrings view_plain)
     (view_pair (view_slice unStrings view_plain) view_RebuildPolicy)) (imageSpecFields v)"
definition foot_PVENodeImageSpec where
  "foot_PVENodeImageSpec v = foot_pair foot_plain (foot_pair (foot_slice unStrings foot_plain)
     (foot_pair (foot_slice unStrings foot_plain) foot_RebuildPolicy)) (imageSpecFields v)"

abbreviation imageStatusFields where
  "imageStatusFields v \<equiv> ((gs_TemplateNode v, gs_ObservedSpecHash v), gs_Conditions v, gs_TemplateVMID v, gs_LastBuildTime v)"
definition view_PVENodeImageStatus where
  "view_PVENodeImageStatus v = view_pair view_plain (view_pair (view_slice unConditions view_plain)
     (view_pair (view_ptr unInt32) (view_ptr unTime))) (imageStatusFields v)"
definition foot_PVENodeImageStatus where
  "foot_PVENodeImageStatus v = foot_pair foot_plain (foot_pair (foot_slice unConditions foot_plain)
     (foot_pair foot_ptr foot_ptr)) (imageStatusFields v)"

abbreviation imageFields where
  "imageFields v \<equiv> (gp_TypeMeta v, gp_ObjectMeta v, gp_Spec v, gp_Status v)"
definition view_PVENodeImage where
  "view_PVENodeImage v = view_pair view_plain (view_pair view_ObjectMeta (view_pair view_PVENodeImageSpec
     view_PVENodeImageStatus)) (imageFields v)"
definition foot_PVENodeImage where
  "foot_PVENodeImage v = foot_pair foot_plain (foot_pair foot_ObjectMeta (foot_pair foot_PVENodeImageSpec
     foot_PVENodeImageStatus)) (imageFields v)"

abbreviation imageListFields where
  "imageListFields v \<equiv> (gpl_TypeMeta v, gpl_ListMeta v, gpl_Items v)"
definition view_PVENodeImageList where
  "view_PVENodeImageList v = view_pair view_plain (view_pair view_ListMeta
     (view_slice unNodeImages view_PVENodeImage)) (imageListFields v)"
definition foot_PVENodeImageList where
  "foot_PVENodeImageList v = foot_pair foot_plain (foot_pair foot_ListMeta
     (foot_slice unNodeImages foot_PVENodeImage)) (imageListFields v)"

section \<open>Every DeepCopyInto is a deep copy\<close>

lemmas copy_simps = copy_pair_def copy_plain_def Let_def split_beta

interpretation base_image: copyable view_plain foot_plain BaseImage_DeepCopyInto
  by unfold_locales (auto simp: view_plain_def foot_plain_def BaseImage_DeepCopyInto_def)
interpretation build_config: copyable view_plain foot_plain BuildConfig_DeepCopyInto
  by unfold_locales (auto simp: view_plain_def foot_plain_def BuildConfig_DeepCopyInto_def)
interpretation distribution: copyable view_plain foot_plain Distribution_DeepCopyInto
  by unfold_locales (auto simp: view_plain_def foot_plain_def Distribution_DeepCopyInto_def)
interpretation instance_type: copyable view_plain foot_plain InstanceType_DeepCopyInto
  by unfold_locales (auto simp: view_plain_def foot_plain_def InstanceType_DeepCopyInto_def)
interpretation image_reference: copyable view_plain foot_plain NodeImageReference_DeepCopyInto
  by unfold_locales (auto simp: view_plain_def foot_plain_def NodeImageReference_DeepCopyInto_def)
interpretation placement_target: copyable view_plain foot_plain PlacementTarget_DeepCopyInto
  by unfold_locales (auto simp: view_plain_def foot_plain_def PlacementTarget_DeepCopyInto_def)

interpretation network_config: copyable view_NetworkConfig foot_NetworkConfig NetworkConfig_DeepCopyInto
  by (rule copyable_structI [where parts = "\<lambda>v. networkFields v"
        and struct = "\<lambda>(b, t, f). \<lparr>gn_Bridge = b, gn_VLANTag = t, gn_Firewall = f\<rparr>",
      OF copyable_pair [OF plain.copyable_axioms copyable_pair [OF
           copyable_ptr [where mk = Int32B and un = unInt32 and zero = 0 and f = id] plain.copyable_axioms]]])
    (simp_all add: view_NetworkConfig_def foot_NetworkConfig_def NetworkConfig_DeepCopyInto_def copy_simps split: prod.splits)

interpretation rebuild_policy: copyable view_RebuildPolicy foot_RebuildPolicy RebuildPolicy_DeepCopyInto
  by (rule copyable_structI [where parts = "\<lambda>v. rebuildFields v"
        and struct = "\<lambda>(t, i). \<lparr>gr_Trigger = t, gr_Interval = i\<rparr>",
      OF copyable_pair [OF plain.copyable_axioms
           copyable_ptr [where mk = DurationB and un = unDuration and zero = 0 and f = id]]])
    (simp_all add: view_RebuildPolicy_def foot_RebuildPolicy_def RebuildPolicy_DeepCopyInto_def copy_simps split: prod.splits)

lemmas copyable_strings = copyable_array [where mk = StringsB and un = unStrings and zero = "[]"]

interpretation class_spec: copyable view_PVENodeClassSpec foot_PVENodeClassSpec PVENodeClassSpec_DeepCopyInto
  by (rule copyable_structI [where parts = "\<lambda>v. classSpecFields v"
        and struct = "\<lambda>((r, p), i, t, n, g). \<lparr>gc_NodeImageRef = r, gc_InstanceTypes = i, gc_PlacementTargets = t,
          gc_StoragePool = p, gc_Network = n, gc_Tags = g\<rparr>",
      OF copyable_pair [OF plain.copyable_axioms copyable_pair [OF
          copyable_array [where mk = InstanceTypesB and un = unInstanceTypes and zero = zeroInstanceType]
          copyable_pair [OF copyable_array [where mk = PlacementTargetsB and un = unPlacementTargets
              and zero = zeroPlacementTarget]
            copyable_pair [OF network_config.copyable_axioms copyable_strings]]]]])
    (simp_all add: view_PVENodeClassSpec_def foot_PVENodeClassSpec_def PVENodeClassSpec_DeepCopyInto_def
      copy_simps split: prod.splits)

interpretation image_spec: copyable view_PVENodeImageSpec foot_PVENodeImageSpec PVENodeImageSpec_DeepCopyInto
  by (rule copyable_structI [where parts = "\<lambda>v. imageSpecFields v"
        and struct = "\<lambda>((b, d, t, c), p, k, r). \<lparr>gi_BaseImage = b, gi_Distribution = d, gi_Packages = p,
          gi_SSHAuthorizedKeys = k, gi_Timezone = t, gi_BuildConfig = c, gi_RebuildPolicy = r\<rparr>",
      OF copyable_pair [OF plain.copyable_axioms copyable_pair [OF copyable_strings
          copyable_pair [OF copyable_strings rebuild_policy.copyable_axioms]]]])
    (simp_all add: view_PVENodeImageSpec_def foot_PVENodeImageSpec_def PVENodeImageSpec_DeepCopyInto_def
      copy_simps split: prod.splits)

text \<open>The types whose copies call the library: under its contract.\<close>

lemma copyable_conditions:
  assumes "libs_contract L"
  shows "copyable (view_slice unConditions view_plain) (foot_slice unConditions foot_plain)
    (copy_slice ConditionsB unConditions zeroCondition (Condition_DeepCopyInto L))"
proof -
  have "Condition_DeepCopyInto L = copy_plain"
    using assms by (intro ext) (simp add: Condition_DeepCopyInto_def copy_plain_def libs_contract_def)
  then show ?thesis using copyable_slice [OF plain.copyable_axioms, of unConditions ConditionsB] by simp
qed

lemma copyable_ObjectMeta: "libs_contract L \<Longrightarrow> copyable view_ObjectMeta foot_ObjectMeta (dl_ObjectMeta L)"
  by (simp add: libs_contract_def)

lemma copyable_ListMeta: "libs_contract L \<Longrightarrow> copyable view_ListMeta foot_ListMeta (dl_ListMeta L)"
  by (simp add: libs_contract_def)

lemma copyable_time: "libs_contract L \<Longrightarrow> copyable (view_ptr unTime) foot_ptr (copy_ptr TimeB unTime 0 (dl_Time L))"
  by (rule copyable_ptr) (simp_all add: libs_contract_def)

lemma copyable_class_status:
  "libs_contract L \<Longrightarrow> copyable view_PVENodeClassStatus foot_PVENodeClassStatus (PVENodeClassStatus_DeepCopyInto L)"
  by (rule copyable_structI [where parts = gcs_Conditions and struct = "\<lambda>c. \<lparr>gcs_Conditions = c\<rparr>",
      OF copyable_conditions])
    (auto simp: view_PVENodeClassStatus_def foot_PVENodeClassStatus_def PVENodeClassStatus_DeepCopyInto_def
      copy_simps intro!: gPVENodeClassStatus.equality)

lemma copyable_image_status:
  "libs_contract L \<Longrightarrow> copyable view_PVENodeImageStatus foot_PVENodeImageStatus (PVENodeImageStatus_DeepCopyInto L)"
  by (rule copyable_structI [where parts = "\<lambda>v. imageStatusFields v"
        and struct = "\<lambda>((n, s), c, v, t). \<lparr>gs_Conditions = c, gs_TemplateVMID = v, gs_TemplateNode = n,
          gs_ObservedSpecHash = s, gs_LastBuildTime = t\<rparr>",
      OF copyable_pair [OF plain.copyable_axioms copyable_pair [OF copyable_conditions copyable_pair [OF
          copyable_ptr [where mk = Int32B and un = unInt32 and zero = 0 and f = id] copyable_time]]]])
    (auto simp: view_PVENodeImageStatus_def foot_PVENodeImageStatus_def PVENodeImageStatus_DeepCopyInto_def
      copy_simps intro!: gPVENodeImageStatus.equality)

lemma copyable_class:
  "libs_contract L \<Longrightarrow> copyable view_PVENodeClass foot_PVENodeClass (PVENodeClass_DeepCopyInto L)"
  by (rule copyable_structI [where parts = "\<lambda>v. classFields v"
        and struct = "\<lambda>(t, m, s, u). \<lparr>gk_TypeMeta = t, gk_ObjectMeta = m, gk_Spec = s, gk_Status = u\<rparr>",
      OF copyable_pair [OF plain.copyable_axioms copyable_pair [OF copyable_ObjectMeta copyable_pair [OF
          class_spec.copyable_axioms copyable_class_status]]]])
    (auto simp: view_PVENodeClass_def foot_PVENodeClass_def PVENodeClass_DeepCopyInto_def
      copy_simps intro!: gPVENodeClass.equality)

lemma copyable_image:
  "libs_contract L \<Longrightarrow> copyable view_PVENodeImage foot_PVENodeImage (PVENodeImage_DeepCopyInto L)"
  by (rule copyable_structI [where parts = "\<lambda>v. imageFields v"
        and struct = "\<lambda>(t, m, s, u). \<lparr>gp_TypeMeta = t, gp_ObjectMeta = m, gp_Spec = s, gp_Status = u\<rparr>",
      OF copyable_pair [OF plain.copyable_axioms copyable_pair [OF copyable_ObjectMeta copyable_pair [OF
          image_spec.copyable_axioms copyable_image_status]]]])
    (auto simp: view_PVENodeImage_def foot_PVENodeImage_def PVENodeImage_DeepCopyInto_def
      copy_simps intro!: gPVENodeImage.equality)

lemma copyable_class_list:
  "libs_contract L \<Longrightarrow> copyable view_PVENodeClassList foot_PVENodeClassList (PVENodeClassList_DeepCopyInto L)"
  by (rule copyable_structI [where parts = "\<lambda>v. classListFields v"
        and struct = "\<lambda>(t, m, i). \<lparr>gkl_TypeMeta = t, gkl_ListMeta = m, gkl_Items = i\<rparr>",
      OF copyable_pair [OF plain.copyable_axioms copyable_pair [OF copyable_ListMeta
          copyable_slice [OF copyable_class, where mk = NodeClassesB and un = unNodeClasses and zero = zeroNodeClass]]]])
    (auto simp: view_PVENodeClassList_def foot_PVENodeClassList_def PVENodeClassList_DeepCopyInto_def
      copy_simps intro!: gPVENodeClassList.equality)

lemma copyable_image_list:
  "libs_contract L \<Longrightarrow> copyable view_PVENodeImageList foot_PVENodeImageList (PVENodeImageList_DeepCopyInto L)"
  by (rule copyable_structI [where parts = "\<lambda>v. imageListFields v"
        and struct = "\<lambda>(t, m, i). \<lparr>gpl_TypeMeta = t, gpl_ListMeta = m, gpl_Items = i\<rparr>",
      OF copyable_pair [OF plain.copyable_axioms copyable_pair [OF copyable_ListMeta
          copyable_slice [OF copyable_image, where mk = NodeImagesB and un = unNodeImages and zero = zeroNodeImage]]]])
    (auto simp: view_PVENodeImageList_def foot_PVENodeImageList_def PVENodeImageList_DeepCopyInto_def
      copy_simps intro!: gPVENodeImageList.equality)

section \<open>The resource behind the pointers\<close>

text \<open>
  The record that the other theories work on, with nil slices and maps read as empty ones.
\<close>

definition nonnil :: "'a list option \<Rightarrow> 'a list" where
  "nonnil s = (case s of None \<Rightarrow> [] | Some xs \<Rightarrow> xs)"

fun imageOf where
  "imageOf (t, ((n, ns, u, rv, g), d, l, os), ((b, di, tz, bc), p, k, (tr, i)), ((tn, sh), cs, vm, lb)) =
     \<lparr>im_TypeMeta = t,
      im_ObjectMeta = \<lparr>om_Name = n, om_Namespace = ns, om_UID = u, om_ResourceVersion = rv, om_Generation = g,
        om_DeletionTimestamp = d, om_Labels = (case l of None \<Rightarrow> Map.empty | Some m \<Rightarrow> m),
        om_OwnerReferences = nonnil os\<rparr>,
      im_Spec = \<lparr>is_BaseImage = b, is_Distribution = di, is_Packages = nonnil p, is_SSHAuthorizedKeys = nonnil k,
        is_Timezone = tz, is_BuildConfig = bc, is_RebuildPolicy = \<lparr>rp_Trigger = tr, rp_Interval = i\<rparr>\<rparr>,
      im_Status = \<lparr>ist_Conditions = nonnil cs, ist_TemplateVMID = vm, ist_TemplateNode = tn,
        ist_ObservedSpecHash = sh, ist_LastBuildTime = lb\<rparr>\<rparr>"

definition api_image :: "gPVENodeImage \<Rightarrow> block heap \<Rightarrow> PVENodeImage option" where
  "api_image v h = map_option imageOf (view_PVENodeImage v h)"

section \<open>A sample heap\<close>

definition sampleLibs :: deep_libs where
  "sampleLibs = \<lparr>
     dl_ObjectMeta = (\<lambda>v h. (let (d, h) = copy_ptr TimeB unTime 0 id (gm_DeletionTimestamp v) h;
         (l, h) = copy_ptr MapB unMap Map.empty id (gm_Labels v) h;
         (r, h) = copy_array OwnersB unOwners \<lparr>or_Kind = '''', or_Name = '''', or_UID = '''', or_Controller = None\<rparr> (gm_OwnerReferences v) h
       in (v\<lparr>gm_DeletionTimestamp := d, gm_Labels := l, gm_OwnerReferences := r\<rparr>, h))),
     dl_ListMeta = (\<lambda>v h. (let (c, h) = copy_ptr Int64B unInt64 0 id (gl_RemainingItemCount v) h
       in (v\<lparr>gl_RemainingItemCount := c\<rparr>, h))),
     dl_Condition = id, dl_Time = id\<rparr>"

lemma sampleLibs_contract: "libs_contract sampleLibs"
proof -
  have "copyable view_ObjectMeta foot_ObjectMeta (dl_ObjectMeta sampleLibs)"
    by (rule copyable_structI [where parts = "\<lambda>v. metaFields v"
          and struct = "\<lambda>((n, ns, u, rv, g), d, l, r). \<lparr>gm_Name = n, gm_Namespace = ns, gm_UID = u,
            gm_ResourceVersion = rv, gm_Generation = g, gm_DeletionTimestamp = d, gm_Labels = l,
            gm_OwnerReferences = r\<rparr>",
        OF copyable_pair [OF plain.copyable_axioms copyable_pair [OF
            copyable_ptr [where mk = TimeB and un = unTime and zero = 0 and f = id] copyable_pair [OF
            copyable_ptr [where mk = MapB and un = unMap and zero = Map.empty and f = id]
            copyable_array [where mk = OwnersB and un = unOwners and zero = "\<lparr>or_Kind = [], or_Name = [], or_UID = [], or_Controller = None\<rparr>"]]]]])
      (auto simp: view_ObjectMeta_def foot_ObjectMeta_def sampleLibs_def copy_simps intro!: gObjectMeta.equality)
  moreover have "copyable view_ListMeta foot_ListMeta (dl_ListMeta sampleLibs)"
    by (rule copyable_structI [where parts = "\<lambda>v. listMetaFields v"
          and struct = "\<lambda>((r, k), c). \<lparr>gl_ResourceVersion = r, gl_Continue = k, gl_RemainingItemCount = c\<rparr>",
        OF copyable_pair [OF plain.copyable_axioms
            copyable_ptr [where mk = Int64B and un = unInt64 and zero = 0 and f = id]]])
      (auto simp: view_ListMeta_def foot_ListMeta_def sampleLibs_def copy_simps intro!: gListMeta.equality)
  ultimately show ?thesis by (simp add: libs_contract_def) (simp add: sampleLibs_def)
qed

text \<open>An image with a list of packages and a template number behind addresses, and a list of two classes.\<close>

definition sampleHeap :: "block heap" where
  "sampleHeap = \<lparr>hp_next = 5, hp_block = [0 \<mapsto> StringsB [''curl'', ''vim'', ''git''], 1 \<mapsto> Int32B 9000,
     2 \<mapsto> MapB [''app'' \<mapsto> ''x''],
     3 \<mapsto> Int32B 20,
     4 \<mapsto> NodeClassesB [zeroNodeClass, zeroNodeClass\<lparr>gk_Spec := (gk_Spec zeroNodeClass)\<lparr>gc_Network :=
       \<lparr>gn_Bridge = ''vmbr0'', gn_VLANTag = Some 3, gn_Firewall = True\<rparr>\<rparr>\<rparr>]]\<rparr>"

definition sampleNodeImage :: gPVENodeImage where
  "sampleNodeImage = zeroNodeImage\<lparr>
     gp_ObjectMeta := zeroObjectMeta\<lparr>gm_Labels := Some 2\<rparr>,
     gp_Spec := (gp_Spec zeroNodeImage)\<lparr>gi_Packages := Some \<lparr>sl_Array = 0, sl_Offset = 1, sl_Len = 2\<rparr>\<rparr>,
     gp_Status := (gp_Status zeroNodeImage)\<lparr>gs_TemplateVMID := Some 1\<rparr>\<rparr>"

definition sampleClassList :: gPVENodeClassList where
  "sampleClassList = \<lparr>gkl_TypeMeta = \<lparr>tm_Kind = ''PVENodeClassList'', tm_APIVersion = ''''\<rparr>,
     gkl_ListMeta = \<lparr>gl_ResourceVersion = ''7'', gl_Continue = '''', gl_RemainingItemCount = None\<rparr>,
     gkl_Items = Some \<lparr>sl_Array = 4, sl_Offset = 0, sl_Len = 2\<rparr>\<rparr>"

lemma sampleHeap_wf: "wf_heap sampleHeap"
  by (auto simp: wf_heap_def sampleHeap_def split: if_splits)

lemmas [view_simps] =
  view_ObjectMeta_def view_ListMeta_def view_NetworkConfig_def view_RebuildPolicy_def
  view_PVENodeClassSpec_def view_PVENodeClassStatus_def view_PVENodeClass_def view_PVENodeClassList_def
  view_PVENodeImageSpec_def view_PVENodeImageStatus_def view_PVENodeImage_def

lemma sampleNodeImage_view: "\<exists>x. view_PVENodeImage sampleNodeImage sampleHeap = Some x"
  by (simp add: view_simps sampleNodeImage_def sampleHeap_def zeroNodeImage_def zeroObjectMeta_def)

lemma sampleClassList_view: "\<exists>x. view_PVENodeClassList sampleClassList sampleHeap = Some x"
  by (simp add: view_simps sampleClassList_def sampleHeap_def zeroNodeClass_def zeroObjectMeta_def)

section \<open>Properties\<close>

text \<open>
  Claim C13. \<open>PVENodeImage.DeepCopy\<close> is a deep copy: for an image whose pointers lead to objects of
  their types the result is an image of new objects that looks the same (the same resource, nil
  and empty slices told apart), every object that was there is unchanged, and neither the
  original nor the copy notices what is later done to the objects of the other. \<open>nil\<close> gives
  \<open>nil\<close>, and \<open>DeepCopyObject\<close> the same as an interface value.
\<close>

theorem PVENodeImage_DeepCopy_deep:
  assumes "libs_contract L" "wf_heap h" "api_image v h = Some img"
  shows "(\<exists>v' h'. PVENodeImage_DeepCopy L (Some v) h = (Some v', h') \<and>
      PVENodeImage_DeepCopyObject L (Some v) h = (Some (ObjNodeImage v'), h') \<and>
      api_image v' h' = Some img \<and> wf_heap h' \<and>
      deep_copy_of view_PVENodeImage foot_PVENodeImage v h v' h') \<and>
    PVENodeImage_DeepCopy L None h = (None, h) \<and> PVENodeImage_DeepCopyObject L None h = (None, h)"
proof -
  obtain x where x: "view_PVENodeImage v h = Some x" using assms(3) by (auto simp: api_image_def)
  obtain r h' where r: "PVENodeImage_DeepCopy L (Some v) h = (r, h')" by fastforce
  from copyable.DeepCopy_deep [OF copyable_image [OF assms(1)] assms(2) x r [unfolded PVENodeImage_DeepCopy_def]]
  obtain v' where v': "r = Some v'" "wf_heap h'" "deep_copy_of view_PVENodeImage foot_PVENodeImage v h v' h'"
    by blast
  have img: "api_image v' h' = Some img"
    using assms(3) by (simp only: api_image_def deep_copy_of_view [OF v'(3)])
  have obj: "PVENodeImage_DeepCopyObject L (Some v) h = (Some (ObjNodeImage v'), h')"
    by (simp add: PVENodeImage_DeepCopyObject_def r v'(1))
  have "PVENodeImage_DeepCopy L None h = (None, h) \<and> PVENodeImage_DeepCopyObject L None h = (None, h)"
    by (simp add: PVENodeImage_DeepCopyObject_def PVENodeImage_DeepCopy_def DeepCopy_def)
  then show ?thesis using r [unfolded v'(1)] obj img v'(2,3) by blast
qed

theorem PVENodeImage_DeepCopy_deep_witness:
  "\<exists>v' h'. PVENodeImage_DeepCopy sampleLibs (Some sampleNodeImage) sampleHeap = (Some v', h') \<and>
    deep_copy_of view_PVENodeImage foot_PVENodeImage sampleNodeImage sampleHeap v' h'"
proof -
  obtain img where "api_image sampleNodeImage sampleHeap = Some img"
    using sampleNodeImage_view by (auto simp: api_image_def)
  from PVENodeImage_DeepCopy_deep [OF sampleLibs_contract sampleHeap_wf this] show ?thesis by blast
qed

text \<open>
  The same for a list of node classes, whose elements are copied one by one into a new
  array, each with its own metadata, slices and VLAN tag.
\<close>

theorem PVENodeClassList_DeepCopy_deep:
  assumes "libs_contract L" "wf_heap h" "view_PVENodeClassList v h = Some x"
  shows "\<exists>v' h'. PVENodeClassList_DeepCopy L (Some v) h = (Some v', h') \<and>
      PVENodeClassList_DeepCopyObject L (Some v) h = (Some (ObjNodeClassList v'), h') \<and> wf_heap h' \<and>
      deep_copy_of view_PVENodeClassList foot_PVENodeClassList v h v' h'"
proof -
  obtain r h' where r: "PVENodeClassList_DeepCopy L (Some v) h = (r, h')" by fastforce
  from copyable.DeepCopy_deep [OF copyable_class_list [OF assms(1)] assms(2,3) r [unfolded PVENodeClassList_DeepCopy_def]]
  obtain v' where "r = Some v'" "wf_heap h'" "deep_copy_of view_PVENodeClassList foot_PVENodeClassList v h v' h'"
    by blast
  moreover have "PVENodeClassList_DeepCopyObject L (Some v) h = (Some (ObjNodeClassList v'), h')"
    by (simp add: PVENodeClassList_DeepCopyObject_def r calculation(1))
  ultimately show ?thesis using r by blast
qed

theorem PVENodeClassList_DeepCopy_deep_witness:
  "\<exists>v' h'. PVENodeClassList_DeepCopy sampleLibs (Some sampleClassList) sampleHeap = (Some v', h') \<and>
    deep_copy_of view_PVENodeClassList foot_PVENodeClassList sampleClassList sampleHeap v' h'"
proof -
  obtain x where "view_PVENodeClassList sampleClassList sampleHeap = Some x" using sampleClassList_view by blast
  from PVENodeClassList_DeepCopy_deep [OF sampleLibs_contract sampleHeap_wf this] show ?thesis by blast
qed

end
