(* ===== verification/Crd_Json.thy ===== *)
theory Crd_Json
  imports Prelude "HOL-Library.Monad_Syntax"
begin

text \<open>
  JSON objects and structural schemas, the vocabulary in which the markers of the API types
  speak to the API server: a schema constrains a value (\<open>valid\<close>), fills in the defaults and
  drops the fields it does not know (\<open>fill\<close>), and an object is stored when its filled form is
  valid (\<open>admit\<close>). What a Go client then reads is the decoding of that object by the JSON tags
  of the structs; the readers of single fields are at the end. The semantics is the documented
  one of custom resource definitions: a rule sees which fields are present, not what they hold;
  no field here is \<open>nullable\<close>, so a \<open>null\<close> is dropped before the defaults are filled in.
\<close>

section \<open>Values and schemas\<close>

datatype json =
    JNull
  | JBool bool
  | JInt int
  | JString string
  | JArr "json list"
  | JObj "(string \<times> json) list"

text \<open>
  A string with its pattern, enumeration and length limits, an integer with its range, an array
  with the restriction its list type and length put on it, an object with its fields and its
  validation rule. A field has a name, may be required, and may have a default.
\<close>

datatype schema =
    StringS "string \<Rightarrow> bool"
  | IntegerS "int \<Rightarrow> bool"
  | BooleanS
  | ArrayS "json list \<Rightarrow> bool" schema
  | ObjectS "field list" "(string \<Rightarrow> json option) \<Rightarrow> bool"
and field = Field string bool "json option" schema

abbreviation required :: "string \<Rightarrow> schema \<Rightarrow> field" where
  "required n s \<equiv> Field n True None s"

abbreviation optional :: "string \<Rightarrow> schema \<Rightarrow> field" where
  "optional n s \<equiv> Field n False None s"

abbreviation defaulted :: "string \<Rightarrow> json \<Rightarrow> schema \<Rightarrow> field" where
  "defaulted n v s \<equiv> Field n False (Some v) s"

fun valid :: "schema \<Rightarrow> json \<Rightarrow> bool" and valid_fields :: "field list \<Rightarrow> (string \<times> json) list \<Rightarrow> bool" where
  "valid (StringS p) j = (case j of JString s \<Rightarrow> p s | _ \<Rightarrow> False)"
| "valid (IntegerS p) j = (case j of JInt i \<Rightarrow> p i | _ \<Rightarrow> False)"
| "valid BooleanS j = (case j of JBool b \<Rightarrow> True | _ \<Rightarrow> False)"
| "valid (ArrayS p s) j = (case j of JArr js \<Rightarrow> p js \<and> (\<forall>x \<in> set js. valid s x) | _ \<Rightarrow> False)"
| "valid (ObjectS fs rule) j = (case j of JObj kvs \<Rightarrow> valid_fields fs kvs \<and> rule (map_of kvs) | _ \<Rightarrow> False)"
| "valid_fields [] kvs = True"
| "valid_fields (Field n req d s # fs) kvs =
     ((case map_of kvs n of None \<Rightarrow> \<not> req | Some j \<Rightarrow> valid s j) \<and> valid_fields fs kvs)"

fun fill :: "schema \<Rightarrow> json \<Rightarrow> json"
  and fill_fields :: "field list \<Rightarrow> (string \<times> json) list \<Rightarrow> (string \<times> json) list" where
  "fill (StringS p) j = j"
| "fill (IntegerS p) j = j"
| "fill BooleanS j = j"
| "fill (ArrayS p s) j = (case j of JArr js \<Rightarrow> JArr (map (fill s) js) | _ \<Rightarrow> j)"
| "fill (ObjectS fs rule) j = (case j of JObj kvs \<Rightarrow> JObj (fill_fields fs kvs) | _ \<Rightarrow> j)"
| "fill_fields [] kvs = []"
| "fill_fields (Field n req d s # fs) kvs =
     (case (map_of kvs n, d) of
        (None, None) \<Rightarrow> fill_fields fs kvs
      | (Some JNull, None) \<Rightarrow> fill_fields fs kvs
      | (None, Some v) \<Rightarrow> (n, fill s v) # fill_fields fs kvs
      | (Some JNull, Some v) \<Rightarrow> (n, fill s v) # fill_fields fs kvs
      | (Some j, _) \<Rightarrow> (n, fill s j) # fill_fields fs kvs)"

definition admit :: "schema \<Rightarrow> json \<Rightarrow> json option" where
  "admit s j = (if valid s (fill s j) then Some (fill s j) else None)"

text \<open>The list types \<open>set\<close> and \<open>map\<close> with one key.\<close>

definition set_list :: "json list \<Rightarrow> bool" where
  "set_list js \<longleftrightarrow> distinct js"

definition json_field :: "string \<Rightarrow> json \<Rightarrow> json option" where
  "json_field n j = (case j of JObj kvs \<Rightarrow> map_of kvs n | _ \<Rightarrow> None)"

definition map_list :: "string \<Rightarrow> json list \<Rightarrow> bool" where
  "map_list key js \<longleftrightarrow> distinct (map (json_field key) js)"

definition has :: "(string \<Rightarrow> json option) \<Rightarrow> string \<Rightarrow> bool" where
  "has self n \<longleftrightarrow> self n \<noteq> None"

section \<open>Reading fields\<close>

text \<open>
  How Go decodes a field: an absent or null field leaves the zero value, a value of another
  JSON type is an error.
\<close>

definition read_field :: "(json \<Rightarrow> 'a option) \<Rightarrow> 'a \<Rightarrow> (string \<Rightarrow> json option) \<Rightarrow> string \<Rightarrow> 'a option" where
  "read_field rd zero self n = (case self n of
     None \<Rightarrow> Some zero | Some JNull \<Rightarrow> Some zero | Some j \<Rightarrow> rd j)"

definition dec_string :: "json \<Rightarrow> string option" where
  "dec_string j = (case j of JString s \<Rightarrow> Some s | _ \<Rightarrow> None)"

definition dec_bool :: "json \<Rightarrow> bool option" where
  "dec_bool j = (case j of JBool b \<Rightarrow> Some b | _ \<Rightarrow> None)"

text \<open>Integers of a fixed width: a number that does not fit is an error.\<close>

definition dec_int :: "json \<Rightarrow> ('a :: len) word option" where
  "dec_int j = (case j of
     JInt i \<Rightarrow> (if sint (word_of_int i :: 'a word) = i then Some (word_of_int i) else None) | _ \<Rightarrow> None)"

fun dec_elems :: "(json \<Rightarrow> 'a option) \<Rightarrow> json list \<Rightarrow> 'a list option" where
  "dec_elems rd [] = Some []"
| "dec_elems rd (j # js) = do { x \<leftarrow> rd j; xs \<leftarrow> dec_elems rd js; Some (x # xs) }"

definition dec_list :: "(json \<Rightarrow> 'a option) \<Rightarrow> json \<Rightarrow> 'a list option" where
  "dec_list rd j = (case j of JArr js \<Rightarrow> dec_elems rd js | _ \<Rightarrow> None)"

definition dec_object :: "((string \<Rightarrow> json option) \<Rightarrow> 'a option) \<Rightarrow> json \<Rightarrow> 'a option" where
  "dec_object rd j = (case j of JObj kvs \<Rightarrow> rd (map_of kvs) | _ \<Rightarrow> None)"

section \<open>Writing fields\<close>

text \<open>The entry of a field in the encoding of a struct, left out when \<open>omitzero\<close> finds the zero value.\<close>

definition always :: "string \<Rightarrow> json \<Rightarrow> (string \<times> json) list" where
  "always n j = [(n, j)]"

definition omitzero :: "('a \<Rightarrow> json) \<Rightarrow> 'a \<Rightarrow> string \<Rightarrow> 'a \<Rightarrow> (string \<times> json) list" where
  "omitzero enc zero n x = (if x = zero then [] else [(n, enc x)])"

definition enc_strings :: "string list \<Rightarrow> json" where
  "enc_strings xs = JArr (map JString xs)"

section \<open>Lemmas\<close>

text \<open>Validity of an object, field by field.\<close>

fun field_ok :: "(string \<Rightarrow> json option) \<Rightarrow> field \<Rightarrow> bool" where
  "field_ok self (Field n req d s) = (case self n of None \<Rightarrow> \<not> req | Some j \<Rightarrow> valid s j)"

lemma valid_fields_iff: "valid_fields fs kvs \<longleftrightarrow> (\<forall>f \<in> set fs. field_ok (map_of kvs) f)"
proof (induction fs)
  case (Cons f fs)
  then show ?case by (cases f) simp
qed simp

lemma valid_object_iff:
  "valid (ObjectS fs rule) j \<longleftrightarrow>
     (\<exists>kvs. j = JObj kvs \<and> (\<forall>f \<in> set fs. field_ok (map_of kvs) f) \<and> rule (map_of kvs))"
  by (cases j) (simp_all add: valid_fields_iff)

text \<open>A string field of a valid object: what it reads, and what its schema then says of it.\<close>

definition string_at :: "(string \<Rightarrow> json option) \<Rightarrow> string \<Rightarrow> string" where
  "string_at self n = (case self n of Some (JString s) \<Rightarrow> s | _ \<Rightarrow> [])"

lemma string_field_ok:
  assumes "field_ok self (Field n req d (StringS p))"
  shows "read_field dec_string [] self n = Some (string_at self n)"
    and "has self n \<Longrightarrow> p (string_at self n)"
    and "\<not> has self n \<Longrightarrow> string_at self n = []"
    and "req \<Longrightarrow> has self n"
  using assms
  by (auto simp: read_field_def dec_string_def string_at_def has_def split: option.splits json.splits)

lemma read_field_ok:
  assumes "field_ok self (Field n req d s)"
    and "\<And>j. valid s j \<Longrightarrow> \<exists>x. rd j = Some x \<and> ok x" "valid s JNull \<or> \<not> req \<Longrightarrow> ok zero"
  shows "\<exists>x. read_field rd zero self n = Some x \<and> ok x"
  using assms by (auto simp: read_field_def split: option.splits json.splits)

lemma map_of_fill_fields_None:
  "n \<notin> (\<lambda>f. case f of Field m _ _ _ \<Rightarrow> m) ` set fs \<Longrightarrow> map_of (fill_fields fs kvs) n = None"
proof (induction fs)
  case (Cons f fs)
  then show ?case by (cases f) (auto split: option.splits json.splits)
qed simp

lemma dec_elems_Some:
  "dec_elems rd js = Some xs \<longleftrightarrow> length xs = length js \<and> (\<forall>i < length js. rd (js ! i) = Some (xs ! i))"
proof (induction js arbitrary: xs)
  case (Cons j js)
  show ?case
    by (cases xs) (auto simp: Cons bind_eq_Some_conv nth_Cons split: nat.split)
qed auto

lemma dec_elems_total:
  "(\<And>j. j \<in> set js \<Longrightarrow> rd j = Some (f j)) \<Longrightarrow> dec_elems rd js = Some (map f js)"
  by (induction js) simp_all

lemma dec_elems_map: "(\<And>x. x \<in> set xs \<Longrightarrow> rd (enc x) = Some x) \<Longrightarrow> dec_elems rd (map enc xs) = Some xs"
  by (induction xs) simp_all

lemma map_of_omitzero [simp]:
  "map_of (omitzero enc zero n x @ kvs) m =
     (if m = n \<and> x \<noteq> zero then Some (enc x) else map_of kvs m)"
  by (simp add: omitzero_def map_add_def)

lemma map_of_always [simp]: "map_of (always n j @ kvs) m = (if m = n then Some j else map_of kvs m)"
  by (simp add: always_def map_add_def)

lemma map_of_omitzero_last [simp]:
  "map_of (omitzero enc zero n x) m = (if m = n \<and> x \<noteq> zero then Some (enc x) else None)"
  by (simp add: omitzero_def)

lemma map_of_always_last [simp]: "map_of (always n j) m = (if m = n then Some j else None)"
  by (simp add: always_def)

lemma valid_strings: "valid (ArrayS p (StringS q)) j \<Longrightarrow> \<exists>xs. j = enc_strings xs \<and> p (map JString xs) \<and> (\<forall>x \<in> set xs. q x)"
proof -
  assume v: "valid (ArrayS p (StringS q)) j"
  then obtain js where js: "j = JArr js" "p js" "\<forall>x \<in> set js. valid (StringS q) x" by (auto split: json.splits)
  from js(3) have "\<exists>xs. js = map JString xs \<and> (\<forall>x \<in> set xs. q x)"
  proof (induction js)
    case (Cons a js)
    then obtain xs where "js = map JString xs" "\<forall>x \<in> set xs. q x" by auto
    moreover from Cons.prems obtain s where "a = JString s" "q s" by (auto split: json.splits)
    ultimately show ?case by (intro exI [of _ "s # xs"]) simp
  qed simp
  with js show ?thesis by (auto simp: enc_strings_def)
qed

lemma dec_enc_strings [simp]: "dec_list dec_string (enc_strings xs) = Some xs"
  by (simp add: dec_list_def enc_strings_def dec_elems_map dec_string_def)

lemma set_list_strings [simp]: "set_list (map JString xs) \<longleftrightarrow> distinct xs"
  by (simp add: set_list_def distinct_map inj_on_def)

text \<open>What a filled object holds under a field of its schema.\<close>

fun field_name :: "field \<Rightarrow> string" where
  "field_name (Field n req d s) = n"

definition filled_value :: "json option \<Rightarrow> json option \<Rightarrow> schema \<Rightarrow> json option" where
  "filled_value v d s = (case (if v = Some JNull then None else v) of
     None \<Rightarrow> map_option (fill s) d | Some j \<Rightarrow> Some (fill s j))"

lemma fill_fields_Cons:
  "fill_fields (Field n req d s # fs) kvs =
     (case filled_value (map_of kvs n) d s of None \<Rightarrow> [] | Some j \<Rightarrow> [(n, j)]) @ fill_fields fs kvs"
  by (auto simp: filled_value_def split: option.split json.split)

lemma map_of_fill_fields:
  assumes "distinct (map field_name fs)" "Field n req d s \<in> set fs"
  shows "map_of (fill_fields fs kvs) n = filled_value (map_of kvs n) d s"
  using assms
proof (induction fs)
  case (Cons f fs)
  obtain m r e t where f: "f = Field m r e t" by (cases f)
  show ?case
  proof (cases "m = n")
    case True
    have "n \<notin> field_name ` set fs" using Cons.prems(1) f True by auto
    moreover have "(\<lambda>f. case f of Field m _ _ _ \<Rightarrow> m) = field_name"
      by (rule ext) (simp split: field.split)
    ultimately have "map_of (fill_fields fs kvs) n = None" using map_of_fill_fields_None [of n fs kvs] by simp
    moreover have "f = Field n req d s" using Cons.prems True f by force
    ultimately show ?thesis unfolding f fill_fields_Cons by (auto split: option.split)
  next
    case False
    then have "Field n req d s \<in> set fs" using Cons.prems f by auto
    with Cons have "map_of (fill_fields fs kvs) n = filled_value (map_of kvs n) d s" by simp
    with False show ?thesis unfolding f fill_fields_Cons by (auto split: option.split)
  qed
qed simp

lemma admit_object:
  assumes "admit (ObjectS fs rule) j = Some j'"
  shows "valid (ObjectS fs rule) j'" and "\<exists>kvs. j = JObj kvs \<and> j' = JObj (fill_fields fs kvs)"
  using assms by (auto simp: admit_def split: if_splits json.splits)

lemma filled_value_simps [simp]:
  "filled_value None d s = map_option (fill s) d" "filled_value (Some JNull) d s = map_option (fill s) d"
  "j \<noteq> JNull \<Longrightarrow> filled_value (Some j) d s = Some (fill s j)"
  by (simp_all add: filled_value_def)

lemma int_field_ok:
  assumes "field_ok self (required n (IntegerS p))" "read_field dec_int zero self n = Some w"
  shows "p (sint w)"
  using assms by (auto simp: read_field_def dec_int_def split: option.splits json.splits if_splits)

lemma optional_int_field_ok:
  assumes "field_ok self (optional n (IntegerS p))"
    and "read_field (\<lambda>j. map_option Some (dec_int j)) None self n = Some v"
  shows "v = Some w \<Longrightarrow> p (sint w)"
  using assms by (auto simp: read_field_def dec_int_def split: option.splits json.splits if_splits)

text \<open>A list of objects with a key, decoded: as many elements, each valid, the keys distinct.\<close>

lemma dec_elems_length: "dec_elems rd js = Some xs \<Longrightarrow> length xs = length js"
  by (simp add: dec_elems_Some)

lemma keyed_list_ok:
  assumes f: "field_ok self (required n (ArrayS (\<lambda>js. 1 \<le> length js \<and> map_list key js) s))"
    and r: "read_field (dec_list rd) zero self n = Some xs"
    and elem: "\<And>j x. valid s j \<Longrightarrow> rd j = Some x \<Longrightarrow> ok x \<and> json_field key j = Some (JString (nm x))"
  shows "xs \<noteq> [] \<and> distinct (map nm xs) \<and> (\<forall>x \<in> set xs. ok x)"
proof -
  obtain js where js: "self n = Some (JArr js)" "1 \<le> length js" "map_list key js" "\<forall>j \<in> set js. valid s j"
    using f by (auto split: option.splits json.splits)
  then have d: "dec_elems rd js = Some xs" using r by (simp add: read_field_def dec_list_def)
  have i: "\<forall>i < length js. ok (xs ! i) \<and> json_field key (js ! i) = Some (JString (nm (xs ! i)))"
    using d js(4) elem by (simp add: dec_elems_Some) (metis nth_mem)
  have l: "length xs = length js" by (rule dec_elems_length [OF d])
  have "map (json_field key) js = map (\<lambda>x. Some (JString (nm x))) xs"
    using i l by (simp add: list_eq_iff_nth_eq)
  then have "distinct (map (\<lambda>x. Some (JString (nm x))) xs)" using js(3) by (simp add: map_list_def)
  then have "distinct (map nm xs)"
    by (simp add: distinct_map inj_on_def)
  moreover have "xs \<noteq> []" using l js(2) by auto
  moreover have "\<forall>x \<in> set xs. ok x" using i l by (metis in_set_conv_nth)
  ultimately show ?thesis by blast
qed

lemma fill_encode_strings: "fill (ArrayS p (StringS q)) (enc_strings xs) = enc_strings xs"
  by (simp add: enc_strings_def)

lemma enc_strings_object [simp]: "enc_strings xs \<noteq> JNull"
  by (simp add: enc_strings_def)

lemma read_field_present: "self n = Some j \<Longrightarrow> j \<noteq> JNull \<Longrightarrow> read_field rd zero self n = rd j"
  by (cases j) (simp_all add: read_field_def)

lemma read_field_absent: "self n = None \<Longrightarrow> read_field rd zero self n = Some zero"
  by (simp add: read_field_def)

lemma read_strings:
  "self n = (if xs = [] then None else Some (enc_strings xs)) \<Longrightarrow>
     read_field (dec_list dec_string) [] self n = Some xs"
  by (cases "xs = []") (simp_all add: read_field_absent read_field_present)

section \<open>API types\<close>

text \<open>
  What a Go type is to the API server: its schema, its encoder and decoder, the values it accepts
  and what the defaults make of them. \<open>readable\<close> are the values whose text forms are read back.
\<close>

locale api_type =
  fixes schema :: schema
    and encode :: "'a \<Rightarrow> json"
    and decode :: "json \<Rightarrow> 'a option"
    and acceptable :: "'a \<Rightarrow> bool"
    and readable :: "'a \<Rightarrow> bool"
    and defaults :: "'a \<Rightarrow> 'a"
  assumes valid_filled: "valid schema (fill schema (encode x)) \<longleftrightarrow> acceptable x"
    and decode_filled: "readable x \<Longrightarrow> decode (fill schema (encode x)) = Some (defaults x)"
    and defaults_acceptable: "acceptable x \<Longrightarrow> acceptable (defaults x)"
    and defaults_readable: "readable x \<Longrightarrow> readable (defaults x)"
    and defaults_twice: "defaults (defaults x) = defaults x"
begin

text \<open>A value submitted and read back.\<close>

definition submit :: "'a \<Rightarrow> 'a option" where
  "submit x = Option.bind (admit schema (encode x)) decode"

lemma submit_iff: "readable x \<Longrightarrow> submit x = (if acceptable x then Some (defaults x) else None)"
  by (simp add: submit_def admit_def valid_filled decode_filled)

text \<open>What was read can be written back, and stays as it is.\<close>

lemma write_back: "readable x \<Longrightarrow> submit x = Some y \<Longrightarrow> submit y = Some y"
  using defaults_acceptable [of x] defaults_readable [of x] defaults_twice [of x]
  by (auto simp: submit_iff split: if_splits)

end

end
