(* ===== verification/Go_Regexp.thy ===== *)
theory Go_Regexp
  imports Go_Text
begin

text \<open>
  Regular expressions over bytes, as far as the validation patterns of the API types use them
  (Go's \<open>regexp\<close>, with which the API server matches): classes, sequence, choice, repetition.
  \<open>matches\<close> says what an expression stands for; \<open>full_match\<close> decides it by taking one byte off
  at a time. The patterns are all anchored at the start; an end that is not anchored is a final
  \<open>Rep anyByte\<close>. The dot of Go excludes the newline.
\<close>

section \<open>Expressions and what they match\<close>

datatype regexp =
    Never
  | Empty
  | Class "char \<Rightarrow> bool"
  | Cat regexp regexp
  | Or regexp regexp
  | Rep regexp

inductive matches :: "regexp \<Rightarrow> string \<Rightarrow> bool" where
  m_Empty: "matches Empty []"
| m_Class: "p c \<Longrightarrow> matches (Class p) [c]"
| m_Cat: "matches r s \<Longrightarrow> matches q t \<Longrightarrow> matches (Cat r q) (s @ t)"
| m_OrL: "matches r s \<Longrightarrow> matches (Or r q) s"
| m_OrR: "matches q s \<Longrightarrow> matches (Or r q) s"
| m_Rep0: "matches (Rep r) []"
| m_RepS: "matches r s \<Longrightarrow> matches (Rep r) t \<Longrightarrow> matches (Rep r) (s @ t)"

inductive_simps matches_simps [simp]:
  "matches Never s" "matches Empty s" "matches (Class p) s" "matches (Or r q) s"

inductive_simps matches_Cat_iff: "matches (Cat r q) s"
inductive_cases matches_RepE: "matches (Rep r) s"

definition anyByte :: regexp where "anyByte = Class (\<lambda>c. True)"
definition dot :: regexp where "dot = Class (\<lambda>c. byte c \<noteq> 0x0A)"
definition plus :: "regexp \<Rightarrow> regexp" where "plus r = Cat r (Rep r)"
definition opt :: "regexp \<Rightarrow> regexp" where "opt r = Or Empty r"

fun lit :: "string \<Rightarrow> regexp" where
  "lit [] = Empty"
| "lit (c # s) = Cat (Class (\<lambda>d. d = c)) (lit s)"

fun seq :: "regexp list \<Rightarrow> regexp" where
  "seq [] = Empty"
| "seq (r # rs) = Cat r (seq rs)"

definition isLower :: "char \<Rightarrow> bool" where "isLower c \<longleftrightarrow> 0x61 \<le> byte c \<and> byte c \<le> 0x7A"
definition isUpper :: "char \<Rightarrow> bool" where "isUpper c \<longleftrightarrow> 0x41 \<le> byte c \<and> byte c \<le> 0x5A"
definition isLetter :: "char \<Rightarrow> bool" where "isLetter c \<longleftrightarrow> isLower c \<or> isUpper c"
definition isAlnum :: "char \<Rightarrow> bool" where "isAlnum c \<longleftrightarrow> isLetter c \<or> isDigit c"

text \<open>The number of code points of a text in UTF-8: the bytes that do not continue one.\<close>

definition runes :: "string \<Rightarrow> nat" where
  "runes s = length (filter (\<lambda>c. \<not> cont (byte c)) s)"

section \<open>The matcher\<close>

fun nullable :: "regexp \<Rightarrow> bool" where
  "nullable Never = False"
| "nullable Empty = True"
| "nullable (Class p) = False"
| "nullable (Cat r q) = (nullable r \<and> nullable q)"
| "nullable (Or r q) = (nullable r \<or> nullable q)"
| "nullable (Rep r) = True"

text \<open>Sequence and choice that drop what matches nothing, so that remainders stay small.\<close>

fun cat :: "regexp \<Rightarrow> regexp \<Rightarrow> regexp" where
  "cat Never q = Never"
| "cat Empty q = q"
| "cat r q = Cat r q"

definition alt :: "regexp \<Rightarrow> regexp \<Rightarrow> regexp" where
  "alt r q = (case r of Never \<Rightarrow> q | _ \<Rightarrow> (case q of Never \<Rightarrow> r | _ \<Rightarrow> Or r q))"

text \<open>What is left to match after a first byte.\<close>

fun rest :: "char \<Rightarrow> regexp \<Rightarrow> regexp" where
  "rest c Never = Never"
| "rest c Empty = Never"
| "rest c (Class p) = (if p c then Empty else Never)"
| "rest c (Cat r q) = alt (cat (rest c r) q) (if nullable r then rest c q else Never)"
| "rest c (Or r q) = alt (rest c r) (rest c q)"
| "rest c (Rep r) = cat (rest c r) (Rep r)"

fun full_match :: "regexp \<Rightarrow> string \<Rightarrow> bool" where
  "full_match r [] = nullable r"
| "full_match r (c # s) = full_match (rest c r) s"

section \<open>The matcher is right\<close>

lemma nullable_iff: "nullable r \<longleftrightarrow> matches r []"
  by (induction r) (auto simp: matches_Cat_iff intro: m_Rep0)

lemma matches_cat [simp]: "matches (cat r q) s \<longleftrightarrow> matches (Cat r q) s"
  by (cases r) (simp_all add: matches_Cat_iff)

lemma matches_alt [simp]: "matches (alt r q) s \<longleftrightarrow> matches r s \<or> matches q s"
  by (simp add: alt_def split: regexp.split)

lemma matches_Rep_Cons: "matches (Rep r) (c # s) \<longleftrightarrow> (\<exists>u v. s = u @ v \<and> matches r (c # u) \<and> matches (Rep r) v)"
proof
  have "matches q t \<Longrightarrow> q = Rep r \<Longrightarrow> t = c # s \<Longrightarrow>
      \<exists>u v. s = u @ v \<and> matches r (c # u) \<and> matches (Rep r) v" for q t
    by (induction rule: matches.induct) (auto simp: append_eq_Cons_conv)
  then show "matches (Rep r) (c # s) \<Longrightarrow> \<exists>u v. s = u @ v \<and> matches r (c # u) \<and> matches (Rep r) v" by blast
next
  show "\<exists>u v. s = u @ v \<and> matches r (c # u) \<and> matches (Rep r) v \<Longrightarrow> matches (Rep r) (c # s)"
    using m_RepS [of r "c # _"] by auto
qed

lemma matches_Cat_Cons:
  "matches (Cat r q) (c # s) \<longleftrightarrow>
     (\<exists>u v. s = u @ v \<and> matches r (c # u) \<and> matches q v) \<or> (matches r [] \<and> matches q (c # s))"
  by (auto simp: matches_Cat_iff Cons_eq_append_conv)

lemma matches_rest: "matches (rest c r) s \<longleftrightarrow> matches r (c # s)"
proof (induction r arbitrary: s)
  case (Cat r q)
  then show ?case by (simp add: matches_Cat_Cons nullable_iff) (simp add: matches_Cat_iff Cat)
next
  case (Rep r)
  then show ?case by (auto simp: matches_Rep_Cons matches_Cat_iff)
qed auto

text \<open>The matcher decides what the expression stands for.\<close>

lemma full_match_iff: "full_match r s \<longleftrightarrow> matches r s"
  by (induction s arbitrary: r) (simp_all add: nullable_iff matches_rest)

section \<open>Matching the composed expressions\<close>

lemma matches_lit [simp]: "matches (lit w) s \<longleftrightarrow> s = w"
  by (induction w arbitrary: s) (auto simp: matches_Cat_iff)

lemma matches_seq_Nil [simp]: "matches (seq []) s \<longleftrightarrow> s = []"
  by simp

lemma matches_seq_Cons [simp]: "matches (seq (r # rs)) s \<longleftrightarrow> (\<exists>u v. s = u @ v \<and> matches r u \<and> matches (seq rs) v)"
  by (auto simp: matches_Cat_iff)

lemma matches_Rep_Class: "matches (Rep (Class p)) s \<longleftrightarrow> (\<forall>c \<in> set s. p c)"
  by (induction s) (auto simp: matches_Rep_Cons m_Rep0)

lemma matches_plus_Class: "matches (plus (Class p)) s \<longleftrightarrow> s \<noteq> [] \<and> (\<forall>c \<in> set s. p c)"
  by (cases s) (auto simp: plus_def matches_Cat_Cons matches_Rep_Class, simp add: matches_Cat_iff)

declare lit.simps [simp del] seq.simps [simp del]

lemma matches_opt [simp]: "matches (opt r) s \<longleftrightarrow> s = [] \<or> matches r s"
  by (simp add: opt_def)

end
