(* ===== verification/Crd_Image.thy ===== *)
theory Crd_Image
  imports Crd_Json Go_Regexp Pkrvars
begin

text \<open>
  The validation markers and JSON tags of \<open>api/v1alpha1/pvenodeimage_types.go\<close>, one schema, one
  decoder and one encoder per struct of the spec. The schemas are those that controller-gen
  writes into \<open>config/crd/bases\<close>; the API server applies them before anything is stored, so
  they are what \<open>pkrvarsFromImage\<close> can rely on. The interval is a \<open>metav1.Duration\<close>: its text
  form is the parameter \<open>dur\<close>, a reader and a writer. Metadata is not covered.
\<close>

section \<open>Schemas\<close>

definition DistributionType_schema :: schema where
  "DistributionType_schema = StringS (\<lambda>s. s = ''rke2'' \<or> s = ''k3s'')"

definition RebuildPolicyTrigger_schema :: schema where
  "RebuildPolicyTrigger_schema = StringS (\<lambda>s. s = ''OnSpecChange'' \<or> s = ''Periodic'' \<or> s = ''Manual'')"

definition url_pattern :: regexp where
  "url_pattern = seq [lit ''http'', opt (lit ''s''), lit ''://'', plus dot, Rep anyByte]"

definition isoFile_pattern :: regexp where
  "isoFile_pattern =
     seq [plus (Class (\<lambda>c. isAlnum c \<or> c = CHR ''_'' \<or> c = CHR ''-'')), lit '':iso/'', plus dot, lit ''.iso'']"

definition BaseImage_schema :: schema where
  "BaseImage_schema = ObjectS
     [optional ''url'' (StringS (full_match url_pattern)),
      optional ''checksum'' (StringS (\<lambda>s. True)),
      optional ''isoFile'' (StringS (full_match isoFile_pattern))]
     (\<lambda>self. (has self ''url'' \<and> has self ''checksum'' \<and> \<not> has self ''isoFile'') \<or>
             (\<not> has self ''url'' \<and> \<not> has self ''checksum'' \<and> has self ''isoFile''))"

definition version_pattern :: regexp where
  "version_pattern = seq [lit ''v'', plus (Class isDigit), lit ''.'', plus (Class isDigit), lit ''.'',
     plus (Class isDigit), Rep dot]"

definition Distribution_schema :: schema where
  "Distribution_schema = ObjectS
     [required ''type'' DistributionType_schema,
      required ''version'' (StringS (full_match version_pattern))] (\<lambda>self. True)"

definition BuildConfig_schema :: schema where
  "BuildConfig_schema = ObjectS
     [required ''node'' (StringS (\<lambda>s. True)), required ''storagePool'' (StringS (\<lambda>s. True)),
      optional ''isoStoragePool'' (StringS (\<lambda>s. True)), required ''bridge'' (StringS (\<lambda>s. True))]
     (\<lambda>self. True)"

definition RebuildPolicy_schema :: schema where
  "RebuildPolicy_schema = ObjectS
     [defaulted ''trigger'' (JString ''OnSpecChange'') RebuildPolicyTrigger_schema,
      optional ''interval'' (StringS (\<lambda>s. True))] (\<lambda>self. True)"

definition PVENodeImageSpec_schema :: schema where
  "PVENodeImageSpec_schema = ObjectS
     [required ''baseImage'' BaseImage_schema,
      required ''distribution'' Distribution_schema,
      optional ''packages'' (ArrayS set_list (StringS (\<lambda>s. True))),
      optional ''sshAuthorizedKeys'' (ArrayS set_list (StringS (\<lambda>s. True))),
      defaulted ''timezone'' (JString ''UTC'') (StringS (\<lambda>s. True)),
      required ''buildConfig'' BuildConfig_schema,
      optional ''rebuildPolicy'' RebuildPolicy_schema] (\<lambda>self. True)"

section \<open>Decoding\<close>

record duration_text =
  du_Parse :: "string \<Rightarrow> int64 option"
  du_String :: "int64 \<Rightarrow> string"

definition decode_BaseImage :: "(string \<Rightarrow> json option) \<Rightarrow> BaseImage option" where
  "decode_BaseImage self = do {
     url \<leftarrow> read_field dec_string [] self ''url'';
     checksum \<leftarrow> read_field dec_string [] self ''checksum'';
     isoFile \<leftarrow> read_field dec_string [] self ''isoFile'';
     Some \<lparr>bi_URL = url, bi_Checksum = checksum, bi_ISOFile = isoFile\<rparr> }"

definition decode_Distribution :: "(string \<Rightarrow> json option) \<Rightarrow> Distribution option" where
  "decode_Distribution self = do {
     ty \<leftarrow> read_field dec_string [] self ''type'';
     version \<leftarrow> read_field dec_string [] self ''version'';
     Some \<lparr>di_Type = ty, di_Version = version\<rparr> }"

definition decode_BuildConfig :: "(string \<Rightarrow> json option) \<Rightarrow> BuildConfig option" where
  "decode_BuildConfig self = do {
     node \<leftarrow> read_field dec_string [] self ''node'';
     storagePool \<leftarrow> read_field dec_string [] self ''storagePool'';
     isoStoragePool \<leftarrow> read_field dec_string [] self ''isoStoragePool'';
     bridge \<leftarrow> read_field dec_string [] self ''bridge'';
     Some \<lparr>bc_Node = node, bc_StoragePool = storagePool, bc_ISOStoragePool = isoStoragePool,
           bc_Bridge = bridge\<rparr> }"

definition dec_duration :: "duration_text \<Rightarrow> json \<Rightarrow> int64 option option" where
  "dec_duration dur j = do { s \<leftarrow> dec_string j; d \<leftarrow> du_Parse dur s; Some (Some d) }"

definition decode_RebuildPolicy :: "duration_text \<Rightarrow> (string \<Rightarrow> json option) \<Rightarrow> RebuildPolicy option" where
  "decode_RebuildPolicy dur self = do {
     trigger \<leftarrow> read_field dec_string [] self ''trigger'';
     interval \<leftarrow> read_field (dec_duration dur) None self ''interval'';
     Some \<lparr>rp_Trigger = trigger, rp_Interval = interval\<rparr> }"

definition zeroBaseImage :: BaseImage where
  "zeroBaseImage = \<lparr>bi_URL = [], bi_Checksum = [], bi_ISOFile = []\<rparr>"
definition zeroDistribution :: Distribution where
  "zeroDistribution = \<lparr>di_Type = [], di_Version = []\<rparr>"
definition zeroBuildConfig :: BuildConfig where
  "zeroBuildConfig = \<lparr>bc_Node = [], bc_StoragePool = [], bc_ISOStoragePool = [], bc_Bridge = []\<rparr>"
definition zeroRebuildPolicy :: RebuildPolicy where
  "zeroRebuildPolicy = \<lparr>rp_Trigger = [], rp_Interval = None\<rparr>"

definition decode_PVENodeImageSpec :: "duration_text \<Rightarrow> (string \<Rightarrow> json option) \<Rightarrow> PVENodeImageSpec option" where
  "decode_PVENodeImageSpec dur self = do {
     baseImage \<leftarrow> read_field (dec_object decode_BaseImage) zeroBaseImage self ''baseImage'';
     distribution \<leftarrow> read_field (dec_object decode_Distribution) zeroDistribution self ''distribution'';
     packages \<leftarrow> read_field (dec_list dec_string) [] self ''packages'';
     sshAuthorizedKeys \<leftarrow> read_field (dec_list dec_string) [] self ''sshAuthorizedKeys'';
     timezone \<leftarrow> read_field dec_string [] self ''timezone'';
     buildConfig \<leftarrow> read_field (dec_object decode_BuildConfig) zeroBuildConfig self ''buildConfig'';
     rebuildPolicy \<leftarrow> read_field (dec_object (decode_RebuildPolicy dur)) zeroRebuildPolicy self ''rebuildPolicy'';
     Some \<lparr>is_BaseImage = baseImage, is_Distribution = distribution, is_Packages = packages,
           is_SSHAuthorizedKeys = sshAuthorizedKeys, is_Timezone = timezone,
           is_BuildConfig = buildConfig, is_RebuildPolicy = rebuildPolicy\<rparr> }"

section \<open>Encoding\<close>

definition encode_BaseImage :: "BaseImage \<Rightarrow> json" where
  "encode_BaseImage b = JObj (omitzero JString [] ''url'' (bi_URL b) @
     omitzero JString [] ''checksum'' (bi_Checksum b) @ omitzero JString [] ''isoFile'' (bi_ISOFile b))"

definition encode_Distribution :: "Distribution \<Rightarrow> json" where
  "encode_Distribution d = JObj (always ''type'' (JString (di_Type d)) @
     always ''version'' (JString (di_Version d)))"

definition encode_BuildConfig :: "BuildConfig \<Rightarrow> json" where
  "encode_BuildConfig c = JObj (always ''node'' (JString (bc_Node c)) @
     always ''storagePool'' (JString (bc_StoragePool c)) @
     omitzero JString [] ''isoStoragePool'' (bc_ISOStoragePool c) @
     always ''bridge'' (JString (bc_Bridge c)))"

definition enc_duration :: "duration_text \<Rightarrow> int64 option \<Rightarrow> json" where
  "enc_duration dur i = (case i of None \<Rightarrow> JNull | Some d \<Rightarrow> JString (du_String dur d))"

definition encode_RebuildPolicy :: "duration_text \<Rightarrow> RebuildPolicy \<Rightarrow> json" where
  "encode_RebuildPolicy dur p = JObj (omitzero JString [] ''trigger'' (rp_Trigger p) @
     omitzero (enc_duration dur) None ''interval'' (rp_Interval p))"

definition encode_PVENodeImageSpec :: "duration_text \<Rightarrow> PVENodeImageSpec \<Rightarrow> json" where
  "encode_PVENodeImageSpec dur s = JObj (
     always ''baseImage'' (encode_BaseImage (is_BaseImage s)) @
     always ''distribution'' (encode_Distribution (is_Distribution s)) @
     omitzero enc_strings [] ''packages'' (is_Packages s) @
     omitzero enc_strings [] ''sshAuthorizedKeys'' (is_SSHAuthorizedKeys s) @
     omitzero JString [] ''timezone'' (is_Timezone s) @
     always ''buildConfig'' (encode_BuildConfig (is_BuildConfig s)) @
     omitzero (encode_RebuildPolicy dur) zeroRebuildPolicy ''rebuildPolicy'' (is_RebuildPolicy s))"

section \<open>What the schema says of the decoded spec\<close>

definition BaseImage_ok :: "BaseImage \<Rightarrow> bool" where
  "BaseImage_ok b \<longleftrightarrow>
     (matches url_pattern (bi_URL b) \<and> bi_ISOFile b = []) \<or>
     (bi_URL b = [] \<and> bi_Checksum b = [] \<and> matches isoFile_pattern (bi_ISOFile b))"

definition Distribution_ok :: "Distribution \<Rightarrow> bool" where
  "Distribution_ok d \<longleftrightarrow> di_Type d \<in> {DistributionRKE2, DistributionK3s} \<and> matches version_pattern (di_Version d)"

definition RebuildPolicy_ok :: "RebuildPolicy \<Rightarrow> bool" where
  "RebuildPolicy_ok p \<longleftrightarrow> p = zeroRebuildPolicy \<or>
     rp_Trigger p \<in> {RebuildOnSpecChange, RebuildPeriodic, RebuildManual}"

definition PVENodeImageSpec_ok :: "PVENodeImageSpec \<Rightarrow> bool" where
  "PVENodeImageSpec_ok s \<longleftrightarrow> BaseImage_ok (is_BaseImage s) \<and> Distribution_ok (is_Distribution s) \<and>
     distinct (is_Packages s) \<and> distinct (is_SSHAuthorizedKeys s) \<and> RebuildPolicy_ok (is_RebuildPolicy s)"

lemmas spec_schema_defs = DistributionType_schema_def RebuildPolicyTrigger_schema_def BaseImage_schema_def
  Distribution_schema_def BuildConfig_schema_def RebuildPolicy_schema_def PVENodeImageSpec_schema_def

lemmas spec_decode_defs = decode_BaseImage_def decode_Distribution_def decode_BuildConfig_def
  decode_RebuildPolicy_def decode_PVENodeImageSpec_def

lemmas spec_encode_defs = encode_BaseImage_def encode_Distribution_def encode_BuildConfig_def
  encode_RebuildPolicy_def encode_PVENodeImageSpec_def

section \<open>Valid values decode\<close>

lemma valid_BaseImage:
  assumes "valid BaseImage_schema j"
  shows "\<exists>b. dec_object decode_BaseImage j = Some b \<and> BaseImage_ok b"
proof -
  obtain kvs where j: "j = JObj kvs"
    and u: "field_ok (map_of kvs) (optional ''url'' (StringS (full_match url_pattern)))"
    and c: "field_ok (map_of kvs) (optional ''checksum'' (StringS (\<lambda>s. True)))"
    and i: "field_ok (map_of kvs) (optional ''isoFile'' (StringS (full_match isoFile_pattern)))"
    and r: "(has (map_of kvs) ''url'' \<and> has (map_of kvs) ''checksum'' \<and> \<not> has (map_of kvs) ''isoFile'') \<or>
       (\<not> has (map_of kvs) ''url'' \<and> \<not> has (map_of kvs) ''checksum'' \<and> has (map_of kvs) ''isoFile'')"
    using assms unfolding BaseImage_schema_def valid_object_iff by force
  show ?thesis
    using r string_field_ok [OF u] string_field_ok [OF c] string_field_ok [OF i]
    by (auto simp: j dec_object_def decode_BaseImage_def BaseImage_ok_def full_match_iff)
qed

lemma valid_Distribution:
  assumes "valid Distribution_schema j"
  shows "\<exists>d. dec_object decode_Distribution j = Some d \<and> Distribution_ok d"
proof -
  obtain kvs where j: "j = JObj kvs"
    and t: "field_ok (map_of kvs) (required ''type'' (StringS (\<lambda>s. s = ''rke2'' \<or> s = ''k3s'')))"
    and v: "field_ok (map_of kvs) (required ''version'' (StringS (full_match version_pattern)))"
    using assms unfolding Distribution_schema_def DistributionType_schema_def valid_object_iff by force
  show ?thesis
    using string_field_ok [OF t] string_field_ok [OF v]
    by (auto simp: j dec_object_def decode_Distribution_def Distribution_ok_def full_match_iff
        DistributionRKE2_def DistributionK3s_def)
qed

lemma valid_BuildConfig:
  assumes "valid BuildConfig_schema j"
  shows "\<exists>c. dec_object decode_BuildConfig j = Some c"
proof -
  obtain kvs where j: "j = JObj kvs"
    and f: "\<And>n. n \<in> {''node'', ''storagePool'', ''bridge''} \<Longrightarrow> field_ok (map_of kvs) (required n (StringS (\<lambda>s. True)))"
      "field_ok (map_of kvs) (optional ''isoStoragePool'' (StringS (\<lambda>s. True)))"
    using assms unfolding BuildConfig_schema_def valid_object_iff by force
  show ?thesis
    using string_field_ok(1) [OF f(1), of "''node''"] string_field_ok(1) [OF f(1), of "''storagePool''"]
      string_field_ok(1) [OF f(1), of "''bridge''"] string_field_ok(1) [OF f(2)]
    by (simp add: j dec_object_def decode_BuildConfig_def)
qed

text \<open>A rebuild policy as it is stored has a trigger; it decodes unless its interval does not.\<close>

definition unreadable_interval :: "duration_text \<Rightarrow> json \<Rightarrow> bool" where
  "unreadable_interval dur p \<longleftrightarrow> (\<exists>s. json_field ''interval'' p = Some (JString s) \<and> du_Parse dur s = None)"

lemma valid_RebuildPolicy:
  assumes v: "valid RebuildPolicy_schema j" and f: "j = fill RebuildPolicy_schema j0"
  shows "if unreadable_interval dur j then dec_object (decode_RebuildPolicy dur) j = None
    else \<exists>p. dec_object (decode_RebuildPolicy dur) j = Some p \<and> RebuildPolicy_ok p"
proof -
  obtain kvs where j: "j = JObj kvs"
    and t: "field_ok (map_of kvs) (defaulted ''trigger'' (JString ''OnSpecChange'')
              (StringS (\<lambda>s. s = ''OnSpecChange'' \<or> s = ''Periodic'' \<or> s = ''Manual'')))"
    and i: "field_ok (map_of kvs) (optional ''interval'' (StringS (\<lambda>s. True)))"
    using v unfolding RebuildPolicy_schema_def RebuildPolicyTrigger_schema_def valid_object_iff by force
  obtain kvs0 where k: "kvs = fill_fields [defaulted ''trigger'' (JString ''OnSpecChange'') RebuildPolicyTrigger_schema,
      optional ''interval'' (StringS (\<lambda>s. True))] kvs0"
    using f unfolding j RebuildPolicy_schema_def by (auto split: json.splits)
  have "map_of kvs ''trigger'' = filled_value (map_of kvs0 ''trigger'') (Some (JString ''OnSpecChange'')) RebuildPolicyTrigger_schema"
    unfolding k by (rule map_of_fill_fields [where req = False]) simp_all
  then have "has (map_of kvs) ''trigger''"
    by (simp add: has_def filled_value_def split: option.split json.split)
  then show ?thesis
    using string_field_ok [OF t] i
    by (auto simp: j dec_object_def decode_RebuildPolicy_def RebuildPolicy_ok_def unreadable_interval_def
        json_field_def read_field_def dec_duration_def dec_string_def bind_eq_None_conv
        RebuildOnSpecChange_def RebuildPeriodic_def RebuildManual_def
        split: option.splits json.splits)
qed

lemma valid_names:
  assumes "field_ok self (optional n (ArrayS set_list (StringS (\<lambda>s. True))))"
  shows "\<exists>xs. read_field (dec_list dec_string) [] self n = Some xs \<and> distinct xs"
proof (rule read_field_ok [OF assms])
  fix j
  assume "valid (ArrayS set_list (StringS (\<lambda>s. True))) j"
  from valid_strings [OF this] show "\<exists>xs. dec_list dec_string j = Some xs \<and> distinct xs" by auto
qed simp

lemma admitted_policy:
  assumes "admit PVENodeImageSpec_schema j = Some (JObj kvs)" "map_of kvs ''rebuildPolicy'' = Some p"
  shows "valid RebuildPolicy_schema p \<and> (\<exists>p0. p = fill RebuildPolicy_schema p0)"
proof
  note a = admit_object [OF assms(1) [unfolded PVENodeImageSpec_schema_def]]
  have "field_ok (map_of kvs) (optional ''rebuildPolicy'' RebuildPolicy_schema)"
    using a(1) unfolding valid_object_iff by auto
  then show "valid RebuildPolicy_schema p" using assms(2) by simp
  from a(2) obtain kvs0 where "kvs = fill_fields
     [required ''baseImage'' BaseImage_schema, required ''distribution'' Distribution_schema,
      optional ''packages'' (ArrayS set_list (StringS (\<lambda>s. True))),
      optional ''sshAuthorizedKeys'' (ArrayS set_list (StringS (\<lambda>s. True))),
      defaulted ''timezone'' (JString ''UTC'') (StringS (\<lambda>s. True)),
      required ''buildConfig'' BuildConfig_schema, optional ''rebuildPolicy'' RebuildPolicy_schema] kvs0" by blast
  then have "map_of kvs ''rebuildPolicy'' = filled_value (map_of kvs0 ''rebuildPolicy'') None RebuildPolicy_schema"
    by (simp only:) (rule map_of_fill_fields [where req = False], simp_all)
  then show "\<exists>p0. p = fill RebuildPolicy_schema p0"
    using assms(2) by (auto simp: filled_value_def split: option.splits)
qed

lemma admitted_parts:
  assumes "admit PVENodeImageSpec_schema j = Some (JObj kvs)"
  obtains b d c pk ks tz where
    "read_field (dec_object decode_BaseImage) zeroBaseImage (map_of kvs) ''baseImage'' = Some b" "BaseImage_ok b"
    "read_field (dec_object decode_Distribution) zeroDistribution (map_of kvs) ''distribution'' = Some d" "Distribution_ok d"
    "read_field (dec_list dec_string) [] (map_of kvs) ''packages'' = Some pk" "distinct pk"
    "read_field (dec_list dec_string) [] (map_of kvs) ''sshAuthorizedKeys'' = Some ks" "distinct ks"
    "read_field dec_string [] (map_of kvs) ''timezone'' = Some tz"
    "read_field (dec_object decode_BuildConfig) zeroBuildConfig (map_of kvs) ''buildConfig'' = Some c"
proof -
  have v: "valid PVENodeImageSpec_schema (JObj kvs)"
    using assms by (auto simp: admit_def split: if_splits)
  have f: "field_ok (map_of kvs) (required ''baseImage'' BaseImage_schema)"
    "field_ok (map_of kvs) (required ''distribution'' Distribution_schema)"
    "field_ok (map_of kvs) (optional ''packages'' (ArrayS set_list (StringS (\<lambda>s. True))))"
    "field_ok (map_of kvs) (optional ''sshAuthorizedKeys'' (ArrayS set_list (StringS (\<lambda>s. True))))"
    "field_ok (map_of kvs) (defaulted ''timezone'' (JString ''UTC'') (StringS (\<lambda>s. True)))"
    "field_ok (map_of kvs) (required ''buildConfig'' BuildConfig_schema)"
    using v unfolding PVENodeImageSpec_schema_def valid_object_iff by auto
  have n: "\<not> valid BaseImage_schema JNull" "\<not> valid Distribution_schema JNull" "\<not> valid BuildConfig_schema JNull"
    by (simp_all add: BaseImage_schema_def Distribution_schema_def BuildConfig_schema_def)
  have "\<exists>b. read_field (dec_object decode_BaseImage) zeroBaseImage (map_of kvs) ''baseImage'' = Some b \<and> BaseImage_ok b"
    by (rule read_field_ok [OF f(1) valid_BaseImage]) (simp_all add: n)
  moreover have "\<exists>d. read_field (dec_object decode_Distribution) zeroDistribution (map_of kvs) ''distribution'' = Some d \<and> Distribution_ok d"
    by (rule read_field_ok [OF f(2) valid_Distribution]) (simp_all add: n)
  moreover have "\<exists>c. read_field (dec_object decode_BuildConfig) zeroBuildConfig (map_of kvs) ''buildConfig'' = Some c \<and> True"
    by (rule read_field_ok [OF f(6)]) (simp_all add: n valid_BuildConfig)
  ultimately show ?thesis
    using that valid_names [OF f(3)] valid_names [OF f(4)] string_field_ok(1) [OF f(5)] by blast
qed

section \<open>Stored specs\<close>

lemma decode_spec_parts:
  assumes "read_field (dec_object decode_BaseImage) zeroBaseImage self ''baseImage'' = Some b"
    "read_field (dec_object decode_Distribution) zeroDistribution self ''distribution'' = Some d"
    "read_field (dec_list dec_string) [] self ''packages'' = Some pk"
    "read_field (dec_list dec_string) [] self ''sshAuthorizedKeys'' = Some ks"
    "read_field dec_string [] self ''timezone'' = Some tz"
    "read_field (dec_object decode_BuildConfig) zeroBuildConfig self ''buildConfig'' = Some c"
  shows "decode_PVENodeImageSpec dur self =
     map_option (\<lambda>p. \<lparr>is_BaseImage = b, is_Distribution = d, is_Packages = pk, is_SSHAuthorizedKeys = ks,
         is_Timezone = tz, is_BuildConfig = c, is_RebuildPolicy = p\<rparr>)
       (read_field (dec_object (decode_RebuildPolicy dur)) zeroRebuildPolicy self ''rebuildPolicy'')"
  unfolding decode_PVENodeImageSpec_def assms by (simp add: map_conv_bind_option comp_def)

lemma admitted_decodes:
  assumes adm: "admit PVENodeImageSpec_schema j = Some j'"
  shows "if \<exists>p. json_field ''rebuildPolicy'' j' = Some p \<and> unreadable_interval dur p
     then dec_object (decode_PVENodeImageSpec dur) j' = None
     else \<exists>spec. dec_object (decode_PVENodeImageSpec dur) j' = Some spec \<and> PVENodeImageSpec_ok spec"
proof -
  obtain kvs where j': "j' = JObj kvs"
    using admit_object(2) [OF adm [unfolded PVENodeImageSpec_schema_def]] by blast
  note a = adm [unfolded j']
  obtain b d c pk ks tz where
    p: "read_field (dec_object decode_BaseImage) zeroBaseImage (map_of kvs) ''baseImage'' = Some b"
    "read_field (dec_object decode_Distribution) zeroDistribution (map_of kvs) ''distribution'' = Some d"
    "read_field (dec_list dec_string) [] (map_of kvs) ''packages'' = Some pk"
    "read_field (dec_list dec_string) [] (map_of kvs) ''sshAuthorizedKeys'' = Some ks"
    "read_field dec_string [] (map_of kvs) ''timezone'' = Some tz"
    "read_field (dec_object decode_BuildConfig) zeroBuildConfig (map_of kvs) ''buildConfig'' = Some c"
    and ok: "BaseImage_ok b" "Distribution_ok d" "distinct pk" "distinct ks"
    using admitted_parts [OF a] by metis
  let ?policy = "read_field (dec_object (decode_RebuildPolicy dur)) zeroRebuildPolicy (map_of kvs) ''rebuildPolicy''"
  have "if \<exists>p. map_of kvs ''rebuildPolicy'' = Some p \<and> unreadable_interval dur p then ?policy = None
      else \<exists>p. ?policy = Some p \<and> RebuildPolicy_ok p"
  proof (cases "map_of kvs ''rebuildPolicy''")
    case None
    then show ?thesis by (simp add: read_field_def RebuildPolicy_ok_def)
  next
    case (Some q)
    obtain q0 where q: "valid RebuildPolicy_schema q" "q = fill RebuildPolicy_schema q0"
      using admitted_policy [OF a Some] by blast
    then have "?policy = dec_object (decode_RebuildPolicy dur) q"
      using Some by (auto simp: read_field_def RebuildPolicy_schema_def split: json.split)
    with valid_RebuildPolicy [OF q, of dur] Some show ?thesis by simp
  qed
  then show ?thesis
    using ok by (auto simp: j' dec_object_def json_field_def decode_spec_parts [OF p] PVENodeImageSpec_ok_def
        split: if_splits)
qed

text \<open>
  Claim C4. Every spec that the API server stores is well typed for the controller: it decodes to a
  spec with exactly one source of the base image (an HTTP location, or an ISO file in Proxmox
  storage), a known distribution and trigger, a version of the documented form and no package or
  key twice. The one exception is an interval that is no duration: the schema accepts any
  string there, and the object then cannot be decoded at all.
\<close>

theorem admitted_spec_decodes:
  assumes "admit PVENodeImageSpec_schema j = Some j'"
  shows "if \<exists>p. json_field ''rebuildPolicy'' j' = Some p \<and> unreadable_interval dur p
     then dec_object (decode_PVENodeImageSpec dur) j' = None
     else \<exists>spec. dec_object (decode_PVENodeImageSpec dur) j' = Some spec \<and> PVENodeImageSpec_ok spec"
  by (rule admitted_decodes [OF assms])

text \<open>A stored spec as a user writes it, and the duration reader that accepts nothing.\<close>

definition sampleSpecJson :: "string \<Rightarrow> string \<Rightarrow> (string \<times> json) list \<Rightarrow> json" where
  "sampleSpecJson url checksum policy = JObj [
     (''baseImage'', JObj [(''url'', JString url), (''checksum'', JString checksum)]),
     (''distribution'', JObj [(''type'', JString ''k3s''), (''version'', JString ''v1.33.4+k3s1'')]),
     (''buildConfig'', JObj [(''node'', JString ''pve-01''), (''storagePool'', JString ''local-lvm''),
        (''bridge'', JString ''vmbr0'')]),
     (''rebuildPolicy'', JObj policy)]"

definition noDurations :: duration_text where
  "noDurations = \<lparr>du_Parse = (\<lambda>s. None), du_String = (\<lambda>d. [])\<rparr>"

lemma sample_admitted:
  "admit PVENodeImageSpec_schema (sampleSpecJson ''https://x.org/u.iso'' [] []) \<noteq> None"
  "json_field ''rebuildPolicy'' (the (admit PVENodeImageSpec_schema (sampleSpecJson ''https://x.org/u.iso'' [] []))) =
     Some (JObj [(''trigger'', JString ''OnSpecChange'')])"
  by code_simp+

theorem admitted_spec_decodes_witness:
  "\<exists>j'. admit PVENodeImageSpec_schema (sampleSpecJson ''https://x.org/u.iso'' [] []) = Some j' \<and>
     (\<exists>spec. dec_object (decode_PVENodeImageSpec noDurations) j' = Some spec \<and> PVENodeImageSpec_ok spec)"
proof -
  obtain j' where j': "admit PVENodeImageSpec_schema (sampleSpecJson ''https://x.org/u.iso'' [] []) = Some j'"
    using sample_admitted(1) by blast
  have "\<not> (\<exists>p. json_field ''rebuildPolicy'' j' = Some p \<and> unreadable_interval noDurations p)"
    using sample_admitted(2) j' by (simp add: unreadable_interval_def json_field_def)
  then show ?thesis using admitted_spec_decodes [OF j', of noDurations] j' by simp
qed

section \<open>Submitting a spec\<close>

declare map_of_append [simp del]

text \<open>The specs that the schema accepts in their encoding, and what the defaults make of them.\<close>

definition with_defaults :: "PVENodeImageSpec \<Rightarrow> PVENodeImageSpec" where
  "with_defaults s = s\<lparr>
     is_Timezone := (if is_Timezone s = [] then ''UTC'' else is_Timezone s),
     is_RebuildPolicy := (if is_RebuildPolicy s = zeroRebuildPolicy \<or> rp_Trigger (is_RebuildPolicy s) \<noteq> []
        then is_RebuildPolicy s else (is_RebuildPolicy s)\<lparr>rp_Trigger := RebuildOnSpecChange\<rparr>)\<rparr>"

definition spec_acceptable :: "PVENodeImageSpec \<Rightarrow> bool" where
  "spec_acceptable s \<longleftrightarrow> PVENodeImageSpec_ok (with_defaults s) \<and>
     (bi_URL (is_BaseImage s) \<noteq> [] \<longrightarrow> bi_Checksum (is_BaseImage s) \<noteq> [])"

lemma matches_url_nonempty: "matches url_pattern s \<Longrightarrow> s \<noteq> []"
  by (auto simp: url_pattern_def)

lemma matches_isoFile_nonempty: "matches isoFile_pattern s \<Longrightarrow> s \<noteq> []"
  by (auto simp: isoFile_pattern_def)

lemma valid_encode_BaseImage:
  "valid BaseImage_schema (encode_BaseImage b) \<longleftrightarrow>
     BaseImage_ok b \<and> (bi_URL b \<noteq> [] \<longrightarrow> bi_Checksum b \<noteq> [])"
  by (auto simp: BaseImage_schema_def encode_BaseImage_def BaseImage_ok_def has_def full_match_iff
      dest: matches_url_nonempty matches_isoFile_nonempty split: option.split)

lemma valid_encode_Distribution: "valid Distribution_schema (encode_Distribution d) \<longleftrightarrow> Distribution_ok d"
  by (auto simp: Distribution_schema_def DistributionType_schema_def encode_Distribution_def
      Distribution_ok_def full_match_iff DistributionRKE2_def DistributionK3s_def)

lemma valid_encode_BuildConfig: "valid BuildConfig_schema (encode_BuildConfig c)"
  by (simp add: BuildConfig_schema_def encode_BuildConfig_def split: option.split)

lemma valid_encode_RebuildPolicy:
  "valid RebuildPolicy_schema (encode_RebuildPolicy dur p) \<longleftrightarrow>
     rp_Trigger p = [] \<or> rp_Trigger p \<in> {RebuildOnSpecChange, RebuildPeriodic, RebuildManual}"
  by (auto simp: RebuildPolicy_schema_def RebuildPolicyTrigger_schema_def encode_RebuildPolicy_def
      enc_duration_def RebuildOnSpecChange_def RebuildPeriodic_def RebuildManual_def split: option.split)

declare fill_fields.simps(2) [simp del]

lemma fill_encode:
  "fill BaseImage_schema (encode_BaseImage b) = encode_BaseImage b"
  "fill Distribution_schema (encode_Distribution d) = encode_Distribution d"
  "fill BuildConfig_schema (encode_BuildConfig c) = encode_BuildConfig c"
  "fill RebuildPolicy_schema (encode_RebuildPolicy dur p) =
     encode_RebuildPolicy dur (if rp_Trigger p = [] then p\<lparr>rp_Trigger := RebuildOnSpecChange\<rparr> else p)"
     apply (cases "bi_URL b = []"; cases "bi_Checksum b = []"; cases "bi_ISOFile b = []";
       simp add: spec_schema_defs spec_encode_defs omitzero_def fill_fields_Cons)
    apply (simp add: spec_schema_defs spec_encode_defs always_def fill_fields_Cons)
   apply (cases "bc_ISOStoragePool c = []";
       simp add: spec_schema_defs spec_encode_defs omitzero_def always_def fill_fields_Cons)
  apply (cases "rp_Trigger p = []"; cases "rp_Interval p";
      simp add: spec_schema_defs spec_encode_defs omitzero_def enc_duration_def fill_fields_Cons
        RebuildOnSpecChange_def)
  done

declare fill.simps(4) [simp del]

lemma encode_object [simp]:
  "encode_BaseImage b \<noteq> JNull" "encode_Distribution d \<noteq> JNull" "encode_BuildConfig c \<noteq> JNull"
  "encode_RebuildPolicy dur p \<noteq> JNull"
  by (simp_all add: spec_encode_defs)

lemma fill_encode_spec:
  "fill PVENodeImageSpec_schema (encode_PVENodeImageSpec dur s) = encode_PVENodeImageSpec dur (with_defaults s)"
proof -
  have tr: "p\<lparr>rp_Trigger := RebuildOnSpecChange\<rparr> \<noteq> zeroRebuildPolicy" for p
    by (cases p) (simp add: zeroRebuildPolicy_def RebuildOnSpecChange_def)
  define kvs where "kvs = always ''baseImage'' (encode_BaseImage (is_BaseImage s)) @
     always ''distribution'' (encode_Distribution (is_Distribution s)) @
     omitzero enc_strings [] ''packages'' (is_Packages s) @
     omitzero enc_strings [] ''sshAuthorizedKeys'' (is_SSHAuthorizedKeys s) @
     omitzero JString [] ''timezone'' (is_Timezone s) @
     always ''buildConfig'' (encode_BuildConfig (is_BuildConfig s)) @
     omitzero (encode_RebuildPolicy dur) zeroRebuildPolicy ''rebuildPolicy'' (is_RebuildPolicy s)"
  have m: "map_of kvs ''baseImage'' = Some (encode_BaseImage (is_BaseImage s))"
    "map_of kvs ''distribution'' = Some (encode_Distribution (is_Distribution s))"
    "map_of kvs ''packages'' = (if is_Packages s = [] then None else Some (enc_strings (is_Packages s)))"
    "map_of kvs ''sshAuthorizedKeys'' =
       (if is_SSHAuthorizedKeys s = [] then None else Some (enc_strings (is_SSHAuthorizedKeys s)))"
    "map_of kvs ''timezone'' = (if is_Timezone s = [] then None else Some (JString (is_Timezone s)))"
    "map_of kvs ''buildConfig'' = Some (encode_BuildConfig (is_BuildConfig s))"
    "map_of kvs ''rebuildPolicy'' = (if is_RebuildPolicy s = zeroRebuildPolicy then None
       else Some (encode_RebuildPolicy dur (is_RebuildPolicy s)))"
    unfolding kvs_def by simp_all
  have "fill PVENodeImageSpec_schema (JObj kvs) = encode_PVENodeImageSpec dur (with_defaults s)"
    unfolding PVENodeImageSpec_schema_def encode_PVENodeImageSpec_def
    by (simp add: fill_fields_Cons m fill_encode fill_encode_strings with_defaults_def)
       (simp add: omitzero_def always_def tr)
  then show ?thesis by (simp add: kvs_def encode_PVENodeImageSpec_def)
qed

lemma valid_encode_spec:
  "valid PVENodeImageSpec_schema (encode_PVENodeImageSpec dur (with_defaults s)) \<longleftrightarrow> spec_acceptable s"
  by (auto simp: PVENodeImageSpec_schema_def encode_PVENodeImageSpec_def spec_acceptable_def
      PVENodeImageSpec_ok_def valid_encode_BaseImage valid_encode_Distribution valid_encode_BuildConfig
      valid_encode_RebuildPolicy RebuildPolicy_ok_def with_defaults_def enc_strings_def split: option.split)

lemma read_field_string [simp]:
  "read_field dec_string [] self n =
     (case self n of None \<Rightarrow> Some [] | Some JNull \<Rightarrow> Some [] | Some (JString s) \<Rightarrow> Some s | _ \<Rightarrow> None)"
  by (auto simp: read_field_def dec_string_def split: option.split json.split)

text \<open>A duration is read back as it was written.\<close>

definition duration_stable :: "duration_text \<Rightarrow> PVENodeImageSpec \<Rightarrow> bool" where
  "duration_stable dur s \<longleftrightarrow> (case rp_Interval (is_RebuildPolicy s) of None \<Rightarrow> True
     | Some d \<Rightarrow> du_Parse dur (du_String dur d) = Some d)"

lemma decode_encode_parts:
  "dec_object decode_BaseImage (encode_BaseImage b) = Some b"
  "dec_object decode_Distribution (encode_Distribution d) = Some d"
  "dec_object decode_BuildConfig (encode_BuildConfig c) = Some c"
  by (simp_all add: dec_object_def spec_decode_defs spec_encode_defs)

lemma decode_encode_policy:
  assumes "case rp_Interval p of None \<Rightarrow> True | Some d \<Rightarrow> du_Parse dur (du_String dur d) = Some d"
  shows "dec_object (decode_RebuildPolicy dur) (encode_RebuildPolicy dur p) = Some p"
  using assms
  by (cases "rp_Interval p") (simp_all add: dec_object_def decode_RebuildPolicy_def encode_RebuildPolicy_def
      read_field_def [of "dec_duration dur"] enc_duration_def dec_duration_def dec_string_def)

lemma decode_encode_spec:
  assumes "duration_stable dur s"
  shows "dec_object (decode_PVENodeImageSpec dur) (encode_PVENodeImageSpec dur s) = Some s"
proof -
  define self where "self = map_of (always ''baseImage'' (encode_BaseImage (is_BaseImage s)) @
     always ''distribution'' (encode_Distribution (is_Distribution s)) @
     omitzero enc_strings [] ''packages'' (is_Packages s) @
     omitzero enc_strings [] ''sshAuthorizedKeys'' (is_SSHAuthorizedKeys s) @
     omitzero JString [] ''timezone'' (is_Timezone s) @
     always ''buildConfig'' (encode_BuildConfig (is_BuildConfig s)) @
     omitzero (encode_RebuildPolicy dur) zeroRebuildPolicy ''rebuildPolicy'' (is_RebuildPolicy s))"
  have pol: "read_field (dec_object (decode_RebuildPolicy dur)) zeroRebuildPolicy self ''rebuildPolicy'' =
      Some (is_RebuildPolicy s)"
  proof (cases "is_RebuildPolicy s = zeroRebuildPolicy")
    case True
    then have "self ''rebuildPolicy'' = None" unfolding self_def by simp
    with True show ?thesis by (simp add: read_field_absent)
  next
    case False
    then have "self ''rebuildPolicy'' = Some (encode_RebuildPolicy dur (is_RebuildPolicy s))"
      unfolding self_def by simp
    with assms show ?thesis
      by (simp add: read_field_present decode_encode_policy duration_stable_def)
  qed
  have parts: "read_field (dec_object decode_BaseImage) zeroBaseImage self ''baseImage'' = Some (is_BaseImage s)"
    "read_field (dec_object decode_Distribution) zeroDistribution self ''distribution'' = Some (is_Distribution s)"
    "read_field (dec_list dec_string) [] self ''packages'' = Some (is_Packages s)"
    "read_field (dec_list dec_string) [] self ''sshAuthorizedKeys'' = Some (is_SSHAuthorizedKeys s)"
    "read_field dec_string [] self ''timezone'' = Some (is_Timezone s)"
    "read_field (dec_object decode_BuildConfig) zeroBuildConfig self ''buildConfig'' = Some (is_BuildConfig s)"
    by (simp_all add: read_field_present decode_encode_parts self_def read_strings)
  have "dec_object (decode_PVENodeImageSpec dur) (encode_PVENodeImageSpec dur s) = decode_PVENodeImageSpec dur self"
    by (simp add: dec_object_def encode_PVENodeImageSpec_def self_def)
  also have "\<dots> = Some s"
    unfolding decode_spec_parts [OF parts] pol by simp
  finally show ?thesis .
qed

lemma with_defaults_duration [simp]: "duration_stable dur (with_defaults s) = duration_stable dur s"
  by (simp add: duration_stable_def with_defaults_def)

lemma with_defaults_twice [simp]: "with_defaults (with_defaults s) = with_defaults s"
  by (cases s) (auto simp: with_defaults_def RebuildOnSpecChange_def)

interpretation image_type: api_type PVENodeImageSpec_schema "encode_PVENodeImageSpec dur"
    "dec_object (decode_PVENodeImageSpec dur)" spec_acceptable "duration_stable dur" with_defaults for dur
proof unfold_locales
  show "spec_acceptable s \<Longrightarrow> spec_acceptable (with_defaults s)" for s
    by (simp add: spec_acceptable_def) (simp add: with_defaults_def)
qed (simp_all add: fill_encode_spec valid_encode_spec decode_encode_spec)

text \<open>
  Claim C5. Submitting a spec from Go and reading it back, through the encoder, the schema with its
  defaults and the decoder: a spec is accepted exactly when it names one source of the base
  image (with a checksum if it is a location), a known distribution, trigger and version form
  and no package or key twice; and what is read back is the spec with the time zone and the
  trigger defaulted, every other field as it was. What was read back can be written again and
  stays as it is.
\<close>

theorem submit_spec:
  assumes "duration_stable dur s"
  shows "Option.bind (admit PVENodeImageSpec_schema (encode_PVENodeImageSpec dur s))
       (dec_object (decode_PVENodeImageSpec dur)) =
     (if spec_acceptable s then Some (with_defaults s) else None) \<and>
    (spec_acceptable s \<longrightarrow>
     Option.bind (admit PVENodeImageSpec_schema (encode_PVENodeImageSpec dur (with_defaults s)))
       (dec_object (decode_PVENodeImageSpec dur)) = Some (with_defaults s))"
  using image_type.submit_iff [OF assms] image_type.write_back [OF assms, of "with_defaults s"]
  by (simp add: image_type.submit_def)

lemma sampleSpec_acceptable: "spec_acceptable sampleSpec"
proof -
  have m: "matches url_pattern ''https://example.com/ubuntu.iso''" "matches version_pattern ''v1.33.4+rke2r1''"
    by (simp_all only: full_match_iff [symmetric]) code_simp+
  show ?thesis
    by (simp add: spec_acceptable_def PVENodeImageSpec_ok_def BaseImage_ok_def Distribution_ok_def
        RebuildPolicy_ok_def with_defaults_def sampleSpec_def m RebuildOnSpecChange_def)
qed

theorem submit_spec_witness:
  "Option.bind (admit PVENodeImageSpec_schema (encode_PVENodeImageSpec noDurations (sampleSpec\<lparr>is_Timezone := []\<rparr>)))
      (dec_object (decode_PVENodeImageSpec noDurations)) = Some sampleSpec"
proof -
  have "duration_stable noDurations (sampleSpec\<lparr>is_Timezone := []\<rparr>)"
    by (simp add: duration_stable_def sampleSpec_def)
  moreover have d: "with_defaults (sampleSpec\<lparr>is_Timezone := []\<rparr>) = sampleSpec"
    by (simp add: with_defaults_def sampleSpec_def zeroRebuildPolicy_def RebuildOnSpecChange_def)
  moreover have "spec_acceptable (sampleSpec\<lparr>is_Timezone := []\<rparr>)"
    using sampleSpec_acceptable unfolding spec_acceptable_def d
    by (simp add: with_defaults_def sampleSpec_def RebuildOnSpecChange_def)
  ultimately show ?thesis by (simp add: submit_spec)
qed

section \<open>From the stored spec to the build\<close>

text \<open>
  Claim C18. What a stored spec guarantees the build: the variables of the Packer build name
  exactly one source of the boot ISO, give a checksum only with a location, carry a known
  distribution, and no value of version, location or file of the wrong form.
\<close>

theorem admitted_build_input:
  assumes "admit PVENodeImageSpec_schema j = Some j'"
    and "dec_object (decode_PVENodeImageSpec dur) j' = Some (im_Spec img)"
    and "pkrvarsFromImage up tzdb img v t = Inr inp"
  shows "(pk_ISOURL inp = []) \<noteq> (pk_ISOFile inp = []) \<and>
     (pk_ISOFile inp \<noteq> [] \<longrightarrow> pk_ISOChecksum inp = []) \<and>
     (matches url_pattern (pk_ISOURL inp) \<or> matches isoFile_pattern (pk_ISOFile inp)) \<and>
     pk_DistributionType inp \<in> {''rke2'', ''k3s''} \<and> matches version_pattern (pk_DistributionVersion inp) \<and>
     distinct (pk_ExtraPackages inp) \<and> distinct (pk_SSHAuthorizedKeys inp)"
proof -
  have ok: "PVENodeImageSpec_ok (im_Spec img)"
    using admitted_decodes [OF assms(1), of dur] assms(2) by (auto split: if_splits)
  have f: "pk_ISOURL inp = bi_URL (is_BaseImage (im_Spec img))" "pk_ISOFile inp = bi_ISOFile (is_BaseImage (im_Spec img))"
    "pk_ISOChecksum inp = bi_Checksum (is_BaseImage (im_Spec img))"
    "pk_DistributionType inp = di_Type (is_Distribution (im_Spec img))"
    "pk_DistributionVersion inp = di_Version (is_Distribution (im_Spec img))"
    "pk_ExtraPackages inp = is_Packages (im_Spec img)" "pk_SSHAuthorizedKeys inp = is_SSHAuthorizedKeys (im_Spec img)"
    using assms(3) by (auto simp: pkrvarsFromImage_def Let_def split: option.splits)
  show ?thesis
    using ok unfolding f
    by (auto simp: PVENodeImageSpec_ok_def BaseImage_ok_def Distribution_ok_def DistributionRKE2_def
        DistributionK3s_def dest: matches_url_nonempty matches_isoFile_nonempty)
qed

definition sampleStored :: "string \<Rightarrow> PVENodeImageSpec" where
  "sampleStored url = \<lparr>
     is_BaseImage = \<lparr>bi_URL = url, bi_Checksum = [], bi_ISOFile = []\<rparr>,
     is_Distribution = \<lparr>di_Type = ''k3s'', di_Version = ''v1.33.4+k3s1''\<rparr>,
     is_Packages = [], is_SSHAuthorizedKeys = [], is_Timezone = ''UTC'',
     is_BuildConfig = \<lparr>bc_Node = ''pve-01'', bc_StoragePool = ''local-lvm'', bc_ISOStoragePool = [],
                       bc_Bridge = ''vmbr0''\<rparr>,
     is_RebuildPolicy = \<lparr>rp_Trigger = ''OnSpecChange'', rp_Interval = None\<rparr>\<rparr>"

lemma sample_stored_spec:
  "admit PVENodeImageSpec_schema (sampleSpecJson ''https://x.org/u.iso'' [] []) =
     Some (fill PVENodeImageSpec_schema (sampleSpecJson ''https://x.org/u.iso'' [] []))"
  "dec_object (decode_PVENodeImageSpec dur)
     (fill PVENodeImageSpec_schema (sampleSpecJson ''https://x.org/u.iso'' [] [])) = Some (sampleStored ''https://x.org/u.iso'')"
   apply code_simp
  apply (simp add: sampleSpecJson_def spec_schema_defs fill_fields_Cons fill.simps(4) dec_object_def
      spec_decode_defs read_field_def dec_string_def sampleStored_def)
  done

theorem admitted_build_input_witness:
  "\<exists>inp. pkrvarsFromImage (\<lambda>_. False) (\<lambda>_. None) (sampleImage\<lparr>im_Spec := sampleStored ''https://x.org/u.iso''\<rparr>) 9000 ''t'' =
      Inr inp \<and> (pk_ISOURL inp = []) \<noteq> (pk_ISOFile inp = []) \<and> pk_ISOChecksum inp = []"
proof -
  let ?img = "sampleImage\<lparr>im_Spec := sampleStored ''https://x.org/u.iso''\<rparr>"
  obtain inp where inp: "pkrvarsFromImage (\<lambda>_. False) (\<lambda>_. None) ?img 9000 ''t'' = Inr inp" "pk_ISOChecksum inp = []"
    by (simp add: pkrvarsFromImage_def time_LoadLocation_def sampleStored_def)
  have "dec_object (decode_PVENodeImageSpec noDurations)
      (fill PVENodeImageSpec_schema (sampleSpecJson ''https://x.org/u.iso'' [] [])) = Some (im_Spec ?img)"
    by (simp add: sample_stored_spec(2))
  from admitted_build_input [OF sample_stored_spec(1) this inp(1)] inp show ?thesis by blast
qed

section \<open>The checksum is not checked\<close>

text \<open>
  Any text may stand for the checksum of a location: the object as it was submitted, with another
  string under \<open>baseImage.checksum\<close>.
\<close>

definition on_field :: "string \<Rightarrow> (json \<Rightarrow> json) \<Rightarrow> json \<Rightarrow> json" where
  "on_field k f j = (case j of
     JObj kvs \<Rightarrow> JObj (map (\<lambda>(n, v). (n, if n = k then f v else v)) kvs) | _ \<Rightarrow> j)"

definition write_checksum :: "string \<Rightarrow> json \<Rightarrow> json" where
  "write_checksum c = on_field ''baseImage'' (on_field ''checksum'' (\<lambda>_. JString c))"

definition with_checksum :: "string \<Rightarrow> PVENodeImageSpec \<Rightarrow> PVENodeImageSpec" where
  "with_checksum c spec = spec\<lparr>is_BaseImage := (is_BaseImage spec)\<lparr>bi_Checksum := c\<rparr>\<rparr>"

lemma map_of_on_field:
  "map_of (map (\<lambda>(n, v). (n, if n = k then f v else v)) kvs) m =
     (if m = k then map_option f (map_of kvs m) else map_of kvs m)"
  by (induction kvs) auto

abbreviation BaseImage_fields :: "field list" where
  "BaseImage_fields \<equiv> [optional ''url'' (StringS (full_match url_pattern)),
     optional ''checksum'' (StringS (\<lambda>s. True)), optional ''isoFile'' (StringS (full_match isoFile_pattern))]"

lemma map_of_filled_checksum:
  assumes "filled_value (map_of bs ''checksum'') None (StringS (\<lambda>s. True)) \<noteq> None"
  shows "map_of (fill_fields BaseImage_fields (map (\<lambda>(n, v). (n, if n = ''checksum'' then JString c else v)) bs)) =
    (map_of (fill_fields BaseImage_fields bs))(''checksum'' \<mapsto> JString c)"
  using assms
  by (cases "map_of bs ''checksum''")
    (auto simp: fun_eq_iff fill_fields_Cons map_of_on_field split: option.split)

lemma any_BaseImage_checksum:
  assumes v: "valid BaseImage_schema (fill BaseImage_schema b)"
    and d: "dec_object decode_BaseImage (fill BaseImage_schema b) = Some bi" and u: "bi_URL bi \<noteq> []"
  shows "valid BaseImage_schema (fill BaseImage_schema (on_field ''checksum'' (\<lambda>_. JString c) b)) \<and>
    dec_object decode_BaseImage (fill BaseImage_schema (on_field ''checksum'' (\<lambda>_. JString c) b)) =
      Some (bi\<lparr>bi_Checksum := c\<rparr>) \<and>
    b \<noteq> JNull \<and> on_field ''checksum'' (\<lambda>_. JString c) b \<noteq> JNull"
proof -
  obtain bs where b: "b = JObj bs" using v by (cases b) (auto simp: BaseImage_schema_def fill.simps(4))
  let ?self = "map_of (fill_fields BaseImage_fields bs)"
  have ok: "\<forall>f \<in> set BaseImage_fields. field_ok ?self f"
    and rule: "has ?self ''url'' \<and> has ?self ''checksum'' \<and> \<not> has ?self ''isoFile'' \<or>
      \<not> has ?self ''url'' \<and> \<not> has ?self ''checksum'' \<and> has ?self ''isoFile''"
    using v unfolding b BaseImage_schema_def fill.simps json.case valid_object_iff by auto
  have dec: "decode_BaseImage ?self = Some bi"
    using d unfolding b BaseImage_schema_def fill.simps json.case by (simp add: dec_object_def)
  have "has ?self ''url''"
    using dec u by (auto simp: decode_BaseImage_def read_field_def has_def bind_eq_Some_conv split: option.splits)
  with rule have has: "has ?self ''url''" "has ?self ''checksum''" "\<not> has ?self ''isoFile''" by auto
  have "?self ''checksum'' = filled_value (map_of bs ''checksum'') None (StringS (\<lambda>s. True))"
    by (rule map_of_fill_fields [where req = False]) simp_all
  then have "filled_value (map_of bs ''checksum'') None (StringS (\<lambda>s. True)) \<noteq> None"
    using has(2) by (simp add: has_def)
  from map_of_filled_checksum [OF this, of c]
  have m: "fill BaseImage_schema (on_field ''checksum'' (\<lambda>_. JString c) b) = JObj kvs' \<Longrightarrow>
      map_of kvs' = ?self(''checksum'' \<mapsto> JString c)" for kvs'
    unfolding b BaseImage_schema_def on_field_def fill.simps json.case by simp
  obtain kvs' where k: "fill BaseImage_schema (on_field ''checksum'' (\<lambda>_. JString c) b) = JObj kvs'"
    unfolding b BaseImage_schema_def on_field_def by (simp add: fill.simps(4))
  have "valid BaseImage_schema (JObj kvs')"
    using ok has unfolding BaseImage_schema_def valid_object_iff by (auto simp: m [OF k] has_def)
  moreover have "decode_BaseImage (map_of kvs') = Some (bi\<lparr>bi_Checksum := c\<rparr>)"
    using dec unfolding m [OF k]
    by (auto simp: decode_BaseImage_def read_field_def dec_string_def bind_eq_Some_conv)
  ultimately show ?thesis unfolding k by (simp add: dec_object_def b on_field_def)
qed


lemma filled_object: "v \<noteq> JNull \<Longrightarrow> filled_value (Some v) None s = Some (fill s v)"
  by simp

lemma decode_with_base:
  assumes "decode_PVENodeImageSpec dur self = Some spec"
    and "self ''baseImage'' = Some b" "b \<noteq> JNull" "b' \<noteq> JNull"
    and "dec_object decode_BaseImage b' = Some ((is_BaseImage spec)\<lparr>bi_Checksum := c\<rparr>)"
  shows "decode_PVENodeImageSpec dur (self(''baseImage'' \<mapsto> b')) = Some (with_checksum c spec)"
proof -
  have other: "n \<noteq> ''baseImage'' \<Longrightarrow> read_field rd z (self(''baseImage'' \<mapsto> b')) n = read_field rd z self n" for rd z n
    by (simp add: read_field_def)
  have "read_field (dec_object decode_BaseImage) zeroBaseImage (self(''baseImage'' \<mapsto> b')) ''baseImage'' =
      Some ((is_BaseImage spec)\<lparr>bi_Checksum := c\<rparr>)"
    using assms(4,5) by (subst read_field_present) auto
  then show ?thesis using assms(1)
    by (auto simp: decode_PVENodeImageSpec_def other with_checksum_def bind_eq_Some_conv)
qed

lemma any_checksum_admitted:
  assumes adm: "admit PVENodeImageSpec_schema j = Some j1"
    and dec: "dec_object (decode_PVENodeImageSpec dur) j1 = Some spec" and u: "bi_URL (is_BaseImage spec) \<noteq> []"
  shows "\<exists>j2. admit PVENodeImageSpec_schema (write_checksum c j) = Some j2 \<and>
    dec_object (decode_PVENodeImageSpec dur) j2 = Some (with_checksum c spec)"
proof -
  obtain fs where S: "PVENodeImageSpec_schema = ObjectS fs (\<lambda>self. True)" and
    fs: "distinct (map field_name fs)" "required ''baseImage'' BaseImage_schema \<in> set fs"
      "\<And>n r d s. Field n r d s \<in> set fs \<Longrightarrow> n = ''baseImage'' \<Longrightarrow> s = BaseImage_schema \<and> d = None"
    unfolding PVENodeImageSpec_schema_def by auto
  obtain kvs where j: "j = JObj kvs" "j1 = JObj (fill_fields fs kvs)"
    using admit_object(2) [OF adm [unfolded S]] by blast
  let ?b = "on_field ''checksum'' (\<lambda>_. JString c)"
  let ?kvs = "map (\<lambda>(n, v). (n, if n = ''baseImage'' then ?b v else v)) kvs"
  let ?self = "map_of (fill_fields fs kvs)"
  have ok: "\<forall>f \<in> set fs. field_ok ?self f"
    using admit_object(1) [OF adm [unfolded S]] unfolding j valid_object_iff by simp
  have base: "?self ''baseImage'' = filled_value (map_of kvs ''baseImage'') None BaseImage_schema"
    by (rule map_of_fill_fields [OF fs(1,2)])
  obtain b where b: "map_of kvs ''baseImage'' = Some b" "b \<noteq> JNull"
    using bspec [OF ok fs(2)] base by (auto simp: filled_value_def split: option.splits if_splits)
  have fb: "?self ''baseImage'' = Some (fill BaseImage_schema b)" using base b by simp
  have vb: "valid BaseImage_schema (fill BaseImage_schema b)" using bspec [OF ok fs(2)] fb by simp
  then have nb: "fill BaseImage_schema b \<noteq> JNull" by (auto simp: BaseImage_schema_def)
  have "read_field (dec_object decode_BaseImage) zeroBaseImage ?self ''baseImage'' = Some (is_BaseImage spec)"
    using dec unfolding j by (auto simp: dec_object_def decode_PVENodeImageSpec_def bind_eq_Some_conv)
  then have "dec_object decode_BaseImage (fill BaseImage_schema b) = Some (is_BaseImage spec)"
    by (simp add: read_field_present [of ?self, OF fb nb])
  note any = any_BaseImage_checksum [OF vb this u, of c]
  have out: "map_of (fill_fields fs ks) n = None" if "n \<notin> field_name ` set fs" for ks n
  proof -
    have "(\<lambda>f. case f of Field m _ _ _ \<Rightarrow> m) = field_name" by (rule ext) (simp split: field.split)
    then show ?thesis using that map_of_fill_fields_None [of n fs ks] by simp
  qed
  have m: "map_of (fill_fields fs ?kvs) = ?self(''baseImage'' \<mapsto> fill BaseImage_schema (?b b))"
  proof
    fix n
    show "map_of (fill_fields fs ?kvs) n = (?self(''baseImage'' \<mapsto> fill BaseImage_schema (?b b))) n"
    proof (cases "n \<in> field_name ` set fs")
      case True
      then obtain x where x: "x \<in> set fs" "field_name x = n" by (auto simp: image_iff)
      obtain m r d s where "x = Field m r d s" by (rule field.exhaust)
      with x have f: "Field n r d s \<in> set fs" by simp
      show ?thesis
        using map_of_fill_fields [OF fs(1) f, of ?kvs] map_of_fill_fields [OF fs(1) f, of kvs] fs(3) [OF f] b any
        by (cases "n = ''baseImage''") (simp_all add: map_of_on_field)
    next
      case False
      then show ?thesis using out [of n] imageI [OF fs(2), of field_name] by (cases "n = ''baseImage''") auto
    qed
  qed
  have nb': "fill BaseImage_schema (?b b) \<noteq> JNull" using any by (auto simp: BaseImage_schema_def)
  have fo: "field_ok (?self(''baseImage'' \<mapsto> fill BaseImage_schema (?b b))) f" if "f \<in> set fs" for f
  proof (cases f)
    case (Field n r d s)
    then show ?thesis using bspec [OF ok that] that any fs(3) [of n r d s] by (cases "n = ''baseImage''") simp_all
  qed
  have "valid PVENodeImageSpec_schema (JObj (fill_fields fs ?kvs))"
    unfolding S valid_object_iff by (intro exI [of _ "fill_fields fs ?kvs"] conjI refl ballI TrueI) (simp only: m fo)
  then have "admit PVENodeImageSpec_schema (write_checksum c j) = Some (JObj (fill_fields fs ?kvs))"
    by (simp add: admit_def S write_checksum_def on_field_def [of "''baseImage''"] j(1) fill.simps)
  moreover have "decode_PVENodeImageSpec dur (map_of (fill_fields fs ?kvs)) = Some (with_checksum c spec)"
    unfolding m using dec any unfolding j
    by (intro decode_with_base [where self = ?self, OF _ fb nb nb']) (simp_all add: dec_object_def)
  ultimately show ?thesis by (simp add: dec_object_def)
qed


lemma pkrvarsFromImage_checksum:
  "pkrvarsFromImage up tzdb (img\<lparr>im_Spec := with_checksum c spec\<rparr>) v t =
     map_sum id (\<lambda>inp. inp\<lparr>pk_ISOChecksum := c\<rparr>) (pkrvarsFromImage up tzdb (img\<lparr>im_Spec := spec\<rparr>) v t)"
  by (simp add: pkrvarsFromImage_def with_checksum_def Let_def split: option.split)

lemma checksum_line: "assignLine up ''iso_checksum'' (pk_ISOChecksum inp) \<in> set (splitOn (CHR 0x0A) (renderPkrvars up inp))"
proof -
  have "splitOn (CHR 0x0A) (renderPkrvars up inp) = pkrvarsLines up inp @ [[]]"
    unfolding renderPkrvars_unlines by (rule splitOn_unlines) (simp add: pkrvarsLines_no_nl)
  then show ?thesis by (simp add: pkrvarsLines_def)
qed

text \<open>
  Claim C40. The rule on the base image asks whether the fields are present, not whether they hold
  anything: take any object that is stored and gives a location, and write an empty checksum in
  it. It is stored as well, decodes to the same spec without checksum, passes \<open>pkrvarsFromImage\<close>
  whenever the first one did, and its variable file sets \<open>iso_checksum\<close> to the empty string; a Go
  client that writes that same spec is refused.
\<close>

theorem empty_checksum_admitted:
  assumes "admit PVENodeImageSpec_schema j = Some j1"
    and "dec_object (decode_PVENodeImageSpec dur) j1 = Some spec" and "bi_URL (is_BaseImage spec) \<noteq> []"
  shows "(\<exists>j2. admit PVENodeImageSpec_schema (write_checksum [] j) = Some j2 \<and>
       dec_object (decode_PVENodeImageSpec dur) j2 = Some (with_checksum [] spec)) \<and>
    (\<forall>img v t inp. pkrvarsFromImage up tzdb (img\<lparr>im_Spec := spec\<rparr>) v t = Inr inp \<longrightarrow>
       pkrvarsFromImage up tzdb (img\<lparr>im_Spec := with_checksum [] spec\<rparr>) v t = Inr (inp\<lparr>pk_ISOChecksum := []\<rparr>) \<and>
       pk_ISOURL inp = bi_URL (is_BaseImage spec) \<and>
       ''iso_checksum = '' @ [dquote, dquote] \<in>
         set (splitOn (CHR 0x0A) (renderPkrvars up (inp\<lparr>pk_ISOChecksum := []\<rparr>)))) \<and>
    admit PVENodeImageSpec_schema (encode_PVENodeImageSpec dur (with_checksum [] spec)) = None"
proof (intro conjI allI impI)
  show "\<exists>j2. admit PVENodeImageSpec_schema (write_checksum [] j) = Some j2 \<and>
       dec_object (decode_PVENodeImageSpec dur) j2 = Some (with_checksum [] spec)"
    by (rule any_checksum_admitted [OF assms])
  have "\<not> spec_acceptable (with_checksum [] spec)"
    using assms(3) by (simp add: spec_acceptable_def with_checksum_def)
  then show "admit PVENodeImageSpec_schema (encode_PVENodeImageSpec dur (with_checksum [] spec)) = None"
    by (simp add: admit_def fill_encode_spec valid_encode_spec)
next
  fix img v t inp
  assume inp: "pkrvarsFromImage up tzdb (img\<lparr>im_Spec := spec\<rparr>) v t = Inr inp"
  then show "pkrvarsFromImage up tzdb (img\<lparr>im_Spec := with_checksum [] spec\<rparr>) v t = Inr (inp\<lparr>pk_ISOChecksum := []\<rparr>)"
    by (simp add: pkrvarsFromImage_checksum)
  show "pk_ISOURL inp = bi_URL (is_BaseImage spec)"
    using inp by (auto simp: pkrvarsFromImage_def Let_def split: option.splits)
  show "''iso_checksum = '' @ [dquote, dquote] \<in>
      set (splitOn (CHR 0x0A) (renderPkrvars up (inp\<lparr>pk_ISOChecksum := []\<rparr>)))"
    using checksum_line [of up "inp\<lparr>pk_ISOChecksum := []\<rparr>"] by (simp add: assignLine_def quote_def)
qed

lemma sample_checksum:
  "admit PVENodeImageSpec_schema (sampleSpecJson ''https://x.org/u.iso'' ''sha256:0'' []) =
     Some (fill PVENodeImageSpec_schema (sampleSpecJson ''https://x.org/u.iso'' ''sha256:0'' []))"
  "dec_object (decode_PVENodeImageSpec dur)
     (fill PVENodeImageSpec_schema (sampleSpecJson ''https://x.org/u.iso'' ''sha256:0'' [])) =
     Some (with_checksum ''sha256:0'' (sampleStored ''https://x.org/u.iso''))"
  "write_checksum c (sampleSpecJson ''https://x.org/u.iso'' ''sha256:0'' []) =
     sampleSpecJson ''https://x.org/u.iso'' c []"
    apply code_simp
   apply (simp add: sampleSpecJson_def spec_schema_defs fill_fields_Cons fill.simps(4) dec_object_def
      spec_decode_defs read_field_def dec_string_def sampleStored_def with_checksum_def)
  apply (simp add: write_checksum_def on_field_def sampleSpecJson_def)
  done

theorem empty_checksum_admitted_witness:
  "(\<exists>j2. admit PVENodeImageSpec_schema (sampleSpecJson ''https://x.org/u.iso'' [] []) = Some j2 \<and>
     dec_object (decode_PVENodeImageSpec noDurations) j2 = Some (sampleStored ''https://x.org/u.iso'')) \<and>
   admit PVENodeImageSpec_schema (encode_PVENodeImageSpec noDurations (sampleStored ''https://x.org/u.iso'')) = None"
proof -
  have w: "with_checksum [] (with_checksum ''sha256:0'' (sampleStored ''https://x.org/u.iso'')) = sampleStored ''https://x.org/u.iso''"
    by (simp add: with_checksum_def sampleStored_def)
  have "bi_URL (is_BaseImage (with_checksum ''sha256:0'' (sampleStored ''https://x.org/u.iso''))) \<noteq> []"
    by (simp add: with_checksum_def sampleStored_def)
  from empty_checksum_admitted [OF sample_checksum(1) sample_checksum(2) [of noDurations] this]
  show ?thesis unfolding w sample_checksum(3) by blast
qed

end
