(* ===== verification/Crd_Status.thy ===== *)
theory Crd_Status
  imports Crd_Json Go_Regexp Image_Trace Reconcilers
begin

text \<open>
  The schema of a status (\<open>PVENodeImageStatus\<close> in \<open>api/v1alpha1/pvenodeimage_types.go\<close>, with the
  conditions as \<open>config/crd/bases\<close> has them) and what it means for the controller: an API server
  that validates refuses a status update that the schema does not accept. The theory adds that
  refusal to an arbitrary client and shows that the reconciler never meets it. How a time is
  written is a parameter: its text form and which texts count as \<open>date-time\<close>.
\<close>

section \<open>Schema\<close>

text \<open>\<open>^([a-z0-9]([-a-z0-9]*[a-z0-9])?(\.[a-z0-9]([-a-z0-9]*[a-z0-9])?)*/)?(([A-Za-z0-9][-A-Za-z0-9_.]*)?[A-Za-z0-9])$\<close>\<close>

definition type_pattern :: regexp where
  "type_pattern =
     (let lowerDigit = Class (\<lambda>c. isLower c \<or> isDigit c);
          inner = Class (\<lambda>c. isLower c \<or> isDigit c \<or> c = CHR ''-'');
          label = seq [lowerDigit, opt (seq [Rep inner, lowerDigit])];
          nameChar = Class (\<lambda>c. isAlnum c \<or> c = CHR ''-'' \<or> c = CHR ''_'' \<or> c = CHR ''.'')
      in seq [opt (seq [label, Rep (seq [lit ''.'', label]), lit ''/'']),
              opt (seq [Class isAlnum, Rep nameChar]), Class isAlnum])"

text \<open>\<open>^[A-Za-z]([A-Za-z0-9_,:]*[A-Za-z0-9_])?$\<close>\<close>

definition reason_pattern :: regexp where
  "reason_pattern = seq [Class isLetter,
     opt (seq [Rep (Class (\<lambda>c. isAlnum c \<or> c = CHR ''_'' \<or> c = CHR '','' \<or> c = CHR '':'')),
               Class (\<lambda>c. isAlnum c \<or> c = CHR ''_'')])]"

record time_text =
  tt_Format :: "Time \<Rightarrow> string"
  tt_DateTime :: "string \<Rightarrow> bool"

definition Condition_schema :: "time_text \<Rightarrow> schema" where
  "Condition_schema tt = ObjectS
     [required ''lastTransitionTime'' (StringS (tt_DateTime tt)),
      required ''message'' (StringS (\<lambda>s. runes s \<le> 32768)),
      optional ''observedGeneration'' (IntegerS (\<lambda>i. 0 \<le> i)),
      required ''reason'' (StringS (\<lambda>s. 1 \<le> runes s \<and> runes s \<le> 1024 \<and> full_match reason_pattern s)),
      required ''status'' (StringS (\<lambda>s. s = ''True'' \<or> s = ''False'' \<or> s = ''Unknown'')),
      required ''type'' (StringS (\<lambda>s. runes s \<le> 316 \<and> full_match type_pattern s))] (\<lambda>self. True)"

definition PVENodeImageStatus_schema :: "time_text \<Rightarrow> schema" where
  "PVENodeImageStatus_schema tt = ObjectS
     [optional ''conditions'' (ArrayS (map_list ''type'') (Condition_schema tt)),
      optional ''templateVMID'' (IntegerS (\<lambda>i. - (2 ^ 31) \<le> i \<and> i < 2 ^ 31)),
      optional ''templateNode'' (StringS (\<lambda>s. True)),
      optional ''observedSpecHash'' (StringS (\<lambda>s. True)),
      optional ''lastBuildTime'' (StringS (tt_DateTime tt))] (\<lambda>self. True)"

section \<open>Encoding\<close>

fun status_string :: "ConditionStatus \<Rightarrow> string" where
  "status_string ConditionTrue = ''True''"
| "status_string ConditionFalse = ''False''"
| "status_string ConditionUnknown = ''Unknown''"
| "status_string (ConditionOther s) = s"

text \<open>A zero time is written as \<open>null\<close>.\<close>

definition enc_time :: "time_text \<Rightarrow> Time \<Rightarrow> json" where
  "enc_time tt t = (if t = 0 then JNull else JString (tt_Format tt t))"

text \<open>
  The JSON form of a condition. \<open>metav1.Condition\<close> is a type of apimachinery, outside of the
  repository; this is its documented form, with the property names that the schema above has.
\<close>

definition encode_Condition :: "time_text \<Rightarrow> Condition \<Rightarrow> json" where
  "encode_Condition tt c = JObj (
     always ''type'' (JString (co_Type c)) @
     always ''status'' (JString (status_string (co_Status c))) @
     omitzero (\<lambda>g. JInt (sint g)) 0 ''observedGeneration'' (co_ObservedGeneration c) @
     always ''lastTransitionTime'' (enc_time tt (co_LastTransitionTime c)) @
     always ''reason'' (JString (co_Reason c)) @
     always ''message'' (JString (co_Message c)))"

definition encode_PVENodeImageStatus :: "time_text \<Rightarrow> PVENodeImageStatus \<Rightarrow> json" where
  "encode_PVENodeImageStatus tt st = JObj (
     omitzero (\<lambda>cs. JArr (map (encode_Condition tt) cs)) [] ''conditions'' (ist_Conditions st) @
     omitzero (\<lambda>v. JInt (sint (the v))) None ''templateVMID'' (ist_TemplateVMID st) @
     omitzero JString [] ''templateNode'' (ist_TemplateNode st) @
     omitzero JString [] ''observedSpecHash'' (ist_ObservedSpecHash st) @
     (if Time_IsZero (ist_LastBuildTime st) then []
      else [(''lastBuildTime'', enc_time tt (the (ist_LastBuildTime st)))]))"

text \<open>The status part of a status update on a server that validates.\<close>

definition ErrInvalid :: go_error where
  "ErrInvalid = Err ''the status is invalid''"

definition validating :: "time_text \<Rightarrow> 'w kube_client \<Rightarrow> 'w kube_client" where
  "validating tt cl = cl\<lparr>kc_StatusUpdate := (\<lambda>img w.
     if valid (PVENodeImageStatus_schema tt) (encode_PVENodeImageStatus tt (im_Status img))
     then kc_StatusUpdate cl img w else (Some ErrInvalid, w))\<rparr>"

section \<open>What the schema says of a status\<close>

definition time_ok :: "time_text \<Rightarrow> Time \<Rightarrow> bool" where
  "time_ok tt t \<longleftrightarrow> t \<noteq> 0 \<and> tt_DateTime tt (tt_Format tt t)"

definition Condition_ok :: "time_text \<Rightarrow> Condition \<Rightarrow> bool" where
  "Condition_ok tt c \<longleftrightarrow> runes (co_Type c) \<le> 316 \<and> matches type_pattern (co_Type c) \<and>
     status_string (co_Status c) \<in> {''True'', ''False'', ''Unknown''} \<and>
     0 \<le> sint (co_ObservedGeneration c) \<and> time_ok tt (co_LastTransitionTime c) \<and>
     1 \<le> runes (co_Reason c) \<and> runes (co_Reason c) \<le> 1024 \<and> matches reason_pattern (co_Reason c) \<and>
     runes (co_Message c) \<le> 32768"

definition PVENodeImageStatus_ok :: "time_text \<Rightarrow> PVENodeImageStatus \<Rightarrow> bool" where
  "PVENodeImageStatus_ok tt st \<longleftrightarrow> distinct (map co_Type (ist_Conditions st)) \<and>
     (\<forall>c \<in> set (ist_Conditions st). Condition_ok tt c) \<and>
     (Time_IsZero (ist_LastBuildTime st) \<or> time_ok tt (the (ist_LastBuildTime st)))"

declare map_of_append [simp del]

lemma encode_Condition_type: "json_field ''type'' (encode_Condition tt c) = Some (JString (co_Type c))"
  by (simp add: json_field_def encode_Condition_def)

lemma valid_encode_Condition: "valid (Condition_schema tt) (encode_Condition tt c) \<longleftrightarrow> Condition_ok tt c"
proof -
  define kvs where "kvs = always ''type'' (JString (co_Type c)) @
     always ''status'' (JString (status_string (co_Status c))) @
     omitzero (\<lambda>g. JInt (sint g)) 0 ''observedGeneration'' (co_ObservedGeneration c) @
     always ''lastTransitionTime'' (enc_time tt (co_LastTransitionTime c)) @
     always ''reason'' (JString (co_Reason c)) @
     always ''message'' (JString (co_Message c))"
  have m: "map_of kvs ''type'' = Some (JString (co_Type c))"
    "map_of kvs ''status'' = Some (JString (status_string (co_Status c)))"
    "map_of kvs ''observedGeneration'' = (if co_ObservedGeneration c = 0 then None
       else Some (JInt (sint (co_ObservedGeneration c))))"
    "map_of kvs ''lastTransitionTime'' = Some (enc_time tt (co_LastTransitionTime c))"
    "map_of kvs ''reason'' = Some (JString (co_Reason c))"
    "map_of kvs ''message'' = Some (JString (co_Message c))"
    unfolding kvs_def by simp_all
  have "valid (Condition_schema tt) (JObj kvs) \<longleftrightarrow> Condition_ok tt c"
    by (auto simp: Condition_schema_def m Condition_ok_def full_match_iff enc_time_def time_ok_def)
  then show ?thesis by (simp add: kvs_def encode_Condition_def)
qed

lemma distinct_encoded: "map_list ''type'' (map (encode_Condition tt) cs) \<longleftrightarrow> distinct (map co_Type cs)"
proof -
  have "map (json_field ''type'') (map (encode_Condition tt) cs) = map (Some \<circ> JString) (map co_Type cs)"
    by (simp add: encode_Condition_type)
  then show ?thesis
    by (simp only: map_list_def distinct_map) (simp add: inj_on_def)
qed

lemma sint_int32: "- (2 ^ 31) \<le> sint (v :: int32) \<and> sint v < 2 ^ 31"
  using sint_range_size [of v] by (simp add: word_size)

lemma valid_encode_Status:
  "valid (PVENodeImageStatus_schema tt) (encode_PVENodeImageStatus tt st) \<longleftrightarrow> PVENodeImageStatus_ok tt st"
proof -
  define kvs where "kvs = omitzero (\<lambda>cs. JArr (map (encode_Condition tt) cs)) [] ''conditions'' (ist_Conditions st) @
     omitzero (\<lambda>v. JInt (sint (the v))) None ''templateVMID'' (ist_TemplateVMID st) @
     omitzero JString [] ''templateNode'' (ist_TemplateNode st) @
     omitzero JString [] ''observedSpecHash'' (ist_ObservedSpecHash st) @
     (if Time_IsZero (ist_LastBuildTime st) then []
      else [(''lastBuildTime'', enc_time tt (the (ist_LastBuildTime st)))])"
  have m: "map_of kvs ''conditions'' = (if ist_Conditions st = [] then None
       else Some (JArr (map (encode_Condition tt) (ist_Conditions st))))"
    "map_of kvs ''templateVMID'' = (if ist_TemplateVMID st = None then None
       else Some (JInt (sint (the (ist_TemplateVMID st)))))"
    "map_of kvs ''templateNode'' = (if ist_TemplateNode st = [] then None else Some (JString (ist_TemplateNode st)))"
    "map_of kvs ''observedSpecHash'' = (if ist_ObservedSpecHash st = [] then None
       else Some (JString (ist_ObservedSpecHash st)))"
    "map_of kvs ''lastBuildTime'' = (if Time_IsZero (ist_LastBuildTime st) then None
       else Some (enc_time tt (the (ist_LastBuildTime st))))"
    unfolding kvs_def by simp_all
  have "valid (PVENodeImageStatus_schema tt) (JObj kvs) \<longleftrightarrow> PVENodeImageStatus_ok tt st"
    using sint_int32 [of "the (ist_TemplateVMID st)"]
    by (cases "ist_LastBuildTime st")
      (auto simp: PVENodeImageStatus_schema_def m PVENodeImageStatus_ok_def valid_encode_Condition
        distinct_encoded enc_time_def time_ok_def Time_IsZero_def simp del: valid.simps(5) valid_fields.simps
        simp: valid_object_iff)
  then show ?thesis by (simp add: kvs_def encode_PVENodeImageStatus_def)
qed

section \<open>What the reconciler writes is valid\<close>

text \<open>Every entry of the table of phases has the texts that the schema asks for.\<close>

definition row_ok :: "ConditionStatus \<times> string \<times> string \<Rightarrow> bool" where
  "row_ok row \<longleftrightarrow> status_string (fst row) \<in> {''True'', ''False'', ''Unknown''} \<and>
     1 \<le> runes (fst (snd row)) \<and> runes (fst (snd row)) \<le> 1024 \<and>
     full_match reason_pattern (fst (snd row)) \<and> runes (snd (snd row)) \<le> 100"

definition type_ok :: "string \<Rightarrow> bool" where
  "type_ok ty \<longleftrightarrow> runes ty \<le> 316 \<and> full_match type_pattern ty"

lemma row_valid: "row_ok (building_row p)" "row_ok (succeeded_row p)"
  by (cases p; simp only:; code_simp)+

lemma type_valid: "type_ok ConditionTypeBuilding" "type_ok ConditionTypeBuildSucceeded"
  by code_simp+

lemma row_condition_ok:
  assumes "row = building_row p \<or> row = succeeded_row p"
    and "ty = ConditionTypeBuilding \<or> ty = ConditionTypeBuildSucceeded"
    and "0 \<le> sint (om_Generation (im_ObjectMeta img))"
    and "time_ok tt now" "\<And>c. old = Some c \<Longrightarrow> time_ok tt (co_LastTransitionTime c)"
  shows "Condition_ok tt (merge_condition now old (row_condition row ty img))"
proof -
  have "type_ok ty" using type_valid assms(2) by blast
  moreover have "time_ok tt (co_LastTransitionTime (merge_condition now old (row_condition row ty img)))"
    using assms(4,5) by (auto simp: merge_condition_def row_condition_def split: option.split)
  ultimately show ?thesis
    using row_valid [of p] assms(1,3)
    by (auto simp: Condition_ok_def row_condition_def row_ok_def type_ok_def full_match_iff
        simp del: building_row.simps succeeded_row.simps)
qed

lemma cond_of_member: "distinct (map co_Type cs) \<Longrightarrow> c \<in> set cs \<Longrightarrow> cond_of (co_Type c) cs = Some c"
  by (induction cs) (auto simp: cond_of_Cons image_iff)

lemma cond_of_in: "cond_of ty cs = Some c \<Longrightarrow> c \<in> set cs"
  by (auto simp: cond_of_def find_Some_iff)

lemma SSC_members_ok:
  assumes ssc: "SetStatusCondition_contract f" and d: "distinct (map co_Type cs)"
    and old: "\<forall>c \<in> set cs. P c" and new: "P (merge_condition now (cond_of (co_Type c) cs) c)"
  shows "\<forall>x \<in> set (snd (f now cs c)). P x"
proof
  fix x
  assume x: "x \<in> set (snd (f now cs c))"
  have "cond_of (co_Type x) (snd (f now cs c)) = Some x"
    by (rule cond_of_member [OF SSC_distinct [OF ssc d] x])
  then show "P x"
    using old new by (auto simp: SSC_lookup [OF ssc] split: if_splits dest: cond_of_in)
qed

lemma target_status_ok:
  assumes ssc: "SetStatusCondition_contract (kl_SetStatusCondition lib)"
    and st: "PVENodeImageStatus_ok tt (im_Status img)"
    and gen: "0 \<le> sint (om_Generation (im_ObjectMeta img))" and clk: "\<And>i. time_ok tt (clk i)"
  shows "PVENodeImageStatus_ok tt (im_Status (target_image lib p h clk img))"
proof -
  let ?cs = "ist_Conditions (im_Status img)"
  let ?k = "if p = Succeeded then 1 else 0 :: nat"
  let ?b = "row_condition (building_row p) ConditionTypeBuilding img"
  let ?c = "row_condition (succeeded_row p) ConditionTypeBuildSucceeded img"
  let ?r1 = "snd (kl_SetStatusCondition lib (clk ?k) ?cs ?b)"
  have d: "distinct (map co_Type ?cs)" and ok: "\<forall>c \<in> set ?cs. Condition_ok tt c"
    using st by (simp_all add: PVENodeImageStatus_ok_def)
  have times: "time_ok tt (co_LastTransitionTime c)" if "\<forall>c \<in> set cs. Condition_ok tt c" "cond_of ty cs = Some c" for cs ty c
    using that(1) cond_of_in [OF that(2)] by (simp add: Condition_ok_def)
  have ok1: "\<forall>c \<in> set ?r1. Condition_ok tt c"
    using times [OF ok] by (intro SSC_members_ok [OF ssc d ok] row_condition_ok) (auto simp: gen clk)
  have d1: "distinct (map co_Type ?r1)" by (rule SSC_distinct [OF ssc d])
  have "\<forall>c \<in> set (snd (kl_SetStatusCondition lib (clk (Suc ?k)) ?r1 ?c)). Condition_ok tt c"
    using times [OF ok1] by (intro SSC_members_ok [OF ssc d1 ok1] row_condition_ok) (auto simp: gen clk)
  moreover have "snd (target_conditions lib p clk img) = snd (kl_SetStatusCondition lib (clk (Suc ?k)) ?r1 ?c)"
    by (simp add: target_conditions_def Let_def)
  ultimately show ?thesis
    using st target_distinct [OF ssc d, of p clk] clk
    by (auto simp: PVENodeImageStatus_ok_def)
qed

definition statuses_valid :: "time_text \<Rightarrow> 'w kube_client \<Rightarrow> 'w \<Rightarrow> bool" where
  "statuses_valid tt cl w \<longleftrightarrow> (\<forall>req img. kc_Get cl req w = Inr img \<longrightarrow>
     PVENodeImageStatus_ok tt (im_Status img) \<and> 0 \<le> sint (om_Generation (im_ObjectMeta img)))"

lemma statuses_validD:
  "statuses_valid tt cl w \<Longrightarrow> kc_Get cl req w = Inr img \<Longrightarrow>
     PVENodeImageStatus_ok tt (im_Status img) \<and> 0 \<le> sint (om_Generation (im_ObjectMeta img))"
  unfolding statuses_valid_def by blast

lemma validating_simps [simp]:
  "kc_Get (validating tt cl) = kc_Get cl" "kc_List (validating tt cl) = kc_List cl"
  "kc_StatusUpdate (validating tt cl) img w =
     (if PVENodeImageStatus_ok tt (im_Status img) then kc_StatusUpdate cl img w else (Some ErrInvalid, w))"
  by (simp_all add: validating_def valid_encode_Status)

lemma validating_decide: "decide (validating tt cl) lib env req s = decide cl lib env req s"
proof -
  have "findBuildJob (validating tt cl) = findBuildJob cl"
    by (intro ext) (simp add: findBuildJob_def Let_def)
  note eq = this
  show ?thesis unfolding decide_def validating_simps(1) eq ..
qed

lemma validating_pass:
  assumes ssc: "SetStatusCondition_contract (kl_SetStatusCondition lib)"
    and st: "statuses_valid tt cl (pr_Cluster s)" and clk: "\<And>i. time_ok tt (clk i)"
  shows "Reconcile (validating tt cl) lib env clk req s = Reconcile cl lib env clk req s"
proof -
  obtain d s1 where d: "decide cl lib env req s = (d, s1)" by fastforce
  show ?thesis
  proof (cases d)
    case (Act p h img)
    from d [unfolded Act] have "kc_Get cl req (pr_Cluster s) = Inr img" by (rule decide_ActD(1))
    note i = statuses_validD [OF st this]
    have "PVENodeImageStatus_ok tt (im_Status (target_image lib p h clk img))"
      by (rule target_status_ok [OF ssc conjunct1 [OF i] conjunct2 [OF i] clk])
    then have "updateStatusIfChanged (validating tt cl) (target_image lib p h clk img) ch s1 =
        updateStatusIfChanged cl (target_image lib p h clk img) ch s1" for ch
      by (simp add: updateStatusIfChanged_def)
    then have "act (validating tt cl) lib clk p h img s1 = act cl lib clk p h img s1"
      by (simp only: act_def)
    then show ?thesis by (simp add: Reconcile_decide_act validating_decide d Act)
  qed (simp_all add: Reconcile_decide_act validating_decide d)
qed

lemma pass_keeps_valid:
  assumes cl: "client_contract cl" and ssc: "SetStatusCondition_contract (kl_SetStatusCondition lib)"
    and st: "statuses_valid tt cl (pr_Cluster s)" and clk: "\<And>i. time_ok tt (clk i)"
    and rec: "Reconcile cl lib env clk req s = (out, s')"
  shows "statuses_valid tt cl (pr_Cluster s')"
  using rec
proof (cases rule: Reconcile_cases)
  case (act p h img s1)
  note w = decide_cluster [OF act(1)]
  have get: "kc_Get cl req (pr_Cluster s1) = Inr img" using decide_ActD(1) [OF act(1)] w by simp
  note i = statuses_validD [OF st decide_ActD(1) [OF act(1)]]
  have tgt: "PVENodeImageStatus_ok tt (im_Status (target_image lib p h clk img))"
    by (rule target_status_ok [OF ssc conjunct1 [OF i] conjunct2 [OF i] clk])
  from act(2) show ?thesis
  proof (cases rule: act_cases)
    case (error e)
    then show ?thesis using client_Update_error [OF cl error(3)] st w by simp
  next
    case ok
    have a: "act cl lib clk p h img s1 = ((delay p, None), s')" using act(2) ok(1) by simp
    obtain stored where stored: "kc_Get cl req (pr_Cluster s') = Inr stored"
      "same_but_version stored (target_image lib p h clk img)"
      using act_ok(1) [OF cl ssc get a] by blast
    note f = same_but_version_fields [OF stored(2)]
    show ?thesis
      unfolding statuses_valid_def
    proof (intro allI impI)
      fix req' img'
      assume g: "kc_Get cl req' (pr_Cluster s') = Inr img'"
      show "PVENodeImageStatus_ok tt (im_Status img') \<and> 0 \<le> sint (om_Generation (im_ObjectMeta img'))"
      proof (cases "req' = req")
        case True
        then show ?thesis using g stored(1) f(2,3) tgt i by simp
      next
        case False
        then show ?thesis using act_ok(5) [OF cl ssc get a False] g w statuses_validD [OF st] by simp
      qed
    qed
  qed
qed (use st decide_cluster in metis)+

text \<open>
  Claim C3. The API server never refuses a status of this controller: as long as the clock gives
  writable times, any sequence of passes on a server that validates every status against the
  schema goes exactly as on one that accepts everything, and leaves only valid statuses.
\<close>

theorem status_never_refused:
  assumes cl: "client_contract cl" and ssc: "SetStatusCondition_contract (kl_SetStatusCondition lib)"
    and st: "statuses_valid tt cl (pr_Cluster s)"
    and clk: "\<forall>((env, clk), req) \<in> set cs. \<forall>i. time_ok tt (clk i)"
  shows "passes (\<lambda>(env, clk) req. Reconcile (validating tt cl) lib env clk req) cs s =
      passes (\<lambda>(env, clk) req. Reconcile cl lib env clk req) cs s \<and>
    statuses_valid tt cl (pr_Cluster (snd (passes (\<lambda>(env, clk) req. Reconcile cl lib env clk req) cs s)))"
  using st clk
proof (induction cs arbitrary: s)
  case (Cons p cs)
  obtain env clk req where p: "p = ((env, clk), req)" by (metis prod.exhaust)
  obtain out s1 where f: "Reconcile cl lib env clk req s = (out, s1)" by fastforce
  have c: "time_ok tt (clk i)" for i using Cons.prems(2) p by auto
  have "statuses_valid tt cl (pr_Cluster s1)"
    by (rule pass_keeps_valid [OF cl ssc Cons.prems(1) c f])
  note ih = Cons.IH [OF this]
  have "passes (\<lambda>(env, clk) req. Reconcile (validating tt cl) lib env clk req) cs s1 =
      passes (\<lambda>(env, clk) req. Reconcile cl lib env clk req) cs s1 \<and>
    statuses_valid tt cl (pr_Cluster (snd (passes (\<lambda>(env, clk) req. Reconcile cl lib env clk req) cs s1)))"
    using Cons.prems(2) by (intro ih) simp
  moreover have "Reconcile (validating tt cl) lib env clk req s = (out, s1)"
    using f validating_pass [OF ssc Cons.prems(1) c] by simp
  moreover obtain outs t where "passes (\<lambda>(env, clk) req. Reconcile cl lib env clk req) cs s1 = (outs, t)" by fastforce
  ultimately show ?case by (simp add: p f)
qed simp

text \<open>A sample text form of times: every nonzero time is writable.\<close>

definition sampleTimes :: time_text where
  "sampleTimes = \<lparr>tt_Format = (\<lambda>t. ''2026-01-01T00:00:00Z''), tt_DateTime = (\<lambda>s. s = ''2026-01-01T00:00:00Z'')\<rparr>"

theorem status_never_refused_witness:
  "\<exists>out s'. passes (\<lambda>(env, clk) req. Reconcile (validating sampleTimes (mem_client anyJob)) mem_libs env clk req)
      [((sampleEnv, clock), sampleReq)] (sampleProcess sampleImage [completeJob]) = ([(Result0, None)], s') \<and>
     statuses_valid sampleTimes (mem_client anyJob) (pr_Cluster s')"
proof -
  let ?s = "sampleProcess sampleImage [completeJob]"
  have st: "statuses_valid sampleTimes (mem_client anyJob) (pr_Cluster ?s)"
    by (simp add: statuses_valid_def PVENodeImageStatus_ok_def Time_IsZero_def)
       (simp add: sampleImage_def)
  have clk: "\<forall>((env, clk), req) \<in> set [((sampleEnv, clock), sampleReq)]. \<forall>i. time_ok sampleTimes (clk i)"
    by (simp add: time_ok_def sampleTimes_def)
  obtain s' where "Reconcile (mem_client anyJob) mem_libs sampleEnv clock sampleReq ?s = ((Result0, None), s')"
    using sample_pass(2) by (auto simp: delay_def requeues_def)
  then have "passes (\<lambda>(env, clk) req. Reconcile (mem_client anyJob) mem_libs env clk req)
      [((sampleEnv, clock), sampleReq)] ?s = ([(Result0, None)], s')" by simp
  with status_never_refused [OF mem_client_ok mem_libs_ok st clk] show ?thesis by auto
qed

end
