(* ===== verification/Crd_Class.thy ===== *)
theory Crd_Class
  imports Crd_Json Go_Regexp Api_Types
begin

text \<open>
  The validation markers and JSON tags of \<open>api/v1alpha1/pvenodeclass_types.go\<close>: schemas, decoders
  and encoders of the spec of a node class, and what a stored node class guarantees its readers.
\<close>

section \<open>Schemas\<close>

definition nonempty :: schema where
  "nonempty = StringS (\<lambda>s. 1 \<le> runes s)"

definition NodeImageReference_schema :: schema where
  "NodeImageReference_schema = ObjectS [required ''name'' nonempty] (\<lambda>self. True)"

definition instance_name_pattern :: regexp where
  "instance_name_pattern = seq [Class (\<lambda>c. isLower c \<or> isDigit c),
     Rep (Class (\<lambda>c. isLower c \<or> isDigit c \<or> c = CHR ''-''))]"

definition InstanceType_schema :: schema where
  "InstanceType_schema = ObjectS
     [required ''name'' (StringS (\<lambda>s. 1 \<le> runes s \<and> full_match instance_name_pattern s)),
      required ''cpu'' (IntegerS (\<lambda>i. 1 \<le> i)),
      required ''memoryMiB'' (IntegerS (\<lambda>i. 512 \<le> i)),
      required ''diskGiB'' (IntegerS (\<lambda>i. 10 \<le> i))] (\<lambda>self. True)"

definition PlacementTarget_schema :: schema where
  "PlacementTarget_schema = ObjectS
     [required ''node'' nonempty, optional ''zone'' (StringS (\<lambda>s. True))] (\<lambda>self. True)"

definition NetworkConfig_schema :: schema where
  "NetworkConfig_schema = ObjectS
     [required ''bridge'' nonempty,
      optional ''vlanTag'' (IntegerS (\<lambda>i. 1 \<le> i \<and> i \<le> 4094)),
      defaulted ''firewall'' (JBool False) BooleanS] (\<lambda>self. True)"

definition PVENodeClassSpec_schema :: schema where
  "PVENodeClassSpec_schema = ObjectS
     [required ''nodeImageRef'' NodeImageReference_schema,
      required ''instanceTypes'' (ArrayS (\<lambda>js. 1 \<le> length js \<and> map_list ''name'' js) InstanceType_schema),
      required ''placementTargets'' (ArrayS (\<lambda>js. 1 \<le> length js \<and> map_list ''node'' js) PlacementTarget_schema),
      required ''storagePool'' (StringS (\<lambda>s. True)),
      required ''network'' NetworkConfig_schema,
      optional ''tags'' (ArrayS set_list (StringS (\<lambda>s. True)))] (\<lambda>self. True)"

section \<open>Decoding\<close>

definition decode_NodeImageReference :: "(string \<Rightarrow> json option) \<Rightarrow> NodeImageReference option" where
  "decode_NodeImageReference self = do {
     name \<leftarrow> read_field dec_string [] self ''name''; Some \<lparr>nr_Name = name\<rparr> }"

definition decode_InstanceType :: "(string \<Rightarrow> json option) \<Rightarrow> InstanceType option" where
  "decode_InstanceType self = do {
     name \<leftarrow> read_field dec_string [] self ''name'';
     cpu \<leftarrow> read_field dec_int 0 self ''cpu'';
     memory \<leftarrow> read_field dec_int 0 self ''memoryMiB'';
     disk \<leftarrow> read_field dec_int 0 self ''diskGiB'';
     Some \<lparr>it_Name = name, it_CPU = cpu, it_MemoryMiB = memory, it_DiskGiB = disk\<rparr> }"

definition decode_PlacementTarget :: "(string \<Rightarrow> json option) \<Rightarrow> PlacementTarget option" where
  "decode_PlacementTarget self = do {
     node \<leftarrow> read_field dec_string [] self ''node'';
     zone \<leftarrow> read_field dec_string [] self ''zone'';
     Some \<lparr>pt_Node = node, pt_Zone = zone\<rparr> }"

definition decode_NetworkConfig :: "(string \<Rightarrow> json option) \<Rightarrow> NetworkConfig option" where
  "decode_NetworkConfig self = do {
     bridge \<leftarrow> read_field dec_string [] self ''bridge'';
     vlanTag \<leftarrow> read_field (\<lambda>j. map_option Some (dec_int j)) None self ''vlanTag'';
     firewall \<leftarrow> read_field dec_bool False self ''firewall'';
     Some \<lparr>nc_Bridge = bridge, nc_VLANTag = vlanTag, nc_Firewall = firewall\<rparr> }"

definition zeroNetworkConfig :: NetworkConfig where
  "zeroNetworkConfig = \<lparr>nc_Bridge = [], nc_VLANTag = None, nc_Firewall = False\<rparr>"

definition decode_PVENodeClassSpec :: "(string \<Rightarrow> json option) \<Rightarrow> PVENodeClassSpec option" where
  "decode_PVENodeClassSpec self = do {
     ref \<leftarrow> read_field (dec_object decode_NodeImageReference) \<lparr>nr_Name = []\<rparr> self ''nodeImageRef'';
     its \<leftarrow> read_field (dec_list (dec_object decode_InstanceType)) [] self ''instanceTypes'';
     pts \<leftarrow> read_field (dec_list (dec_object decode_PlacementTarget)) [] self ''placementTargets'';
     pool \<leftarrow> read_field dec_string [] self ''storagePool'';
     net \<leftarrow> read_field (dec_object decode_NetworkConfig) zeroNetworkConfig self ''network'';
     tags \<leftarrow> read_field (dec_list dec_string) [] self ''tags'';
     Some \<lparr>cs_NodeImageRef = ref, cs_InstanceTypes = its, cs_PlacementTargets = pts,
           cs_StoragePool = pool, cs_Network = net, cs_Tags = tags\<rparr> }"

section \<open>Encoding\<close>

definition encode_NodeImageReference :: "NodeImageReference \<Rightarrow> json" where
  "encode_NodeImageReference r = JObj (always ''name'' (JString (nr_Name r)))"

definition encode_InstanceType :: "InstanceType \<Rightarrow> json" where
  "encode_InstanceType t = JObj (always ''name'' (JString (it_Name t)) @
     always ''cpu'' (JInt (sint (it_CPU t))) @ always ''memoryMiB'' (JInt (sint (it_MemoryMiB t))) @
     always ''diskGiB'' (JInt (sint (it_DiskGiB t))))"

definition encode_PlacementTarget :: "PlacementTarget \<Rightarrow> json" where
  "encode_PlacementTarget p = JObj (always ''node'' (JString (pt_Node p)) @
     omitzero JString [] ''zone'' (pt_Zone p))"

definition encode_NetworkConfig :: "NetworkConfig \<Rightarrow> json" where
  "encode_NetworkConfig n = JObj (always ''bridge'' (JString (nc_Bridge n)) @
     omitzero (\<lambda>v. JInt (sint (the v))) None ''vlanTag'' (nc_VLANTag n) @
     omitzero JBool False ''firewall'' (nc_Firewall n))"

definition encode_PVENodeClassSpec :: "PVENodeClassSpec \<Rightarrow> json" where
  "encode_PVENodeClassSpec s = JObj (
     always ''nodeImageRef'' (encode_NodeImageReference (cs_NodeImageRef s)) @
     always ''instanceTypes'' (JArr (map encode_InstanceType (cs_InstanceTypes s))) @
     always ''placementTargets'' (JArr (map encode_PlacementTarget (cs_PlacementTargets s))) @
     always ''storagePool'' (JString (cs_StoragePool s)) @
     always ''network'' (encode_NetworkConfig (cs_Network s)) @
     omitzero enc_strings [] ''tags'' (cs_Tags s))"

section \<open>What the schema says of a spec\<close>

definition InstanceType_ok :: "InstanceType \<Rightarrow> bool" where
  "InstanceType_ok t \<longleftrightarrow> matches instance_name_pattern (it_Name t) \<and> 1 \<le> sint (it_CPU t) \<and>
     512 \<le> sint (it_MemoryMiB t) \<and> 10 \<le> sint (it_DiskGiB t)"

definition NetworkConfig_ok :: "NetworkConfig \<Rightarrow> bool" where
  "NetworkConfig_ok n \<longleftrightarrow> 1 \<le> runes (nc_Bridge n) \<and>
     (\<forall>v. nc_VLANTag n = Some v \<longrightarrow> 1 \<le> sint v \<and> sint v \<le> 4094)"

definition PVENodeClassSpec_ok :: "PVENodeClassSpec \<Rightarrow> bool" where
  "PVENodeClassSpec_ok s \<longleftrightarrow> 1 \<le> runes (nr_Name (cs_NodeImageRef s)) \<and>
     cs_InstanceTypes s \<noteq> [] \<and> distinct (map it_Name (cs_InstanceTypes s)) \<and>
     (\<forall>t \<in> set (cs_InstanceTypes s). InstanceType_ok t) \<and>
     cs_PlacementTargets s \<noteq> [] \<and> distinct (map pt_Node (cs_PlacementTargets s)) \<and>
     (\<forall>p \<in> set (cs_PlacementTargets s). 1 \<le> runes (pt_Node p)) \<and>
     NetworkConfig_ok (cs_Network s) \<and> distinct (cs_Tags s)"

section \<open>Stored node classes\<close>

lemma nonempty_field:
  assumes "field_ok self (required n nonempty)" "read_field dec_string [] self n = Some v"
  shows "1 \<le> runes v"
  using assms string_field_ok [of self n True None "\<lambda>s. 1 \<le> runes s"] by (simp add: nonempty_def)

lemma decoded_InstanceType:
  assumes "valid InstanceType_schema j" "dec_object decode_InstanceType j = Some t"
  shows "InstanceType_ok t \<and> json_field ''name'' j = Some (JString (it_Name t))"
proof -
  obtain kvs where j: "j = JObj kvs"
    and n: "field_ok (map_of kvs) (required ''name'' (StringS (\<lambda>s. 1 \<le> runes s \<and> full_match instance_name_pattern s)))"
    and c: "field_ok (map_of kvs) (required ''cpu'' (IntegerS (\<lambda>i. 1 \<le> i)))"
    and m: "field_ok (map_of kvs) (required ''memoryMiB'' (IntegerS (\<lambda>i. 512 \<le> i)))"
    and d: "field_ok (map_of kvs) (required ''diskGiB'' (IntegerS (\<lambda>i. 10 \<le> i)))"
    using assms(1) unfolding InstanceType_schema_def valid_object_iff by force
  have r: "read_field dec_string [] (map_of kvs) ''name'' = Some (it_Name t)"
    "read_field dec_int 0 (map_of kvs) ''cpu'' = Some (it_CPU t)"
    "read_field dec_int 0 (map_of kvs) ''memoryMiB'' = Some (it_MemoryMiB t)"
    "read_field dec_int 0 (map_of kvs) ''diskGiB'' = Some (it_DiskGiB t)"
    using assms(2) by (auto simp: j dec_object_def decode_InstanceType_def bind_eq_Some_conv)
  have "map_of kvs ''name'' = Some (JString (it_Name t))"
    using string_field_ok [OF n] r(1) n by (auto simp: has_def string_at_def split: option.splits json.splits)
  moreover have "matches instance_name_pattern (it_Name t)"
    using string_field_ok [OF n] r(1) by (simp add: full_match_iff)
  ultimately show ?thesis
    using int_field_ok [OF c r(2)] int_field_ok [OF m r(3)] int_field_ok [OF d r(4)]
    by (simp add: j json_field_def InstanceType_ok_def)
qed

lemma decoded_PlacementTarget:
  assumes "valid PlacementTarget_schema j" "dec_object decode_PlacementTarget j = Some p"
  shows "1 \<le> runes (pt_Node p) \<and> json_field ''node'' j = Some (JString (pt_Node p))"
proof -
  obtain kvs where j: "j = JObj kvs" and n: "field_ok (map_of kvs) (required ''node'' (StringS (\<lambda>s. 1 \<le> runes s)))"
    using assms(1) unfolding PlacementTarget_schema_def nonempty_def valid_object_iff by force
  have r: "read_field dec_string [] (map_of kvs) ''node'' = Some (pt_Node p)"
    using assms(2) by (auto simp: j dec_object_def decode_PlacementTarget_def bind_eq_Some_conv)
  have "map_of kvs ''node'' = Some (JString (pt_Node p))"
    using string_field_ok [OF n] r n by (auto simp: has_def string_at_def split: option.splits json.splits)
  then show ?thesis using string_field_ok [OF n] r by (simp add: j json_field_def)
qed

lemma decoded_NetworkConfig:
  assumes "valid NetworkConfig_schema j" "dec_object decode_NetworkConfig j = Some c"
  shows "NetworkConfig_ok c"
proof -
  obtain kvs where j: "j = JObj kvs" and b: "field_ok (map_of kvs) (required ''bridge'' nonempty)"
    and v: "field_ok (map_of kvs) (optional ''vlanTag'' (IntegerS (\<lambda>i. 1 \<le> i \<and> i \<le> 4094)))"
    using assms(1) unfolding NetworkConfig_schema_def valid_object_iff by force
  have r: "read_field dec_string [] (map_of kvs) ''bridge'' = Some (nc_Bridge c)"
    "read_field (\<lambda>j. map_option Some (dec_int j)) None (map_of kvs) ''vlanTag'' = Some (nc_VLANTag c)"
    using assms(2) by (auto simp: j dec_object_def decode_NetworkConfig_def bind_eq_Some_conv)
  show ?thesis
    using nonempty_field [OF b r(1)] optional_int_field_ok [OF v r(2)] by (simp add: NetworkConfig_ok_def)
qed

lemma decoded_Reference:
  assumes "valid NodeImageReference_schema j" "dec_object decode_NodeImageReference j = Some r"
  shows "1 \<le> runes (nr_Name r)"
proof -
  obtain kvs where j: "j = JObj kvs" and b: "field_ok (map_of kvs) (required ''name'' nonempty)"
    using assms(1) unfolding NodeImageReference_schema_def valid_object_iff by force
  have "read_field dec_string [] (map_of kvs) ''name'' = Some (nr_Name r)"
    using assms(2) by (auto simp: j dec_object_def decode_NodeImageReference_def bind_eq_Some_conv)
  then show ?thesis by (rule nonempty_field [OF b])
qed

lemma decoded_field:
  assumes "field_ok self (required n s)" "read_field rd zero self n = Some x" "\<not> valid s JNull"
  shows "\<exists>j. valid s j \<and> rd j = Some x"
  using assms by (auto simp: read_field_def split: option.splits json.splits)

lemma decoded_spec_ok:
  assumes adm: "admit PVENodeClassSpec_schema j = Some j'"
    and dec: "dec_object decode_PVENodeClassSpec j' = Some s"
  shows "PVENodeClassSpec_ok s"
proof -
  obtain kvs where j': "j' = JObj kvs"
    and f: "field_ok (map_of kvs) (required ''nodeImageRef'' NodeImageReference_schema)"
      "field_ok (map_of kvs) (required ''instanceTypes''
         (ArrayS (\<lambda>js. 1 \<le> length js \<and> map_list ''name'' js) InstanceType_schema))"
      "field_ok (map_of kvs) (required ''placementTargets''
         (ArrayS (\<lambda>js. 1 \<le> length js \<and> map_list ''node'' js) PlacementTarget_schema))"
      "field_ok (map_of kvs) (required ''network'' NetworkConfig_schema)"
      "field_ok (map_of kvs) (optional ''tags'' (ArrayS set_list (StringS (\<lambda>s. True))))"
    using admit_object(1) [OF adm [unfolded PVENodeClassSpec_schema_def]]
    unfolding valid_object_iff by force
  have r: "read_field (dec_object decode_NodeImageReference) \<lparr>nr_Name = []\<rparr> (map_of kvs) ''nodeImageRef'' = Some (cs_NodeImageRef s)"
    "read_field (dec_list (dec_object decode_InstanceType)) [] (map_of kvs) ''instanceTypes'' = Some (cs_InstanceTypes s)"
    "read_field (dec_list (dec_object decode_PlacementTarget)) [] (map_of kvs) ''placementTargets'' = Some (cs_PlacementTargets s)"
    "read_field (dec_object decode_NetworkConfig) zeroNetworkConfig (map_of kvs) ''network'' = Some (cs_Network s)"
    "read_field (dec_list dec_string) [] (map_of kvs) ''tags'' = Some (cs_Tags s)"
    using dec by (auto simp: j' dec_object_def [of decode_PVENodeClassSpec] decode_PVENodeClassSpec_def bind_eq_Some_conv)
  have n: "\<not> valid NodeImageReference_schema JNull" "\<not> valid NetworkConfig_schema JNull"
    by (simp_all add: NodeImageReference_schema_def NetworkConfig_schema_def)
  note ref = decoded_field [OF f(1) r(1) n(1)] and net = decoded_field [OF f(4) r(4) n(2)]
  have its: "cs_InstanceTypes s \<noteq> [] \<and> distinct (map it_Name (cs_InstanceTypes s)) \<and>
      (\<forall>t \<in> set (cs_InstanceTypes s). InstanceType_ok t)"
    by (rule keyed_list_ok [OF f(2) r(2)]) (rule decoded_InstanceType)
  have pts: "cs_PlacementTargets s \<noteq> [] \<and> distinct (map pt_Node (cs_PlacementTargets s)) \<and>
      (\<forall>p \<in> set (cs_PlacementTargets s). 1 \<le> runes (pt_Node p))"
    by (rule keyed_list_ok [OF f(3) r(3)]) (rule decoded_PlacementTarget)
  have tags: "distinct (cs_Tags s)"
  proof (cases "map_of kvs ''tags''")
    case None
    then show ?thesis using r(5) by (simp add: read_field_def)
  next
    case (Some t)
    then obtain xs where "t = enc_strings xs" "distinct xs"
      using f(5) valid_strings [of set_list "\<lambda>s. True" t] by auto
    with Some r(5) show ?thesis by (simp add: read_field_def enc_strings_def [symmetric])
       (simp add: enc_strings_def dec_list_def dec_elems_map dec_string_def)
  qed
  show ?thesis
    unfolding PVENodeClassSpec_ok_def
    using ref net its pts tags decoded_Reference decoded_NetworkConfig by blast
qed

section \<open>Submitting a node class\<close>

declare map_of_append [simp del] fill_fields.simps(2) [simp del]

lemma pattern_nonempty: "matches instance_name_pattern s \<Longrightarrow> 1 \<le> runes s"
proof -
  assume "matches instance_name_pattern s"
  then obtain c t where "s = c # t" "isLower c \<or> isDigit c"
    by (auto simp: instance_name_pattern_def)
  then show ?thesis by (auto simp: runes_def cont_def isLower_def isDigit_def)
qed

lemma fill_parts:
  "fill NodeImageReference_schema (encode_NodeImageReference r) = encode_NodeImageReference r"
  "fill InstanceType_schema (encode_InstanceType t) = encode_InstanceType t"
  "fill PlacementTarget_schema (encode_PlacementTarget p) = encode_PlacementTarget p"
  "fill NetworkConfig_schema (encode_NetworkConfig n) =
     JObj (always ''bridge'' (JString (nc_Bridge n)) @
       omitzero (\<lambda>v. JInt (sint (the v))) None ''vlanTag'' (nc_VLANTag n) @
       always ''firewall'' (JBool (nc_Firewall n)))"
     apply (simp add: NodeImageReference_schema_def encode_NodeImageReference_def nonempty_def always_def fill_fields_Cons)
    apply (simp add: InstanceType_schema_def encode_InstanceType_def always_def fill_fields_Cons)
   apply (cases "pt_Zone p = []"; simp add: PlacementTarget_schema_def encode_PlacementTarget_def nonempty_def
      always_def omitzero_def fill_fields_Cons)
  apply (cases "nc_VLANTag n"; cases "nc_Firewall n"; simp add: NetworkConfig_schema_def encode_NetworkConfig_def
      nonempty_def always_def omitzero_def fill_fields_Cons)
  done

lemma valid_parts:
  "valid NodeImageReference_schema (encode_NodeImageReference r) \<longleftrightarrow> 1 \<le> runes (nr_Name r)"
  "valid InstanceType_schema (encode_InstanceType t) \<longleftrightarrow> InstanceType_ok t"
  "valid PlacementTarget_schema (encode_PlacementTarget p) \<longleftrightarrow> 1 \<le> runes (pt_Node p)"
  "valid NetworkConfig_schema (fill NetworkConfig_schema (encode_NetworkConfig n)) \<longleftrightarrow> NetworkConfig_ok n"
     apply (simp add: NodeImageReference_schema_def encode_NodeImageReference_def nonempty_def)
    apply (auto simp: InstanceType_schema_def encode_InstanceType_def InstanceType_ok_def full_match_iff
      dest: pattern_nonempty)[1]
   apply (simp add: PlacementTarget_schema_def encode_PlacementTarget_def nonempty_def split: option.split)
  apply (subst fill_parts(4), cases "nc_VLANTag n"; simp add: NetworkConfig_schema_def NetworkConfig_ok_def nonempty_def)
  done

lemma decode_parts:
  "dec_object decode_NodeImageReference (encode_NodeImageReference r) = Some r"
  "dec_object decode_InstanceType (encode_InstanceType t) = Some t"
  "dec_object decode_PlacementTarget (encode_PlacementTarget p) = Some p"
  "dec_object decode_NetworkConfig (fill NetworkConfig_schema (encode_NetworkConfig n)) = Some n"
     apply (simp add: dec_object_def decode_NodeImageReference_def encode_NodeImageReference_def read_field_def dec_string_def)
    apply (simp add: dec_object_def decode_InstanceType_def encode_InstanceType_def read_field_def dec_string_def dec_int_def)
   apply (simp add: dec_object_def decode_PlacementTarget_def encode_PlacementTarget_def read_field_def dec_string_def)
  apply (subst fill_parts(4), cases "nc_VLANTag n";
      simp add: dec_object_def decode_NetworkConfig_def read_field_def dec_string_def dec_int_def dec_bool_def)
  done

definition filled_class :: "PVENodeClassSpec \<Rightarrow> (string \<times> json) list" where
  "filled_class s = always ''nodeImageRef'' (encode_NodeImageReference (cs_NodeImageRef s)) @
     always ''instanceTypes'' (JArr (map encode_InstanceType (cs_InstanceTypes s))) @
     always ''placementTargets'' (JArr (map encode_PlacementTarget (cs_PlacementTargets s))) @
     always ''storagePool'' (JString (cs_StoragePool s)) @
     always ''network'' (fill NetworkConfig_schema (encode_NetworkConfig (cs_Network s))) @
     omitzero enc_strings [] ''tags'' (cs_Tags s)"

lemma filled_class_fields:
  "map_of (filled_class s) ''nodeImageRef'' = Some (encode_NodeImageReference (cs_NodeImageRef s))"
  "map_of (filled_class s) ''instanceTypes'' = Some (JArr (map encode_InstanceType (cs_InstanceTypes s)))"
  "map_of (filled_class s) ''placementTargets'' = Some (JArr (map encode_PlacementTarget (cs_PlacementTargets s)))"
  "map_of (filled_class s) ''storagePool'' = Some (JString (cs_StoragePool s))"
  "map_of (filled_class s) ''network'' = Some (fill NetworkConfig_schema (encode_NetworkConfig (cs_Network s)))"
  "map_of (filled_class s) ''tags'' = (if cs_Tags s = [] then None else Some (enc_strings (cs_Tags s)))"
  unfolding filled_class_def by simp_all

lemma fill_encode_class: "fill PVENodeClassSpec_schema (encode_PVENodeClassSpec s) = JObj (filled_class s)"
proof -
  define kvs where "kvs = always ''nodeImageRef'' (encode_NodeImageReference (cs_NodeImageRef s)) @
     always ''instanceTypes'' (JArr (map encode_InstanceType (cs_InstanceTypes s))) @
     always ''placementTargets'' (JArr (map encode_PlacementTarget (cs_PlacementTargets s))) @
     always ''storagePool'' (JString (cs_StoragePool s)) @
     always ''network'' (encode_NetworkConfig (cs_Network s)) @
     omitzero enc_strings [] ''tags'' (cs_Tags s)"
  have m: "map_of kvs ''nodeImageRef'' = Some (encode_NodeImageReference (cs_NodeImageRef s))"
    "map_of kvs ''instanceTypes'' = Some (JArr (map encode_InstanceType (cs_InstanceTypes s)))"
    "map_of kvs ''placementTargets'' = Some (JArr (map encode_PlacementTarget (cs_PlacementTargets s)))"
    "map_of kvs ''storagePool'' = Some (JString (cs_StoragePool s))"
    "map_of kvs ''network'' = Some (encode_NetworkConfig (cs_Network s))"
    "map_of kvs ''tags'' = (if cs_Tags s = [] then None else Some (enc_strings (cs_Tags s)))"
    unfolding kvs_def by simp_all
  have obj: "encode_NodeImageReference r \<noteq> JNull" "encode_NetworkConfig n \<noteq> JNull" for r n
    by (simp_all add: encode_NodeImageReference_def encode_NetworkConfig_def)
  have "fill PVENodeClassSpec_schema (JObj kvs) = JObj (filled_class s)"
    unfolding PVENodeClassSpec_schema_def filled_class_def
    by (simp add: fill_fields_Cons m obj fill_encode_strings fill_parts(1-3) comp_def always_def omitzero_def del: fill.simps(4))
       (simp add: fill_parts(2,3) comp_def)
  then show ?thesis by (simp add: kvs_def encode_PVENodeClassSpec_def)
qed

lemma keyed_names:
  "map_list ''name'' (map encode_InstanceType its) \<longleftrightarrow> distinct (map it_Name its)"
  "map_list ''node'' (map encode_PlacementTarget pts) \<longleftrightarrow> distinct (map pt_Node pts)"
proof -
  have "map (json_field ''name'') (map encode_InstanceType its) = map (Some \<circ> JString) (map it_Name its)"
    by (simp add: json_field_def encode_InstanceType_def)
  then show "map_list ''name'' (map encode_InstanceType its) \<longleftrightarrow> distinct (map it_Name its)"
    by (simp only: map_list_def distinct_map) (simp add: inj_on_def)
  have "map (json_field ''node'') (map encode_PlacementTarget pts) = map (Some \<circ> JString) (map pt_Node pts)"
    by (simp add: json_field_def encode_PlacementTarget_def)
  then show "map_list ''node'' (map encode_PlacementTarget pts) \<longleftrightarrow> distinct (map pt_Node pts)"
    by (simp only: map_list_def distinct_map) (simp add: inj_on_def)
qed

lemma valid_filled_class: "valid PVENodeClassSpec_schema (JObj (filled_class s)) \<longleftrightarrow> PVENodeClassSpec_ok s"
proof -
  have tags: "valid (ArrayS set_list (StringS (\<lambda>s. True))) (enc_strings xs) \<longleftrightarrow> distinct xs" for xs
    by (simp add: enc_strings_def)
  show ?thesis
    unfolding PVENodeClassSpec_schema_def valid.simps(5) json.case valid_fields.simps filled_class_fields
    by (auto simp: valid_parts keyed_names PVENodeClassSpec_ok_def tags Suc_le_eq simp del: valid.simps(4))
       (auto simp: valid_parts keyed_names)
qed

lemma decode_filled_class: "decode_PVENodeClassSpec (map_of (filled_class s)) = Some s"
proof -
  have objects: "encode_NodeImageReference r \<noteq> JNull" "fill NetworkConfig_schema (encode_NetworkConfig n) \<noteq> JNull" for r n
    by (simp_all add: encode_NodeImageReference_def fill_parts(4))
  define m where "m = map_of (filled_class s)"
  note f = filled_class_fields [of s, folded m_def]
  have "read_field (dec_object decode_NodeImageReference) \<lparr>nr_Name = []\<rparr> m ''nodeImageRef''
      = Some (cs_NodeImageRef s)"
    by (subst read_field_present [of m, OF f(1) objects(1)]) (rule decode_parts)
  moreover have "read_field (dec_list (dec_object decode_InstanceType)) [] m ''instanceTypes''
      = Some (cs_InstanceTypes s)"
    by (subst read_field_present [of m, OF f(2)]) (simp_all add: dec_list_def dec_elems_map decode_parts)
  moreover have "read_field (dec_list (dec_object decode_PlacementTarget)) [] m ''placementTargets''
      = Some (cs_PlacementTargets s)"
    by (subst read_field_present [of m, OF f(3)]) (simp_all add: dec_list_def dec_elems_map decode_parts)
  moreover have "read_field dec_string [] m ''storagePool'' = Some (cs_StoragePool s)"
    by (subst read_field_present [of m, OF f(4)]) (simp_all add: dec_string_def)
  moreover have "read_field (dec_object decode_NetworkConfig) zeroNetworkConfig m ''network''
      = Some (cs_Network s)"
    by (subst read_field_present [of m, OF f(5) objects(2)]) (rule decode_parts)
  moreover have "read_field (dec_list dec_string) [] m ''tags'' = Some (cs_Tags s)"
    by (rule read_strings) (rule f(6))
  ultimately show ?thesis by (simp add: decode_PVENodeClassSpec_def m_def [symmetric])
qed

interpretation class_type: api_type PVENodeClassSpec_schema encode_PVENodeClassSpec
    "dec_object decode_PVENodeClassSpec" PVENodeClassSpec_ok "\<lambda>s. True" "\<lambda>s. s"
  by unfold_locales
    (simp_all add: fill_encode_class valid_filled_class dec_object_def decode_filled_class)

section \<open>Properties\<close>

text \<open>
  Claim C23. Every stored node class that decodes has what its consumers divide by, look up and
  clone onto: at least one instance type and one placement target, each name once, positive
  processors, at least 512 MiB of memory and 10 GiB of disk, a VLAN tag between 1 and 4094 if any,
  and no empty reference, node or bridge.
\<close>

theorem admitted_class_ok:
  assumes "admit PVENodeClassSpec_schema j = Some j'"
    and "dec_object decode_PVENodeClassSpec j' = Some s"
  shows "PVENodeClassSpec_ok s"
  by (rule decoded_spec_ok [OF assms])

definition sampleClass :: PVENodeClassSpec where
  "sampleClass = \<lparr>
     cs_NodeImageRef = \<lparr>nr_Name = ''rke2-standard''\<rparr>,
     cs_InstanceTypes = [\<lparr>it_Name = ''small'', it_CPU = 2, it_MemoryMiB = 4096, it_DiskGiB = 30\<rparr>],
     cs_PlacementTargets = [\<lparr>pt_Node = ''pve-01'', pt_Zone = []\<rparr>],
     cs_StoragePool = ''local-lvm'',
     cs_Network = \<lparr>nc_Bridge = ''vmbr0'', nc_VLANTag = Some 20, nc_Firewall = False\<rparr>,
     cs_Tags = [''karpenter'']\<rparr>"

lemma sampleClass_ok: "PVENodeClassSpec_ok sampleClass"
  unfolding PVENodeClassSpec_ok_def InstanceType_ok_def full_match_iff [symmetric] sampleClass_def NetworkConfig_ok_def
  by (simp add: runes_def cont_def) code_simp

theorem admitted_class_ok_witness:
  "\<exists>j'. admit PVENodeClassSpec_schema (encode_PVENodeClassSpec sampleClass) = Some j' \<and>
     dec_object decode_PVENodeClassSpec j' = Some sampleClass \<and> PVENodeClassSpec_ok sampleClass"
proof -
  have a: "admit PVENodeClassSpec_schema (encode_PVENodeClassSpec sampleClass) = Some (JObj (filled_class sampleClass))"
    by (simp only: admit_def fill_encode_class valid_filled_class sampleClass_ok if_True)
  have d: "dec_object decode_PVENodeClassSpec (JObj (filled_class sampleClass)) = Some sampleClass"
    by (simp add: dec_object_def decode_filled_class)
  show ?thesis using a d admitted_class_ok [OF a d] by blast
qed

text \<open>
  Claim C24. Submitting a node class from Go and reading it back: it is accepted exactly when it
  satisfies the constraints of the markers, and then comes back as it was, the firewall
  defaulting to the zero value that the encoder leaves out.
\<close>

theorem submit_class:
  "Option.bind (admit PVENodeClassSpec_schema (encode_PVENodeClassSpec s)) (dec_object decode_PVENodeClassSpec) =
     (if PVENodeClassSpec_ok s then Some s else None)"
  using class_type.submit_iff [of s] by (simp only: class_type.submit_def simp_thms if_True)

end
