(* ===== verification/Packer_Variables.thy ===== *)
theory Packer_Variables
  imports Cluster_Init Pkrvars
begin

text \<open>
  The two kinds of variable file against the variables that the Packer template declares
  (\<open>internal/packer/templates/base.pkr.hcl\<close>): which assignments a file makes, of which type, and
  which of the variables without a default it leaves without a value. A value
  fits only if no conversion between strings, numbers and lists is needed; Packer refuses a build
  with a variable unset.
\<close>

section \<open>The declarations\<close>

datatype hcl_type = StringT | NumberT | ListStringT

text \<open>Name, type, and whether there is a default.\<close>

definition declaredVariables :: "(string \<times> hcl_type \<times> bool) list" where
  "declaredVariables = [
     (''proxmox_node'', StringT, False),
     (''proxmox_api_url'', StringT, False),
     (''proxmox_api_token_id'', StringT, False),
     (''proxmox_api_token_secret'', StringT, False),
     (''storage_pool'', StringT, False),
     (''iso_storage_pool'', StringT, False),
     (''disk_format'', StringT, True),
     (''iso_file'', StringT, True),
     (''iso_checksum'', StringT, True),
     (''iso_url'', StringT, True),
     (''network_bridge'', StringT, False),
     (''network_vlan_tag'', NumberT, True),
     (''vm_id'', NumberT, False),
     (''template_name'', StringT, False),
     (''template_description'', StringT, True),
     (''distribution_type'', StringT, True),
     (''distribution_version'', StringT, True),
     (''timezone'', StringT, True),
     (''extra_packages'', ListStringT, True),
     (''ssh_authorized_keys'', ListStringT, True)]"

section \<open>The assignments of a file\<close>

text \<open>
  A line that assigns starts with its name; blank lines, comments, list elements (indented) and
  the end of a list do not. The first character of the value tells its type.
\<close>

definition assignment :: "string \<Rightarrow> (string \<times> hcl_type) option" where
  "assignment l =
     (if l = [] \<or> hd l \<in> {CHR ''#'', CHR '' '', CHR '']''} then None
      else let name = takeWhile (\<lambda>c. c \<noteq> CHR '' '' \<and> c \<noteq> CHR ''='') l;
               value = dropWhile (\<lambda>c. c = CHR '' '') (tl (dropWhile (\<lambda>c. c \<noteq> CHR ''='') l))
           in if value = [] then None
              else Some (name, if hd value = dquote then StringT
                               else if hd value = CHR ''['' then ListStringT else NumberT))"

definition assignments :: "string \<Rightarrow> (string \<times> hcl_type) list" where
  "assignments txt = List.map_filter assignment (splitOn (CHR 0x0A) txt)"

text \<open>Every assignment is to a declared variable of its type, none is made twice.\<close>

definition well_typed_file :: "string \<Rightarrow> bool" where
  "well_typed_file txt \<longleftrightarrow> distinct (map fst (assignments txt)) \<and>
     list_all (\<lambda>(n, t). list_ex (\<lambda>(m, u, d). m = n \<and> u = t) declaredVariables) (assignments txt)"

text \<open>The variables that have no default and that the file does not assign.\<close>

definition unset_variables :: "string \<Rightarrow> string list" where
  "unset_variables txt =
     map fst (filter (\<lambda>(n, t, d). \<not> d \<and> n \<notin> fst ` set (assignments txt)) declaredVariables)"

section \<open>The lines of a rendered file\<close>

definition plain_key :: "string \<Rightarrow> bool" where
  "plain_key k \<longleftrightarrow> k \<noteq> [] \<and> hd k \<notin> {CHR ''#'', CHR '' '', CHR '']''} \<and>
     CHR '' '' \<notin> set k \<and> CHR ''='' \<notin> set k"

lemma assignment_line:
  assumes "plain_key k" "v \<noteq> []" "hd v \<noteq> CHR '' ''"
  shows "assignment (k @ '' = '' @ v) =
     Some (k, if hd v = dquote then StringT else if hd v = CHR ''['' then ListStringT else NumberT)"
proof -
  have tw: "takeWhile (\<lambda>c. c \<noteq> CHR '' '' \<and> c \<noteq> CHR ''='') (k @ '' = '' @ v) = k"
    using assms(1) by (subst takeWhile_append2) (auto simp: plain_key_def)
  have dw: "dropWhile (\<lambda>c. c \<noteq> CHR ''='') (k @ '' = '' @ v) = ''= '' @ v"
    using assms(1) by (subst dropWhile_append2) (auto simp: plain_key_def)
  have v: "dropWhile (\<lambda>c. c = CHR '' '') (tl (''= '' @ v)) = v"
    using assms(2,3) by (cases v) simp_all
  have "k @ '' = '' @ v \<noteq> []" "hd (k @ '' = '' @ v) = hd k"
    using assms(1) by (cases k; simp add: plain_key_def)+
  then have "\<not> (k @ '' = '' @ v = [] \<or> hd (k @ '' = '' @ v) \<in> {CHR ''#'', CHR '' '', CHR '']''})"
    using assms(1) unfolding plain_key_def by metis
  then show ?thesis
    unfolding assignment_def Let_def tw dw v using assms(2) by (simp only: if_False)
qed

lemma fmt_d_head: "fmt_d i \<noteq> []" "hd (fmt_d i) \<noteq> CHR '' ''" "hd (fmt_d i) \<noteq> dquote" "hd (fmt_d i) \<noteq> CHR ''[''"
proof -
  show ne: "fmt_d i \<noteq> []" by (simp add: fmt_d_def)
  have "isDigit (hd (fmt_d i)) \<or> hd (fmt_d i) = CHR ''-''"
    by (rule fmt_d_chars [of _ i]) (simp add: ne)
  then show "hd (fmt_d i) \<noteq> CHR '' ''" "hd (fmt_d i) \<noteq> dquote" "hd (fmt_d i) \<noteq> CHR ''[''"
    by (auto simp: isDigit_def)
qed

lemma assignment_assignLine: "plain_key k \<Longrightarrow> assignment (assignLine up k v) = Some (k, StringT)"
  unfolding assignLine_def by (subst assignment_line) (simp_all add: quote_def)

lemma assignment_number: "plain_key k \<Longrightarrow> assignment (k @ '' = '' @ fmt_d i) = Some (k, NumberT)"
  by (subst assignment_line) (simp_all add: fmt_d_head)

lemma assignment_item: "assignment (''  '' @ x) = None" "assignment '']'' = None" "assignment [] = None"
  by (simp_all add: assignment_def)

lemma map_filter_append: "List.map_filter f (xs @ ys) = List.map_filter f xs @ List.map_filter f ys"
  by (simp add: List.map_filter_def)

lemma assignments_list:
  assumes "plain_key k"
  shows "List.map_filter assignment (listLines up k vs) = [(k, ListStringT)]"
proof (cases "vs = []")
  case True
  have "assignment (k @ '' = '' @ ''[]'') = Some (k, ListStringT)"
    by (subst assignment_line [OF assms]) simp_all
  with True show ?thesis by (simp add: listLines_def map_filter_simps)
next
  case False
  have "assignment (k @ '' = '' @ ''['') = Some (k, ListStringT)"
    by (subst assignment_line [OF assms]) simp_all
  moreover have "List.map_filter assignment (map (\<lambda>v. ''  '' @ quote up v @ '','') vs) = []"
    by (induction vs) (simp_all add: map_filter_simps assignment_item(1) [simplified])
  ultimately show ?thesis
    using False assignment_item(2) by (simp add: listLines_def map_filter_simps map_filter_append)
qed

section \<open>Properties\<close>

definition pkrvarsAssignments :: "(string \<times> hcl_type) list" where
  "pkrvarsAssignments =
     [(''proxmox_node'', StringT), (''storage_pool'', StringT), (''iso_storage_pool'', StringT),
      (''network_bridge'', StringT), (''vm_id'', NumberT), (''template_name'', StringT),
      (''template_description'', StringT), (''distribution_type'', StringT),
      (''distribution_version'', StringT), (''timezone'', StringT), (''extra_packages'', ListStringT),
      (''ssh_authorized_keys'', ListStringT), (''iso_url'', StringT), (''iso_checksum'', StringT),
      (''iso_file'', StringT)]"

lemma assignments_pkrvars: "assignments (renderPkrvars up inp) = pkrvarsAssignments"
proof -
  have keys: "list_all plain_key (map fst pkrvarsAssignments)" by code_simp
  have c: "assignment ''# Generated by karpenter-provider-pve. Do not edit.'' = None"
    by (simp add: assignment_def)
  have "assignment (''vm_id'' @ '' = '' @ fmt_d i) = Some (''vm_id'', NumberT)" for i
    by (rule assignment_number) (simp add: plain_key_def)
  note vm = this [unfolded append.simps]
  have "assignments (renderPkrvars up inp) = List.map_filter assignment (pkrvarsLines up inp @ [[]])"
    unfolding assignments_def renderPkrvars_unlines
    by (simp only: splitOn_unlines [OF ballI [OF pkrvarsLines_no_nl]])
  also have "\<dots> = pkrvarsAssignments"
    using keys
    by (simp only: pkrvarsLines_def pkrvarsAssignments_def map_filter_append map_filter_simps c vm assignment_item(3)
        assignment_assignLine assignment_number assignments_list list.pred_inject list.map fst_conv option.case append.simps)
  finally show ?thesis .
qed

text \<open>
  Claim C17. The variable file that the controller renders fits the template, whatever the input
  holds: it assigns each of its fifteen variables once, all of them declared and each with a
  value of the declared type; the only variables it leaves without a value are the three
  credentials of the Proxmox API, which are not to be in the file.
\<close>

theorem rendered_file_fits_template:
  "well_typed_file (renderPkrvars up inp) \<and> assignments (renderPkrvars up inp) = pkrvarsAssignments \<and>
   unset_variables (renderPkrvars up inp) =
     [''proxmox_api_url'', ''proxmox_api_token_id'', ''proxmox_api_token_secret'']"
proof -
  have w: "distinct (map fst pkrvarsAssignments)"
    "list_all (\<lambda>(n, t). list_ex (\<lambda>(m, u, d). m = n \<and> u = t) declaredVariables) pkrvarsAssignments"
    "map fst (filter (\<lambda>(n, t, d). \<not> d \<and> n \<notin> fst ` set pkrvarsAssignments) declaredVariables) =
       [''proxmox_api_url'', ''proxmox_api_token_id'', ''proxmox_api_token_secret'']"
    by code_simp+
  show ?thesis
    unfolding well_typed_file_def unset_variables_def assignments_pkrvars using w by simp
qed

definition configAssignments :: "(string \<times> hcl_type) list" where
  "configAssignments =
     [(''proxmox_node'', StringT), (''proxmox_api_url'', StringT), (''proxmox_api_token_id'', StringT),
      (''proxmox_api_token_secret'', StringT), (''storage_pool'', StringT), (''iso_file'', StringT),
      (''iso_url'', StringT), (''iso_checksum'', StringT), (''disk_format'', StringT),
      (''network_bridge'', StringT), (''vm_id'', NumberT), (''timezone'', StringT),
      (''template_name'', StringT), (''template_description'', StringT)]"

lemma assignments_config: "assignments configTemplate = configAssignments"
proof -
  have "assignments configTemplate = List.map_filter assignment (configLines @ [[]])"
    unfolding assignments_def configTemplate_def
    by (simp only: splitOn_terminated [OF configLines_no_newline])
  also have "\<dots> = configAssignments"
    by code_simp
  finally show ?thesis .
qed

lemma configTemplate_assigns:
  "map fst (assignments configTemplate) =
     [''proxmox_node'', ''proxmox_api_url'', ''proxmox_api_token_id'', ''proxmox_api_token_secret'',
      ''storage_pool'', ''iso_file'', ''iso_url'', ''iso_checksum'', ''disk_format'', ''network_bridge'',
      ''vm_id'', ''timezone'', ''template_name'', ''template_description'']"
  by (simp add: assignments_config configAssignments_def)

text \<open>
  Claim C38. The file that \<open>init\<close> writes assigns only declared variables, each once and with a
  value of the declared type; but it sets both ways of giving the boot ISO, of which it says to
  give one, and it leaves one variable without a value that the template needs, the storage
  pool of the ISO, although it says that this one has a default: Packer refuses the file as it is.
\<close>

theorem config_file_fits_template:
  "well_typed_file configTemplate \<and> assignments configTemplate = configAssignments \<and>
   {''iso_file'', ''iso_url'', ''iso_checksum''} \<subseteq> fst ` set (assignments configTemplate) \<and>
   unset_variables configTemplate = [''iso_storage_pool'']"
proof -
  have w: "distinct (map fst configAssignments)"
    "list_all (\<lambda>(n, t). list_ex (\<lambda>(m, u, d). m = n \<and> u = t) declaredVariables) configAssignments"
    "map fst (filter (\<lambda>(n, t, d). \<not> d \<and> n \<notin> fst ` set configAssignments) declaredVariables) =
       [''iso_storage_pool'']"
    "{''iso_file'', ''iso_url'', ''iso_checksum''} \<subseteq> fst ` set configAssignments"
    by code_simp+
  show ?thesis
    unfolding well_typed_file_def unset_variables_def assignments_config using w by simp
qed

end
