(* ===== verification/Work_Queue.thy ===== *)
theory Work_Queue
  imports Reconcilers Image_Trace Manager_Main
begin

text \<open>
  What wakes the image reconciler: the registration of \<open>SetupWithManager\<close> together with the results
  of \<open>Reconcile\<close>. The controller keeps a set of requests, its work queue. A change of an image
  puts its request there (\<open>For\<close>), a change of a Job the requests of the images that control it
  (\<open>Watches\<close> with \<open>OnlyControllerOwner\<close>), a pass that fails or asks for a delay its own request,
  and a start all stored images. The invariant says that no image is forgotten: what is not in
  the queue shows the right status. With nobody else acting the passes over images whose phase asks
  for no further pass end; only an image in phase \<open>Succeeded\<close> wakes itself.
\<close>

section \<open>Wake-ups\<close>

text \<open>
  The documented mapping of \<open>handler.EnqueueRequestForOwner\<close> for an owner without namespace: the
  owners of the kind, only the controlling one if so asked.
\<close>

definition enqueue_contract :: "(owner_watch \<Rightarrow> Job \<Rightarrow> NamespacedName list) \<Rightarrow> bool" where
  "enqueue_contract enq \<longleftrightarrow> (\<forall>w j req. req \<in> set (enq w j) \<longleftrightarrow> nn_Namespace req = [] \<and>
     (\<exists>r \<in> set (om_OwnerReferences (jb_ObjectMeta j)). or_Kind r = ow_OwnerKind w \<and>
        or_Name r = nn_Name req \<and> (ow_OnlyController w \<longrightarrow> or_Controller r = Some True)))"

text \<open>The registration that \<open>SetupWithManager\<close> completes.\<close>

definition imageRegistration :: registration where
  "imageRegistration = hd (snd (SetupPVENodeImage (\<lambda>m r w. (None, w @ [r])) () []))"

definition wakes :: "(owner_watch \<Rightarrow> Job \<Rightarrow> NamespacedName list) \<Rightarrow> Job \<Rightarrow> NamespacedName \<Rightarrow> bool" where
  "wakes enq j req \<longleftrightarrow>
     (\<exists>w \<in> set (rg_Watches imageRegistration). ow_Kind w = ''Job'' \<and> req \<in> set (enq w j))"

text \<open>
  Two states of the cluster: the requests whose image differs, and the ones that a Job wakes
  because the Jobs that map to them differ.
\<close>

definition changed :: "'w kube_client \<Rightarrow> 'w \<Rightarrow> 'w \<Rightarrow> NamespacedName set" where
  "changed cl w w' = {req. rg_For imageRegistration = ''PVENodeImage'' \<and> kc_Get cl req w' \<noteq> kc_Get cl req w}"

lemma changed_iff: "changed cl w w' = {req. kc_Get cl req w' \<noteq> kc_Get cl req w}"
  by (simp add: changed_def imageRegistration_def SetupPVENodeImage_def)

definition own_jobs ::
    "'w kube_client \<Rightarrow> (owner_watch \<Rightarrow> Job \<Rightarrow> NamespacedName list) \<Rightarrow> NamespacedName \<Rightarrow> ListOptions \<Rightarrow> 'w \<Rightarrow> Job list result" where
  "own_jobs cl enq req opts w = map_sum id (filter (\<lambda>j. wakes enq j req)) (kc_List cl opts w)"

definition woken ::
    "'w kube_client \<Rightarrow> (owner_watch \<Rightarrow> Job \<Rightarrow> NamespacedName list) \<Rightarrow> 'w \<Rightarrow> 'w \<Rightarrow> NamespacedName set" where
  "woken cl enq w w' = {req. \<exists>opts. own_jobs cl enq req opts w' \<noteq> own_jobs cl enq req opts w}"

section \<open>Runs with a queue\<close>

record 'w controller =
  ct_Process :: "'w process"
  ct_Queue :: "NamespacedName set"

text \<open>
  What is asked of the Jobs: the one owner that \<open>Reconcile\<close> recognizes by its UID is the controlling
  one, of the right kind and name, and images have no namespace.
\<close>

definition jobs_controlled :: "'w kube_client \<Rightarrow> 'w \<Rightarrow> bool" where
  "jobs_controlled cl w \<longleftrightarrow> (\<forall>opts jobs j req img. kc_List cl opts w = Inr jobs \<longrightarrow> j \<in> set jobs \<longrightarrow>
     kc_Get cl req w = Inr img \<longrightarrow> isOwnedBy j img \<longrightarrow> nn_Namespace req = [] \<and>
     (\<exists>r \<in> set (om_OwnerReferences (jb_ObjectMeta j)). or_Kind r = ''PVENodeImage'' \<and>
        or_Name r = om_Name (im_ObjectMeta img) \<and> or_Controller r = Some True))"

definition stored_requests :: "'w kube_client \<Rightarrow> 'w \<Rightarrow> NamespacedName set" where
  "stored_requests cl w = {req. \<exists>img. kc_Get cl req w = Inr img}"

definition requeued :: "NamespacedName \<Rightarrow> Result \<times> go_error option \<Rightarrow> NamespacedName set" where
  "requeued req out = (if snd out \<noteq> None \<or> RequeueAfter (fst out) \<noteq> 0 then {req} else {})"

text \<open>
  The client reads from a cache: a read of a state succeeds or reports that the object is not
  there.
\<close>

definition readable :: "'w kube_client \<Rightarrow> kube_libs \<Rightarrow> 'w \<Rightarrow> bool" where
  "readable cl lib w \<longleftrightarrow> (\<forall>opts. \<exists>jobs. kc_List cl opts w = Inr jobs) \<and>
     (\<forall>req e. kc_Get cl req w = Inl e \<longrightarrow> kl_IsNotFound lib e)"

text \<open>
  A step is one pass over a waiting request, a change of the cluster that others make, or a
  restart of the process, which forgets its namespace and receives every stored image. That a
  delay is over before its request is worked on is not asked for.
\<close>

inductive queue_step ::
    "'w kube_client \<Rightarrow> kube_libs \<Rightarrow> (owner_watch \<Rightarrow> Job \<Rightarrow> NamespacedName list)
       \<Rightarrow> 'w controller \<Rightarrow> 'w controller \<Rightarrow> bool"
  for cl lib enq where
  work: "req \<in> ct_Queue c \<Longrightarrow> Reconcile cl lib env clk req (ct_Process c) = (out, s') \<Longrightarrow>
    queue_step cl lib enq c \<lparr>ct_Process = s',
      ct_Queue = (ct_Queue c - {req}) \<union> requeued req out \<union>
        changed cl (pr_Cluster (ct_Process c)) (pr_Cluster s')\<rparr>"
| cluster: "jobs_controlled cl w' \<Longrightarrow> readable cl lib w' \<Longrightarrow>
    queue_step cl lib enq c \<lparr>ct_Process = (ct_Process c)\<lparr>pr_Cluster := w'\<rparr>,
      ct_Queue = ct_Queue c \<union> changed cl (pr_Cluster (ct_Process c)) w' \<union>
        woken cl enq (pr_Cluster (ct_Process c)) w'\<rparr>"
| restart: "queue_step cl lib enq c \<lparr>ct_Process = (ct_Process c)\<lparr>pr_Namespace := ns_init\<rparr>,
      ct_Queue = stored_requests cl (pr_Cluster (ct_Process c))\<rparr>"

inductive queue_run ::
    "'w kube_client \<Rightarrow> kube_libs \<Rightarrow> (owner_watch \<Rightarrow> Job \<Rightarrow> NamespacedName list) \<Rightarrow> 'w controller \<Rightarrow> bool"
  for cl lib enq where
  start: "jobs_controlled cl w \<Longrightarrow> readable cl lib w \<Longrightarrow>
    queue_run cl lib enq \<lparr>ct_Process = \<lparr>pr_Cluster = w, pr_Namespace = ns_init\<rparr>,
      ct_Queue = stored_requests cl w\<rparr>"
| step: "queue_run cl lib enq c \<Longrightarrow> queue_step cl lib enq c c' \<Longrightarrow> queue_run cl lib enq c'"

section \<open>What a decision depends on\<close>

definition namespace_in :: "process_env \<Rightarrow> 'w process \<Rightarrow> string" where
  "namespace_in env s = fst (controllerNamespace env (pr_Namespace s))"

definition build_job :: "'w kube_client \<Rightarrow> string \<Rightarrow> PVENodeImage \<Rightarrow> string \<Rightarrow> 'w \<Rightarrow> Job option result" where
  "build_job cl ns img h w =
     map_sum id (\<lambda>jobs. findOwned jobs img) (kc_List cl \<lparr>lo_Namespace = ns,
       lo_MatchingLabels = [labelSpecHash \<mapsto> h, labelManagedByCR \<mapsto> om_Name (im_ObjectMeta img)]\<rparr> w)"

lemma findBuildJob_fst:
  "fst (findBuildJob cl env img h s) = build_job cl (namespace_in env s) img h (pr_Cluster s)"
  by (auto simp: findBuildJob_def build_job_def namespace_in_def Let_def split: prod.split sum.split)

text \<open>The decision on a stored live image.\<close>

definition verdict :: "'w kube_client \<Rightarrow> kube_libs \<Rightarrow> string \<Rightarrow> PVENodeImage \<Rightarrow> 'w \<Rightarrow> decision" where
  "verdict cl lib ns img w = (case hashSpec lib (im_Spec img) of
     Inl err \<Rightarrow> Abort (Wrap ''hash spec'' err)
   | Inr h \<Rightarrow> if is_current img h then Act Current h img
       else (case build_job cl ns img h w of
         Inl err \<Rightarrow> Abort (Wrap ''find build job'' err) | Inr oj \<Rightarrow> Act (job_phase oj) h img))"

lemma decide_verdict:
  assumes "kc_Get cl req (pr_Cluster s) = Inr img" "Time_IsZero (om_DeletionTimestamp (im_ObjectMeta img))"
  shows "fst (decide cl lib env req s) = verdict cl lib (namespace_in env s) img (pr_Cluster s)"
  using assms findBuildJob_fst [of cl env img _ s]
  by (auto simp: decide_def verdict_def split: sum.split prod.split) (metis fst_conv Inl_Inr_False sum.inject)+

lemma find_filter: "(\<And>x. x \<in> set xs \<Longrightarrow> P x \<Longrightarrow> Q x) \<Longrightarrow> List.find P (filter Q xs) = List.find P xs"
  by (induction xs) auto

lemma controlled_wakes:
  assumes enq: "enqueue_contract enq" and r: "r \<in> set (om_OwnerReferences (jb_ObjectMeta j))"
    "or_Kind r = ''PVENodeImage''" "or_Name r = nn_Name req" "or_Controller r = Some True" "nn_Namespace req = []"
  shows "wakes enq j req"
proof -
  let ?w = "\<lparr>ow_Kind = ''Job'', ow_OwnerKind = ''PVENodeImage'', ow_OnlyController = True\<rparr>"
  have "?w \<in> set (rg_Watches imageRegistration)"
    by (simp add: imageRegistration_def SetupPVENodeImage_def)
  moreover have "req \<in> set (enq ?w j)"
    using enq r unfolding enqueue_contract_def by auto
  ultimately show ?thesis unfolding wakes_def by (intro bexI [of _ ?w]) simp_all
qed

text \<open>The build Job is found among the Jobs that wake the image.\<close>

lemma build_job_own:
  assumes cl: "client_contract cl" and enq: "enqueue_contract enq" and ctl: "jobs_controlled cl w"
    and get: "kc_Get cl req w = Inr img"
  shows "build_job cl ns img h w = map_sum id (\<lambda>jobs. findOwned jobs img)
     (own_jobs cl enq req \<lparr>lo_Namespace = ns,
       lo_MatchingLabels = [labelSpecHash \<mapsto> h, labelManagedByCR \<mapsto> om_Name (im_ObjectMeta img)]\<rparr> w)"
proof -
  let ?opts = "\<lparr>lo_Namespace = ns,
       lo_MatchingLabels = [labelSpecHash \<mapsto> h, labelManagedByCR \<mapsto> om_Name (im_ObjectMeta img)]\<rparr>"
  have name: "nn_Name req = om_Name (im_ObjectMeta img)"
    using client_Get_key [OF cl get] by (auto simp: key_of_def)
  show ?thesis
  proof (cases "kc_List cl ?opts w")
    case (Inl e)
    then show ?thesis by (simp add: build_job_def own_jobs_def)
  next
    case (Inr jobs)
    have "wakes enq j req" if j: "j \<in> set jobs" "isOwnedBy j img" for j
    proof -
      have "nn_Namespace req = [] \<and>
         (\<exists>r \<in> set (om_OwnerReferences (jb_ObjectMeta j)). or_Kind r = ''PVENodeImage'' \<and>
           or_Name r = om_Name (im_ObjectMeta img) \<and> or_Controller r = Some True)"
        using ctl Inr j get unfolding jobs_controlled_def by blast
      then show ?thesis by (elim conjE bexE) (rule controlled_wakes [OF enq], simp_all add: name)
    qed
    then have "List.find (\<lambda>j. isOwnedBy j img) (filter (\<lambda>j. wakes enq j req) jobs) =
        List.find (\<lambda>j. isOwnedBy j img) jobs"
      by (rule find_filter)
    with Inr show ?thesis by (simp add: build_job_def own_jobs_def findOwned_find)
  qed
qed

section \<open>The invariant\<close>

definition settled :: "'w kube_client \<Rightarrow> kube_libs \<Rightarrow> 'w process \<Rightarrow> PVENodeImage \<Rightarrow> bool" where
  "settled cl lib s img \<longleftrightarrow> (\<exists>p h. (\<forall>env. verdict cl lib (namespace_in env s) img (pr_Cluster s) = Act p h img) \<and>
     p \<notin> {Pending, Running} \<and> has_row img ConditionTypeBuilding (building_row p) \<and>
     has_row img ConditionTypeBuildSucceeded (succeeded_row p))"

definition queue_inv :: "'w kube_client \<Rightarrow> kube_libs \<Rightarrow> 'w controller \<Rightarrow> bool" where
  "queue_inv cl lib c \<longleftrightarrow> jobs_controlled cl (pr_Cluster (ct_Process c)) \<and>
     (\<forall>req img. kc_Get cl req (pr_Cluster (ct_Process c)) = Inr img \<longrightarrow>
        Time_IsZero (om_DeletionTimestamp (im_ObjectMeta img)) \<longrightarrow> req \<notin> ct_Queue c \<longrightarrow>
        settled cl lib (ct_Process c) img)"

text \<open>Settled images stay settled while their Jobs stay the same and the namespace is only resolved.\<close>

lemma verdict_cong:
  "(\<And>h. build_job cl ns img h w' = build_job cl ns img h w) \<Longrightarrow>
     verdict cl lib ns img w' = verdict cl lib ns img w"
  by (cases "hashSpec lib (im_Spec img)") (simp_all add: verdict_def)

lemma settled_transfer:
  assumes "settled cl lib s img"
    and "\<And>ns h. build_job cl ns img h (pr_Cluster s') = build_job cl ns img h (pr_Cluster s)"
    and "\<And>env. \<exists>env0. namespace_in env s' = namespace_in env0 s"
  shows "settled cl lib s' img"
  using assms(1,3) verdict_cong [OF assms(2)] unfolding settled_def by metis

lemma namespace_cached: "namespaceOnce (pr_Namespace s) \<Longrightarrow> namespace_in env s = cachedNamespace (pr_Namespace s)"
  by (simp add: namespace_in_def controllerNamespace_cached)

lemma namespace_after:
  assumes "pr_Namespace s' = pr_Namespace s \<or> pr_Namespace s' = snd (controllerNamespace env0 (pr_Namespace s))"
  shows "\<exists>env1. namespace_in env s' = namespace_in env1 s"
  using assms
proof
  assume "pr_Namespace s' = pr_Namespace s"
  then show ?thesis by (auto simp: namespace_in_def)
next
  assume a: "pr_Namespace s' = snd (controllerNamespace env0 (pr_Namespace s))"
  have "namespace_in env s' = namespace_in env0 s"
    using controllerNamespace_once [of env0 "pr_Namespace s"] a
    by (simp add: namespace_in_def controllerNamespace_def Let_def split: if_splits)
  then show ?thesis by blast
qed

lemma decide_process_namespace:
  "decide cl lib env req s = (d, s') \<Longrightarrow>
     pr_Namespace s' = pr_Namespace s \<or> pr_Namespace s' = snd (controllerNamespace env (pr_Namespace s))"
  by (auto simp: decide_def findBuildJob_def Let_def split: sum.splits if_splits prod.splits)

section \<open>A pass keeps the invariant\<close>

lemma act_frame:
  assumes cl: "client_contract cl" and get: "kc_Get cl req (pr_Cluster s) = Inr img"
    and act: "act cl lib clk p h img s = (out, s')"
  shows "pr_Namespace s' = pr_Namespace s \<and> (\<forall>opts. kc_List cl opts (pr_Cluster s') = kc_List cl opts (pr_Cluster s)) \<and>
    (\<forall>req'. req' \<noteq> req \<longrightarrow> kc_Get cl req' (pr_Cluster s') = kc_Get cl req' (pr_Cluster s))"
proof -
  have key: "key_of (target_image lib p h clk img) = req" using client_Get_key [OF cl get] by simp
  from act show ?thesis
  proof (cases rule: act_cases)
    case ok
    then show ?thesis
    proof (elim disjE conjE)
      assume "s' = s"
      then show ?thesis by simp
    next
      assume u: "kc_StatusUpdate cl (target_image lib p h clk img) (pr_Cluster s) = (None, pr_Cluster s')"
      show ?thesis using ok(2) client_Update_ok(2,3) [OF cl u] key by simp
    qed
  next
    case (error e)
    then show ?thesis using client_Update_error [OF cl error(3)] by simp
  qed
qed

lemma pass_frame:
  assumes cl: "client_contract cl" and rec: "Reconcile cl lib env clk req s = (out, s')"
  shows "(pr_Namespace s' = pr_Namespace s \<or> pr_Namespace s' = snd (controllerNamespace env (pr_Namespace s))) \<and>
    (\<forall>opts. kc_List cl opts (pr_Cluster s') = kc_List cl opts (pr_Cluster s)) \<and>
    (\<forall>req'. req' \<noteq> req \<longrightarrow> kc_Get cl req' (pr_Cluster s') = kc_Get cl req' (pr_Cluster s))"
  using rec
proof (cases rule: Reconcile_cases)
  case ignore
  then show ?thesis using decide_cluster [OF ignore(1)] decide_process_namespace [OF ignore(1)] by simp
next
  case (abort e)
  then show ?thesis using decide_cluster [OF abort(1)] decide_process_namespace [OF abort(1)] by simp
next
  case (act p h img s1)
  have w: "pr_Cluster s1 = pr_Cluster s" by (rule decide_cluster [OF act(1)])
  have "kc_Get cl req (pr_Cluster s1) = Inr img" using decide_ActD(1) [OF act(1)] w by simp
  from act_frame [OF cl this act(2)] show ?thesis using decide_process_namespace [OF act(1)] w by simp
qed

lemma build_job_lists:
  "(\<forall>opts. kc_List cl opts w' = kc_List cl opts w) \<Longrightarrow> build_job cl ns img h w' = build_job cl ns img h w"
  by (simp add: build_job_def)

text \<open>The verdict of a pass does not depend on the environment once it has looked for the Job.\<close>

lemma verdict_after:
  assumes dec: "decide cl lib env req s = (Act p h img, s1)"
    and lists: "\<forall>opts. kc_List cl opts w' = kc_List cl opts (pr_Cluster s)"
    and ns: "pr_Namespace s' = pr_Namespace s1" "pr_Cluster s' = w'"
  shows "verdict cl lib (namespace_in env1 s') img w' = Act p h img"
proof -
  have v: "verdict cl lib (namespace_in env s) img (pr_Cluster s) = Act p h img"
  proof -
    have "fst (decide cl lib env req s) = verdict cl lib (namespace_in env s) img (pr_Cluster s)"
      by (rule decide_verdict [OF decide_ActD(1,2) [OF dec]])
    then show ?thesis using dec by simp
  qed
  have same: "verdict cl lib n img w' = verdict cl lib n img (pr_Cluster s)" for n
    by (rule verdict_cong) (rule build_job_lists [OF lists])
  show ?thesis
  proof (cases "is_current img h")
    case True
    then show ?thesis using v decide_ActD(3) [OF dec] by (simp add: verdict_def)
  next
    case False
    then obtain oj where "findBuildJob cl env img h s = (Inr oj, s1)" using decide_ActD(4) [OF dec] by auto
    then have "pr_Namespace s1 = snd (controllerNamespace env (pr_Namespace s))"
      by (auto simp: findBuildJob_def Let_def split: prod.splits sum.splits)
    then have "namespace_in env1 s' = namespace_in env s"
      using ns(1) controllerNamespace_once [of env "pr_Namespace s"] namespace_cached [of s']
      by (simp add: namespace_in_def controllerNamespace_def Let_def split: if_splits)
    with v same show ?thesis by simp
  qed
qed

lemma has_row_version: "same_but_version a b \<Longrightarrow> has_row a ty row = has_row b ty row"
  by (simp add: has_row_def same_but_version_fields)

lemma worked_settled:
  assumes cl: "client_contract cl" and ssc: "SetStatusCondition_contract (kl_SetStatusCondition lib)"
    and rec: "Reconcile cl lib env clk req s = (out, s')" and quiet: "requeued req out = {}"
    and same: "kc_Get cl req (pr_Cluster s') = kc_Get cl req (pr_Cluster s)"
    and get: "kc_Get cl req (pr_Cluster s) = Inr img" "Time_IsZero (om_DeletionTimestamp (im_ObjectMeta img))"
  shows "settled cl lib s' img"
  using rec
proof (cases rule: Reconcile_cases)
  case ignore
  have "fst (decide cl lib env req s) = verdict cl lib (namespace_in env s) img (pr_Cluster s)"
    by (rule decide_verdict [OF get])
  then show ?thesis using ignore by (auto simp: verdict_def split: sum.splits if_splits)
next
  case (abort e)
  then show ?thesis using quiet by (simp add: requeued_def)
next
  case (act p h img1 s1)
  have img: "img1 = img" using decide_ActD(1) [OF act(1)] get(1) by simp
  have w: "pr_Cluster s1 = pr_Cluster s" by (rule decide_cluster [OF act(1)])
  have out: "out = (delay p, None)"
    using act(2) quiet by (cases rule: act_cases) (auto simp: requeued_def)
  have p: "p \<notin> {Pending, Running}"
    using quiet out by (auto simp: requeued_def delay_def requeues_def requeueWhileBuilding_def)
  have get1: "kc_Get cl req (pr_Cluster s1) = Inr img" using get(1) w by simp
  have a: "act cl lib clk p h img s1 = ((delay p, None), s')" using act(2) out img by simp
  obtain stored where "kc_Get cl req (pr_Cluster s') = Inr stored"
    "same_but_version stored (target_image lib p h clk img)"
    using act_ok(1) [OF cl ssc get1 a] by blast
  then have v: "same_but_version img (target_image lib p h clk img)" using same get(1) by simp
  have rows: "has_row img ConditionTypeBuilding (building_row p)"
    "has_row img ConditionTypeBuildSucceeded (succeeded_row p)"
    using target_rows [OF ssc, of p h clk img] has_row_version [OF v] by simp_all
  have f: "pr_Namespace s' = pr_Namespace s1" "\<forall>opts. kc_List cl opts (pr_Cluster s') = kc_List cl opts (pr_Cluster s)"
    using act_frame [OF cl get1 a] w by simp_all
  have "verdict cl lib (namespace_in env1 s') img (pr_Cluster s') = Act p h img" for env1
    by (rule verdict_after [OF act(1) [unfolded img] f(2) f(1) refl])
  with p rows show ?thesis unfolding settled_def by blast
qed

text \<open>A pass changes neither the names nor the identities of the stored images.\<close>

lemma pass_images:
  assumes cl: "client_contract cl" and rec: "Reconcile cl lib env clk req s = (out, s')"
    and get: "kc_Get cl r (pr_Cluster s') = Inr img'"
  obtains img where "kc_Get cl r (pr_Cluster s) = Inr img" "im_ObjectMeta img' = (im_ObjectMeta img)
      \<lparr>om_ResourceVersion := om_ResourceVersion (im_ObjectMeta img')\<rparr>"
proof -
  have own: "\<exists>img. kc_Get cl r (pr_Cluster s) = Inr img \<and> im_ObjectMeta img' = (im_ObjectMeta img)
      \<lparr>om_ResourceVersion := om_ResourceVersion (im_ObjectMeta img')\<rparr>" if "r = req"
    using rec
  proof (cases rule: Reconcile_cases)
    case ignore
    then show ?thesis using get decide_cluster [OF ignore(1)] by simp
  next
    case (abort e)
    then show ?thesis using get decide_cluster [OF abort(1)] by simp
  next
    case (act p h img s1)
    have w: "pr_Cluster s1 = pr_Cluster s" by (rule decide_cluster [OF act(1)])
    have key: "key_of (target_image lib p h clk img) = req"
      using client_Get_key [OF cl decide_ActD(1) [OF act(1)]] by simp
    show ?thesis using act(2)
    proof (cases rule: act_cases)
      case ok
      from ok(3) show ?thesis
      proof (elim disjE conjE)
        assume "s' = s1"
        then show ?thesis using get w by simp
      next
        assume "kc_StatusUpdate cl (target_image lib p h clk img) (pr_Cluster s1) = (None, pr_Cluster s')"
        from client_Update_ok(1) [OF cl this] show ?thesis using key that get w by auto
      qed
    next
      case (error e)
      then show ?thesis using client_Update_error [OF cl error(3)] get w by simp
    qed
  qed
  have "kc_Get cl r (pr_Cluster s) = Inr img'" if "r \<noteq> req"
    using pass_frame [OF cl rec] that get by simp
  with own show ?thesis by (cases "r = req") (auto intro: that)
qed

lemma isOwnedBy_meta: "om_UID (im_ObjectMeta a) = om_UID (im_ObjectMeta b) \<Longrightarrow> isOwnedBy j a = isOwnedBy j b"
  by (simp add: isOwnedBy_def)

lemma pass_controlled:
  assumes cl: "client_contract cl" and rec: "Reconcile cl lib env clk req s = (out, s')"
    and ctl: "jobs_controlled cl (pr_Cluster s)"
  shows "jobs_controlled cl (pr_Cluster s')"
  unfolding jobs_controlled_def
proof (intro allI impI)
  fix opts jobs j r img'
  assume l: "kc_List cl opts (pr_Cluster s') = Inr jobs" and j: "j \<in> set jobs"
    and get: "kc_Get cl r (pr_Cluster s') = Inr img'" and own: "isOwnedBy j img'"
  obtain img where img: "kc_Get cl r (pr_Cluster s) = Inr img" "im_ObjectMeta img' = (im_ObjectMeta img)
      \<lparr>om_ResourceVersion := om_ResourceVersion (im_ObjectMeta img')\<rparr>"
    using pass_images [OF cl rec get] by blast
  have id: "om_UID (im_ObjectMeta img') = om_UID (im_ObjectMeta img)"
    "om_Name (im_ObjectMeta img') = om_Name (im_ObjectMeta img)"
    using arg_cong [OF img(2), of om_UID] arg_cong [OF img(2), of om_Name] by simp_all
  have "kc_List cl opts (pr_Cluster s) = Inr jobs" using pass_frame [OF cl rec] l by simp
  with ctl j img(1) own show "nn_Namespace r = [] \<and>
      (\<exists>r \<in> set (om_OwnerReferences (jb_ObjectMeta j)). or_Kind r = ''PVENodeImage'' \<and>
        or_Name r = om_Name (im_ObjectMeta img') \<and> or_Controller r = Some True)"
    unfolding jobs_controlled_def id(2) isOwnedBy_meta [OF id(1)] by blast
qed

lemma queue_inv_step:
  assumes cl: "client_contract cl" and ssc: "SetStatusCondition_contract (kl_SetStatusCondition lib)"
    and enq: "enqueue_contract enq" and step: "queue_step cl lib enq c c'" and c: "queue_inv cl lib c"
  shows "queue_inv cl lib c'"
  using step
proof cases
  case (work req env clk out s')
  have c': "ct_Process c' = s'" "ct_Queue c' = (ct_Queue c - {req}) \<union> requeued req out \<union>
      changed cl (pr_Cluster (ct_Process c)) (pr_Cluster s')" using work(1) by simp_all
  note rec = work(3) and frame = pass_frame [OF cl work(3)]
  have ns: "\<exists>env0. namespace_in env1 s' = namespace_in env0 (ct_Process c)" for env1
    by (rule namespace_after) (rule conjunct1 [OF frame])
  have ctl: "jobs_controlled cl (pr_Cluster s')"
    using pass_controlled [OF cl rec] c by (simp add: queue_inv_def)
  have "settled cl lib s' img" if get: "kc_Get cl r (pr_Cluster s') = Inr img"
    and live: "Time_IsZero (om_DeletionTimestamp (im_ObjectMeta img))" and out: "r \<notin> ct_Queue c'" for r img
  proof -
    have same: "kc_Get cl r (pr_Cluster s') = kc_Get cl r (pr_Cluster (ct_Process c))"
      using out c'(2) by (auto simp: changed_iff)
    show ?thesis
    proof (cases "r = req")
      case True
      have quiet: "requeued req out = {}" using out c'(2) True by (auto simp: requeued_def split: if_splits)
      show ?thesis
        using worked_settled [OF cl ssc rec quiet] same get live True by simp
    next
      case False
      then have "settled cl lib (ct_Process c) img" using c out c'(2) get same live by (auto simp: queue_inv_def)
      then show ?thesis
        by (rule settled_transfer) (simp_all add: build_job_lists frame ns)
    qed
  qed
  with ctl show ?thesis by (auto simp: queue_inv_def c'(1))
next
  case (cluster w')
  have c': "pr_Cluster (ct_Process c') = w'" "pr_Namespace (ct_Process c') = pr_Namespace (ct_Process c)"
    "ct_Queue c' = ct_Queue c \<union> changed cl (pr_Cluster (ct_Process c)) w' \<union>
        woken cl enq (pr_Cluster (ct_Process c)) w'" using cluster(1) by simp_all
  have "settled cl lib (ct_Process c') img" if get: "kc_Get cl r w' = Inr img"
    and live: "Time_IsZero (om_DeletionTimestamp (im_ObjectMeta img))" and out: "r \<notin> ct_Queue c'" for r img
  proof -
    have get0: "kc_Get cl r (pr_Cluster (ct_Process c)) = Inr img" and
      own: "own_jobs cl enq r opts w' = own_jobs cl enq r opts (pr_Cluster (ct_Process c))" for opts
      using out get c'(3) by (auto simp: changed_iff woken_def)
    have ctl: "jobs_controlled cl (pr_Cluster (ct_Process c))" using c by (simp add: queue_inv_def)
    have "build_job cl ns img h w' = build_job cl ns img h (pr_Cluster (ct_Process c))" for ns h
      by (simp add: build_job_own [OF cl enq cluster(2) get] build_job_own [OF cl enq ctl get0] own)
    then have jobs: "build_job cl ns img h (pr_Cluster (ct_Process c')) =
        build_job cl ns img h (pr_Cluster (ct_Process c))" for ns h by (simp add: c'(1))
    have ns: "\<exists>env0. namespace_in env (ct_Process c') = namespace_in env0 (ct_Process c)" for env
      by (rule namespace_after) (simp add: c'(2))
    have "settled cl lib (ct_Process c) img" using c get0 live out c'(3) by (simp add: queue_inv_def)
    then show ?thesis by (rule settled_transfer [OF _ jobs ns])
  qed
  with cluster(2) c'(1) show ?thesis by (simp add: queue_inv_def)
next
  case restart
  then show ?thesis using c by (auto simp: queue_inv_def stored_requests_def)
qed

lemma queue_run_inv:
  assumes "client_contract cl" "SetStatusCondition_contract (kl_SetStatusCondition lib)" "enqueue_contract enq"
    and "queue_run cl lib enq c"
  shows "queue_inv cl lib c"
  using assms(4)
proof induction
  case (start w)
  then show ?case by (auto simp: queue_inv_def stored_requests_def)
next
  case (step c c')
  then show ?case using queue_inv_step [OF assms(1-3)] by blast
qed

section \<open>The queue drains\<close>

text \<open>
  Passes with nobody else acting, over requests that are to be ignored or whose phase asks for no
  further pass, and that return no error. Their number is counted.
\<close>

fun settles :: "decision \<Rightarrow> bool" where
  "settles Ignore = True"
| "settles (Abort e) = False"
| "settles (Act p h img) = (p = Current \<or> p = Failed)"

inductive drains :: "'w kube_client \<Rightarrow> kube_libs \<Rightarrow> nat \<Rightarrow> 'w controller \<Rightarrow> 'w controller \<Rightarrow> bool"
  for cl lib where
  none: "drains cl lib 0 c c"
| pass: "drains cl lib n c c' \<Longrightarrow> req \<in> ct_Queue c' \<Longrightarrow>
    settles (fst (decide cl lib env req (ct_Process c'))) \<Longrightarrow>
    Reconcile cl lib env clk req (ct_Process c') = ((r, None), s') \<Longrightarrow>
    drains cl lib (Suc n) c \<lparr>ct_Process = s', ct_Queue = (ct_Queue c' - {req}) \<union> requeued req (r, None) \<union>
        changed cl (pr_Cluster (ct_Process c')) (pr_Cluster s')\<rparr>"

text \<open>How many passes a request still needs: one if its image is settled, two otherwise.\<close>

definition todo :: "'w kube_client \<Rightarrow> kube_libs \<Rightarrow> 'w process \<Rightarrow> NamespacedName \<Rightarrow> nat" where
  "todo cl lib s req = (if \<exists>img. kc_Get cl req (pr_Cluster s) = Inr img \<and>
      Time_IsZero (om_DeletionTimestamp (im_ObjectMeta img)) \<and> settled cl lib s img then 1 else 2)"

lemma verdict_same:
  assumes "im_Spec a = im_Spec b" "is_current a = is_current b"
    and "om_UID (im_ObjectMeta a) = om_UID (im_ObjectMeta b)" "om_Name (im_ObjectMeta a) = om_Name (im_ObjectMeta b)"
    and v: "verdict cl lib ns b w = Act p h b"
  shows "verdict cl lib ns a w = Act p h a"
proof -
  have "isOwnedBy j a = isOwnedBy j b" for j by (rule isOwnedBy_meta) (rule assms(3))
  then have "build_job cl ns a h w = build_job cl ns b h w" for h
    by (simp add: build_job_def assms(4) findOwned_find)
  then show ?thesis using v by (auto simp: verdict_def assms(1,2) split: sum.splits if_splits)
qed

text \<open>A settling pass either changes nothing or leaves a settled image.\<close>

lemma pass_settles:
  assumes cl: "client_contract cl" and ssc: "SetStatusCondition_contract (kl_SetStatusCondition lib)"
    and dec: "settles (fst (decide cl lib env req s))" and rec: "Reconcile cl lib env clk req s = ((r, None), s')"
  shows "requeued req (r, None) = {} \<and>
    (kc_Get cl req (pr_Cluster s') = kc_Get cl req (pr_Cluster s) \<or> todo cl lib s' req = 1)"
  using rec
proof (cases rule: Reconcile_cases)
  case ignore
  then show ?thesis using decide_cluster [OF ignore(1)] by (simp add: requeued_def Result0_def)
next
  case (abort e)
  then show ?thesis using dec by simp
next
  case (act p h img s1)
  have p: "p = Current \<or> p = Failed" using dec act(1) by simp
  have w: "pr_Cluster s1 = pr_Cluster s" by (rule decide_cluster [OF act(1)])
  have get1: "kc_Get cl req (pr_Cluster s1) = Inr img" using decide_ActD(1) [OF act(1)] w by simp
  note ok = act_ok [OF cl ssc get1 act(2)]
  obtain st where st: "kc_Get cl req (pr_Cluster s') = Inr st" "same_but_version st (target_image lib p h clk img)"
    using ok(1) by blast
  note f = same_but_version_fields [OF st(2)]
  have rows: "has_row st ConditionTypeBuilding (building_row p)"
    "has_row st ConditionTypeBuildSucceeded (succeeded_row p)"
    using target_rows [OF ssc, of p h clk img] has_row_version [OF st(2)] by simp_all
  have lists: "\<forall>opts. kc_List cl opts (pr_Cluster s') = kc_List cl opts (pr_Cluster s)" using ok(4) w by simp
  have "verdict cl lib (namespace_in env1 s') img (pr_Cluster s') = Act p h img" for env1
    by (rule verdict_after [OF act(1) lists ok(3) refl])
  then have "verdict cl lib (namespace_in env1 s') st (pr_Cluster s') = Act p h st" for env1
    by (rule verdict_same [rotated -1]) (use f p in \<open>auto simp: is_current_def fun_eq_iff\<close>)
  then have "settled cl lib s' st" unfolding settled_def using rows p by blast
  then have "todo cl lib s' req = 1" using st(1) f decide_ActD(2) [OF act(1)] by (auto simp: todo_def)
  then show ?thesis using ok(2) p by (auto simp: requeued_def delay_def requeues_def Result0_def)
qed

text \<open>A settling pass over a settled image changes nothing, and no pass unsettles other images.\<close>

lemma settled_pass_quiet:
  assumes cl: "client_contract cl" and ssc: "SetStatusCondition_contract (kl_SetStatusCondition lib)"
    and dec: "settles (fst (decide cl lib env req s))" and rec: "Reconcile cl lib env clk req s = ((r, None), s')"
    and todo: "todo cl lib s req = 1"
  shows "pr_Cluster s' = pr_Cluster s"
proof -
  obtain img p h where get: "kc_Get cl req (pr_Cluster s) = Inr img"
      "Time_IsZero (om_DeletionTimestamp (im_ObjectMeta img))"
    and v: "verdict cl lib (namespace_in env s) img (pr_Cluster s) = Act p h img"
    and rows: "has_row img ConditionTypeBuilding (building_row p)"
      "has_row img ConditionTypeBuildSucceeded (succeeded_row p)"
    using todo by (auto simp: todo_def settled_def split: if_splits)
  have d: "fst (decide cl lib env req s) = Act p h img" using decide_verdict [OF get] v by simp
  then obtain s1 where d1: "decide cl lib env req s = (Act p h img, s1)" by (cases "decide cl lib env req s") auto
  have p: "p \<noteq> Succeeded" using dec d by auto
  have "target_conditions lib p clk img = (False, ist_Conditions (im_Status img))"
    by (rule rows_unchanged [OF ssc]) (use rows in \<open>simp_all add: has_row_def\<close>)
  then show ?thesis using rec Reconcile_Act [OF d1, of clk] decide_cluster [OF d1] p
    by (simp add: act_def updateStatusIfChanged_def)
qed

lemma pass_todo_others:
  assumes cl: "client_contract cl" and rec: "Reconcile cl lib env clk req s = (out, s')" and other: "r \<noteq> req"
  shows "todo cl lib s' r \<le> todo cl lib s r"
proof -
  note frame = pass_frame [OF cl rec]
  have ns: "\<exists>env0. namespace_in env1 s' = namespace_in env0 s" for env1
    by (rule namespace_after) (rule conjunct1 [OF frame])
  have "settled cl lib s img \<Longrightarrow> settled cl lib s' img" for img
    by (erule settled_transfer) (simp_all add: build_job_lists frame ns)
  then show ?thesis using frame other by (auto simp: todo_def)
qed

definition total_todo :: "'w kube_client \<Rightarrow> kube_libs \<Rightarrow> 'w controller \<Rightarrow> nat" where
  "total_todo cl lib c = (\<Sum>req \<in> ct_Queue c. todo cl lib (ct_Process c) req)"

lemma pass_queue:
  assumes cl: "client_contract cl" and ssc: "SetStatusCondition_contract (kl_SetStatusCondition lib)"
    and fin: "finite (ct_Queue c)" and wait: "req \<in> ct_Queue c"
    and dec: "settles (fst (decide cl lib env req (ct_Process c)))"
    and rec: "Reconcile cl lib env clk req (ct_Process c) = ((r, None), s')"
    and c': "c' = \<lparr>ct_Process = s', ct_Queue = (ct_Queue c - {req}) \<union> requeued req (r, None) \<union>
        changed cl (pr_Cluster (ct_Process c)) (pr_Cluster s')\<rparr>"
  shows "finite (ct_Queue c') \<and> Suc (total_todo cl lib c') \<le> total_todo cl lib c"
proof -
  let ?s = "ct_Process c" and ?Q = "ct_Queue c - {req}"
  note quiet = pass_settles [OF cl ssc dec rec]
  have others: "(\<Sum>r \<in> ?Q. todo cl lib s' r) \<le> (\<Sum>r \<in> ?Q. todo cl lib ?s r)"
    by (rule sum_mono) (use pass_todo_others [OF cl rec] in auto)
  have all: "total_todo cl lib c = todo cl lib ?s req + (\<Sum>r \<in> ?Q. todo cl lib ?s r)"
    unfolding total_todo_def using fin wait by (rule sum.remove)
  have "changed cl (pr_Cluster ?s) (pr_Cluster s') \<subseteq> {req}"
    using pass_frame [OF cl rec] by (auto simp: changed_iff)
  then consider (same) "changed cl (pr_Cluster ?s) (pr_Cluster s') = {}"
    | (own) "changed cl (pr_Cluster ?s) (pr_Cluster s') = {req}" by blast
  then show ?thesis
  proof cases
    case same
    then have "ct_Queue c' = ?Q" "ct_Process c' = s'" using quiet c' by simp_all
    moreover have "0 < todo cl lib ?s req" by (simp add: todo_def)
    ultimately show ?thesis using others all fin by (simp add: total_todo_def)
  next
    case own
    then have q: "ct_Queue c' = insert req ?Q" "ct_Process c' = s'" using quiet c' by auto
    have diff: "kc_Get cl req (pr_Cluster s') \<noteq> kc_Get cl req (pr_Cluster ?s)"
      using own by (auto simp: changed_iff)
    then have after: "todo cl lib s' req = 1" using quiet by blast
    have "todo cl lib ?s req \<noteq> 1" using settled_pass_quiet [OF cl ssc dec rec] diff by auto
    then have "todo cl lib ?s req = 2" by (auto simp: todo_def split: if_splits)
    moreover have "total_todo cl lib c' = todo cl lib s' req + (\<Sum>r \<in> ?Q. todo cl lib s' r)"
      unfolding total_todo_def q by (rule sum.insert) (use fin in simp_all)
    moreover have "finite (ct_Queue c')" using fin q by simp
    ultimately show ?thesis using others all after by linarith
  qed
qed

lemma drains_todo:
  assumes "client_contract cl" "SetStatusCondition_contract (kl_SetStatusCondition lib)"
    and "drains cl lib n c c'" "finite (ct_Queue c)"
  shows "finite (ct_Queue c') \<and> n + total_todo cl lib c' \<le> total_todo cl lib c"
  using assms(3,4)
proof induction
  case (none c)
  then show ?case by simp
next
  case (pass n c c' req env clk r s')
  then have "finite (ct_Queue c')" "n + total_todo cl lib c' \<le> total_todo cl lib c" by simp_all
  with pass_queue [OF assms(1,2) this(1) pass.hyps(2-4) refl] show ?case by simp
qed

section \<open>Sample queue\<close>

text \<open>The mapping of Jobs to requests, and a failed build Job.\<close>

definition mem_enqueue :: "owner_watch \<Rightarrow> Job \<Rightarrow> NamespacedName list" where
  "mem_enqueue w j = map (\<lambda>r. \<lparr>nn_Namespace = [], nn_Name = or_Name r\<rparr>)
     (filter (\<lambda>r. or_Kind r = ow_OwnerKind w \<and> (ow_OnlyController w \<longrightarrow> or_Controller r = Some True))
       (om_OwnerReferences (jb_ObjectMeta j)))"

lemma mem_enqueue_ok: "enqueue_contract mem_enqueue"
  unfolding enqueue_contract_def mem_enqueue_def
proof (intro allI)
  fix w j and req :: NamespacedName
  show "(req \<in> set (map (\<lambda>r. \<lparr>nn_Namespace = [], nn_Name = or_Name r\<rparr>)
     (filter (\<lambda>r. or_Kind r = ow_OwnerKind w \<and> (ow_OnlyController w \<longrightarrow> or_Controller r = Some True))
       (om_OwnerReferences (jb_ObjectMeta j))))) \<longleftrightarrow> nn_Namespace req = [] \<and>
     (\<exists>r \<in> set (om_OwnerReferences (jb_ObjectMeta j)). or_Kind r = ow_OwnerKind w \<and>
        or_Name r = nn_Name req \<and> (ow_OnlyController w \<longrightarrow> or_Controller r = Some True))"
    by (cases req) (auto simp: image_iff)
qed

definition failedJob :: Job where
  "failedJob = sampleJob [\<lparr>jc_Type = JobFailed, jc_Status = ConditionTrue\<rparr>]"

definition sampleController :: "Job \<Rightarrow> memory controller" where
  "sampleController j = \<lparr>ct_Process = \<lparr>pr_Cluster = sampleCluster sampleImage [j], pr_Namespace = ns_init\<rparr>,
     ct_Queue = stored_requests (mem_client anyJob) (sampleCluster sampleImage [j])\<rparr>"

lemma sampleController_fields [simp]:
  "ct_Process (sampleController j) = sampleProcess sampleImage [j]"
  "sampleReq \<in> ct_Queue (sampleController j)"
  by (simp_all add: sampleController_def sampleProcess_def stored_requests_def)

lemma sampleController_run: "queue_run (mem_client anyJob) mem_libs mem_enqueue (sampleController (sampleJob conds))"
  unfolding sampleController_def
proof (rule queue_run.start)
  show "jobs_controlled (mem_client anyJob) (sampleCluster sampleImage [sampleJob conds])"
    by (auto simp: jobs_controlled_def mem_List_def sampleCluster_def mem_Get_def sampleJob_def
        sampleReq_def key_of_def sampleImage_def split: if_splits)
  show "readable (mem_client anyJob) mem_libs (sampleCluster sampleImage [sampleJob conds])"
    by (auto simp: readable_def mem_List_def split: if_splits)
qed

lemma sample_decide_failed:
  "decide (mem_client anyJob) mem_libs sampleEnv sampleReq (sampleProcess sampleImage [failedJob]) =
      (Act Failed sampleHash sampleImage, (sampleProcess sampleImage [failedJob])\<lparr>pr_Namespace := sampleCache\<rparr>)"
proof -
  have "job_phase (Some failedJob) = Failed"
    by (simp add: failedJob_def sampleJob_def job_phase_def isJobFinished_def jobSucceeded_def
        JobFailed_def JobComplete_def)
  then show ?thesis
    using sample_findBuildJob [of sampleImage] unfolding failedJob_def
    by (simp add: decide_def Time_IsZero_def is_current_def)
qed

section \<open>Properties of the queue\<close>

text \<open>
  Claim C10. No image is forgotten: in every state of a run with the work queue a stored live image
  either waits in the queue, or every pass over it would decide on a phase that needs no further
  pass and the image already shows the two conditions of that phase. This is what the watches of
  \<open>SetupWithManager\<close> and the delays of \<open>Reconcile\<close> are for.
\<close>

theorem queue_never_forgets:
  assumes cl: "client_contract cl" and ssc: "SetStatusCondition_contract (kl_SetStatusCondition lib)"
    and enq: "enqueue_contract enq" and run: "queue_run cl lib enq c"
    and get: "kc_Get cl req (pr_Cluster (ct_Process c)) = Inr img"
    and live: "Time_IsZero (om_DeletionTimestamp (im_ObjectMeta img))"
  shows "req \<in> ct_Queue c \<or> (\<exists>p h. p \<notin> {Pending, Running} \<and>
     (\<forall>env. fst (decide cl lib env req (ct_Process c)) = Act p h img) \<and>
     has_row img ConditionTypeBuilding (building_row p) \<and>
     has_row img ConditionTypeBuildSucceeded (succeeded_row p))"
proof (cases "req \<in> ct_Queue c")
  case False
  then have "settled cl lib (ct_Process c) img"
    using queue_run_inv [OF cl ssc enq run] get live by (simp add: queue_inv_def)
  then show ?thesis by (auto simp: settled_def decide_verdict [OF get live])
qed simp

text \<open>
  The run: a first pass over an image whose Job has failed shows the failure, which wakes the image
  again, and the second pass is quiet.
\<close>

lemma first_pass_writes:
  assumes dec: "decide (mem_client anyJob) mem_libs sampleEnv sampleReq s = (Act p sampleHash sampleImage, s1)"
    and rec: "Reconcile (mem_client anyJob) mem_libs sampleEnv clk sampleReq s = ((r, None), s')"
  obtains img where "mem_Get sampleReq (pr_Cluster s') = Inr img" "img \<noteq> sampleImage"
    "om_DeletionTimestamp (im_ObjectMeta img) = None"
    "sampleReq \<in> changed (mem_client anyJob) (pr_Cluster s) (pr_Cluster s')"
    "decide (mem_client anyJob) mem_libs sampleEnv sampleReq s' = (Act p sampleHash img, s')"
proof -
  have get: "mem_Get sampleReq (pr_Cluster s) = Inr sampleImage" using decide_ActD(1) [OF dec] by simp
  have get1: "kc_Get (mem_client anyJob) sampleReq (pr_Cluster s1) = Inr sampleImage"
    using get decide_cluster [OF dec] by simp
  have act: "act (mem_client anyJob) mem_libs clk p sampleHash sampleImage s1 = ((r, None), s')"
    using rec Reconcile_Act [OF dec] by simp
  obtain st where st: "mem_Get sampleReq (pr_Cluster s') = Inr st"
    "same_but_version st (target_image mem_libs p sampleHash clk sampleImage)"
    using act_ok(1) [OF mem_client_ok mem_libs_ok get1 act] by auto
  have "has_row st ConditionTypeBuilding (building_row p)"
    using target_rows(1) [OF mem_libs_ok] has_row_version [OF st(2)] by simp
  moreover have "\<not> has_row sampleImage ConditionTypeBuilding row" for row by (simp add: has_row_def)
  ultimately have "st \<noteq> sampleImage" by blast
  moreover have "kc_List (mem_client anyJob) opts (pr_Cluster s') = kc_List (mem_client anyJob) opts (pr_Cluster s)" for opts
    using act_ok(4) [OF mem_client_ok mem_libs_ok get1 act] decide_cluster [OF dec] by simp
  then have "decide (mem_client anyJob) mem_libs sampleEnv sampleReq s' = (Act p sampleHash st, s')"
    using st(1) act_ok(3) [OF mem_client_ok mem_libs_ok get1 act]
    by (intro decide_again [OF dec _ st(2)]) (simp_all add: is_current_def)
  ultimately show ?thesis using st get same_but_version_fields(4) [OF st(2)]
    by (intro that [of st]) (simp_all add: changed_iff)
qed

text \<open>The two passes over an image whose Job has failed: the first one shows it, the second is quiet.\<close>

lemma failed_passes:
  obtains s' img where
    "Reconcile (mem_client anyJob) mem_libs sampleEnv clock sampleReq (sampleProcess sampleImage [failedJob]) =
       ((Result0, None), s')"
    "Reconcile (mem_client anyJob) mem_libs sampleEnv clock sampleReq s' = ((Result0, None), s')"
    "sampleReq \<in> changed (mem_client anyJob) (sampleCluster sampleImage [failedJob]) (pr_Cluster s')"
    "mem_Get sampleReq (pr_Cluster s') = Inr img" "om_DeletionTimestamp (im_ObjectMeta img) = None"
    "decide (mem_client anyJob) mem_libs sampleEnv sampleReq s' = (Act Failed sampleHash img, s')"
proof -
  let ?cl = "mem_client anyJob" and ?s = "sampleProcess sampleImage [failedJob]"
  note dec = sample_decide_failed
  have "\<exists>s'. act ?cl mem_libs clock Failed sampleHash sampleImage (?s\<lparr>pr_Namespace := sampleCache\<rparr>) =
      ((delay Failed, None), s')"
    by (rule sample_act) simp
  then obtain s' where rec: "Reconcile ?cl mem_libs sampleEnv clock sampleReq ?s = ((Result0, None), s')"
    using Reconcile_Act [OF dec] by (auto simp: delay_def requeues_def)
  have "Reconcile ?cl mem_libs sampleEnv clock sampleReq s' = ((Result0, None), s')"
    by (rule quiet_pass [OF mem_client_ok mem_libs_ok dec _ rec]) simp
  with first_pass_writes [OF dec rec] that rec show ?thesis by (metis sample_process(1))
qed

lemma sample_work:
  assumes "queue_run (mem_client anyJob) mem_libs mem_enqueue c" "sampleReq \<in> ct_Queue c"
    and "Reconcile (mem_client anyJob) mem_libs sampleEnv clk sampleReq (ct_Process c) = (out, s')"
  shows "queue_run (mem_client anyJob) mem_libs mem_enqueue \<lparr>ct_Process = s',
      ct_Queue = (ct_Queue c - {sampleReq}) \<union> requeued sampleReq out \<union>
        changed (mem_client anyJob) (pr_Cluster (ct_Process c)) (pr_Cluster s')\<rparr>"
  using queue_run.step [OF assms(1) queue_step.work [OF assms(2,3)]] .

theorem queue_never_forgets_witness:
  "\<exists>c img p h. queue_run (mem_client anyJob) mem_libs mem_enqueue c \<and>
     mem_Get sampleReq (pr_Cluster (ct_Process c)) = Inr img \<and> sampleReq \<notin> ct_Queue c \<and>
     (\<forall>env. fst (decide (mem_client anyJob) mem_libs env sampleReq (ct_Process c)) = Act p h img) \<and>
     has_row img ConditionTypeBuilding (building_row p)"
proof -
  let ?cl = "mem_client anyJob" and ?c = "sampleController failedJob"
  have run0: "queue_run ?cl mem_libs mem_enqueue ?c" unfolding failedJob_def by (rule sampleController_run)
  obtain s' img where rec: "Reconcile ?cl mem_libs sampleEnv clock sampleReq (sampleProcess sampleImage [failedJob]) =
       ((Result0, None), s')"
    and again: "Reconcile ?cl mem_libs sampleEnv clock sampleReq s' = ((Result0, None), s')"
    and wakes: "sampleReq \<in> changed ?cl (sampleCluster sampleImage [failedJob]) (pr_Cluster s')"
    and img: "mem_Get sampleReq (pr_Cluster s') = Inr img" "om_DeletionTimestamp (im_ObjectMeta img) = None"
    by (rule failed_passes)
  let ?c1 = "\<lparr>ct_Process = s', ct_Queue = (ct_Queue ?c - {sampleReq}) \<union>
      requeued sampleReq (Result0, None) \<union> changed ?cl (sampleCluster sampleImage [failedJob]) (pr_Cluster s')\<rparr>"
  have "queue_run ?cl mem_libs mem_enqueue ?c1" using sample_work [OF run0] rec by simp
  from sample_work [OF this, of clock] wakes again obtain c2 where c2: "queue_run ?cl mem_libs mem_enqueue c2"
    "ct_Process c2 = s'" "sampleReq \<notin> ct_Queue c2" by (auto simp: requeued_def changed_iff Result0_def)
  have "kc_Get ?cl sampleReq (pr_Cluster (ct_Process c2)) = Inr img" using img c2(2) by simp
  from queue_never_forgets [OF mem_client_ok mem_libs_ok mem_enqueue_ok c2(1) this] img(2) c2 img(1)
  show ?thesis by (auto simp: Time_IsZero_def)
qed

text \<open>
  Claim C35. A succeeded image without template keeps itself awake: a pass over it that returns no
  error, at a clock that does not show the recorded time of the build, asks for no delay and puts
  nothing back by its result, but its write of the time of the build is a change of the image
  itself. So in the state that this pass leads to, with its own request taken out, the request is in
  the queue again, and the next pass is in the same phase.
\<close>

theorem succeeded_wakes_itself:
  assumes cl: "client_contract cl" and ssc: "SetStatusCondition_contract (kl_SetStatusCondition lib)"
    and wait: "req \<in> ct_Queue c" and dec: "decide cl lib env req (ct_Process c) = (Act Succeeded h img, s1)"
    and vmid: "ist_TemplateVMID (im_Status img) = None"
    and rec: "Reconcile cl lib env clk req (ct_Process c) = ((r, None), s')"
    and time: "ist_LastBuildTime (im_Status img) \<noteq> Some (clk 0)"
  shows "RequeueAfter r = 0 \<and> requeued req (r, None) = {} \<and>
    req \<in> changed cl (pr_Cluster (ct_Process c)) (pr_Cluster s') \<and>
    queue_step cl lib enq c \<lparr>ct_Process = s',
      ct_Queue = (ct_Queue c - {req}) \<union> changed cl (pr_Cluster (ct_Process c)) (pr_Cluster s')\<rparr> \<and>
    (\<exists>img'. decide cl lib env req s' = (Act Succeeded h img', s') \<and>
       ist_TemplateVMID (im_Status img') = None \<and> ist_LastBuildTime (im_Status img') = Some (clk 0))"
proof -
  have get: "kc_Get cl req (pr_Cluster s1) = Inr img"
    using decide_ActD(1) [OF dec] decide_cluster [OF dec] by simp
  have act: "act cl lib clk Succeeded h img s1 = ((r, None), s')" using rec Reconcile_Act [OF dec] by simp
  note ok = act_ok [OF cl ssc get act]
  obtain st where st: "kc_Get cl req (pr_Cluster s') = Inr st"
    "same_but_version st (target_image lib Succeeded h clk img)" using ok(1) by blast
  have st': "ist_LastBuildTime (im_Status st) = Some (clk 0)" "ist_TemplateVMID (im_Status st) = None"
    using same_but_version_fields(2) [OF st(2)] vmid by simp_all
  have "req \<in> changed cl (pr_Cluster (ct_Process c)) (pr_Cluster s')"
    using st(1) time st'(1) decide_ActD(1) [OF dec] by (auto simp: changed_iff)
  moreover have "kc_List cl opts (pr_Cluster s') = kc_List cl opts (pr_Cluster (ct_Process c))" for opts
    using ok(4) decide_cluster [OF dec] by simp
  then have "decide cl lib env req s' = (Act Succeeded h st, s')"
    by (intro decide_again [OF dec st(1) st(2)]) (simp_all add: is_current_def vmid ok(3))
  moreover have r: "RequeueAfter r = 0" using ok(2) by (simp add: delay_def requeues_def Result0_def)
  moreover have "requeued req (r, None) = {}" using r by (simp add: requeued_def)
  ultimately show ?thesis using queue_step.work [OF wait rec, of enq] st' by simp
qed

theorem succeeded_wakes_itself_witness:
  "\<exists>r s' img'. Reconcile (mem_client anyJob) mem_libs sampleEnv clock sampleReq (sampleProcess sampleImage [completeJob]) =
       ((r, None), s') \<and> RequeueAfter r = 0 \<and>
     sampleReq \<in> changed (mem_client anyJob) (sampleCluster sampleImage [completeJob]) (pr_Cluster s') \<and>
     decide (mem_client anyJob) mem_libs sampleEnv sampleReq s' = (Act Succeeded sampleHash img', s') \<and>
     ist_LastBuildTime (im_Status img') = Some 1000"
proof -
  let ?c = "sampleController completeJob"
  have dec: "decide (mem_client anyJob) mem_libs sampleEnv sampleReq (ct_Process ?c) =
      (Act Succeeded sampleHash sampleImage, (sampleProcess sampleImage [completeJob])\<lparr>pr_Namespace := sampleCache\<rparr>)"
    unfolding sampleController_fields by (rule sample_decide(2)) simp_all
  obtain r s' where rec: "Reconcile (mem_client anyJob) mem_libs sampleEnv clock sampleReq (ct_Process ?c) = ((r, None), s')"
    using sample_pass(2) unfolding sampleController_fields by blast
  show ?thesis
    using rec succeeded_wakes_itself [OF mem_client_ok mem_libs_ok _ dec _ rec, of mem_enqueue] by auto
qed

text \<open>
  Claim C11. The queue drains: with nobody else acting, the number of error-free passes over
  requests whose image is gone, current or failed is at most twice the number of requests that
  wait at the start. Every such image is passed over at most twice.
\<close>

theorem queue_drains:
  assumes cl: "client_contract cl" and ssc: "SetStatusCondition_contract (kl_SetStatusCondition lib)"
    and fin: "finite (ct_Queue c)" and passes: "drains cl lib n c c'"
  shows "n \<le> 2 * card (ct_Queue c)"
proof -
  have "total_todo cl lib c \<le> (\<Sum>req \<in> ct_Queue c. 2)"
    unfolding total_todo_def by (rule sum_mono) (simp add: todo_def)
  then show ?thesis using drains_todo [OF cl ssc passes fin] by simp
qed

text \<open>The bound is reached.\<close>

theorem queue_drains_witness:
  "\<exists>c'. drains (mem_client anyJob) mem_libs 2 (sampleController failedJob) c' \<and>
     card (ct_Queue (sampleController failedJob)) = 1 \<and> 2 \<le> 2 * card (ct_Queue (sampleController failedJob))"
proof -
  let ?cl = "mem_client anyJob" and ?c = "sampleController failedJob"
  obtain s' img where rec: "Reconcile ?cl mem_libs sampleEnv clock sampleReq (ct_Process ?c) = ((Result0, None), s')"
    and again: "Reconcile ?cl mem_libs sampleEnv clock sampleReq s' = ((Result0, None), s')"
    and wakes: "sampleReq \<in> changed ?cl (pr_Cluster (ct_Process ?c)) (pr_Cluster s')"
    and dec: "decide ?cl mem_libs sampleEnv sampleReq s' = (Act Failed sampleHash img, s')"
    using failed_passes by (metis sampleController_fields(1) sample_process(1))
  have first: "settles (fst (decide ?cl mem_libs sampleEnv sampleReq (ct_Process ?c)))"
    by (simp add: sample_decide_failed)
  have q: "ct_Queue ?c = {sampleReq}"
    by (auto simp: sampleController_def stored_requests_def split: if_splits)
  obtain c1 where c1: "drains ?cl mem_libs (Suc 0) ?c c1" "ct_Process c1 = s'" "sampleReq \<in> ct_Queue c1"
    using drains.pass [OF drains.none [of ?cl mem_libs ?c] _ first rec] wakes by auto
  obtain c2 where "drains ?cl mem_libs (Suc (Suc 0)) ?c c2"
    using drains.pass [OF c1(1,3), unfolded c1(2), OF _ again] by (auto simp: dec)
  then have two: "drains ?cl mem_libs 2 ?c c2" by (simp add: numeral_2_eq_2)
  from queue_drains [OF mem_client_ok mem_libs_ok _ two] show ?thesis using two q by auto
qed

end
