(* ===== verification/Stale_Reads.thy ===== *)
theory Stale_Reads
  imports Image_Trace
begin

text \<open>
  Passes that are not atomic. \<open>Reconcile\<close> calls the API server three times, in this order: it reads
  the image, lists the Jobs and writes the status. The reads are answered from a cache, so each
  of them may show any earlier state of the cluster, and others act between the calls; only the
  write meets the present state. A pass is therefore the same code over a client whose state is a
  triple of states, one per call. What keeps such passes correct is optimistic locking: an update
  carries the resource version that was read and is refused when the stored one is another.
\<close>

section \<open>The client of a pass\<close>

definition staggered :: "'w kube_client \<Rightarrow> ('w \<times> 'w \<times> 'w) kube_client" where
  "staggered cl = \<lparr>
     kc_Get = (\<lambda>req (wg, wl, wu). kc_Get cl req wg),
     kc_List = (\<lambda>opts (wg, wl, wu). kc_List cl opts wl),
     kc_StatusUpdate = (\<lambda>img (wg, wl, wu).
       let (err, w) = kc_StatusUpdate cl img wu in (err, wg, wl, w))\<rparr>"

lemma staggered_simps [simp]:
  "kc_Get (staggered cl) req (wg, wl, wu) = kc_Get cl req wg"
  "kc_List (staggered cl) opts (wg, wl, wu) = kc_List cl opts wl"
  "kc_StatusUpdate (staggered cl) img (wg, wl, wu) =
     (fst (kc_StatusUpdate cl img wu), wg, wl, snd (kc_StatusUpdate cl img wu))"
  by (simp_all add: staggered_def split_beta)

text \<open>
  Documented of the API server: an update is accepted only with the resource version of the stored
  object, and in one history a version of an object never stands for two contents.
\<close>

definition update_locks :: "'w kube_client \<Rightarrow> bool" where
  "update_locks cl \<longleftrightarrow> (\<forall>img w w'. kc_StatusUpdate cl img w = (None, w') \<longrightarrow>
     (\<exists>old. kc_Get cl (key_of img) w = Inr old \<and>
        om_ResourceVersion (im_ObjectMeta old) = om_ResourceVersion (im_ObjectMeta img)))"

definition versions_agree :: "'w kube_client \<Rightarrow> 'w \<Rightarrow> 'w \<Rightarrow> bool" where
  "versions_agree cl w w' \<longleftrightarrow> (\<forall>req a b. kc_Get cl req w = Inr a \<longrightarrow> kc_Get cl req w' = Inr b \<longrightarrow>
     om_ResourceVersion (im_ObjectMeta a) = om_ResourceVersion (im_ObjectMeta b) \<longrightarrow> a = b)"

lemma versions_agree_refl: "versions_agree cl w w"
  by (simp add: versions_agree_def)

lemma versions_agree_sym: "versions_agree cl w w' \<Longrightarrow> versions_agree cl w' w"
  unfolding versions_agree_def by metis

section \<open>Runs over a history\<close>

text \<open>
  The history of the cluster, the present state first. Passes read anywhere in it; several may be
  under way, since what one of them does is a step between the calls of another.
\<close>

inductive cached_run :: "'w kube_client \<Rightarrow> kube_libs \<Rightarrow> 'w list \<Rightarrow> ns_cache \<Rightarrow> bool" for cl lib where
  start: "fresh_cluster cl w \<Longrightarrow> cached_run cl lib [w] ns_init"
| pass: "cached_run cl lib hist ns \<Longrightarrow> wg \<in> set hist \<Longrightarrow> wl \<in> set hist \<Longrightarrow>
    Reconcile (staggered cl) lib env clk req \<lparr>pr_Cluster = (wg, wl, hd hist), pr_Namespace = ns\<rparr> =
      (out, \<lparr>pr_Cluster = (wg, wl, w), pr_Namespace = ns'\<rparr>) \<Longrightarrow>
    \<forall>w0 \<in> set hist. versions_agree cl w0 w \<Longrightarrow> cached_run cl lib (w # hist) ns'"
| others: "cached_run cl lib hist ns \<Longrightarrow> environment_step cl (hd hist) w \<Longrightarrow>
    \<forall>w0 \<in> set hist. versions_agree cl w0 w \<Longrightarrow> cached_run cl lib (w # hist) ns"
| restart: "cached_run cl lib hist ns \<Longrightarrow> cached_run cl lib hist ns_init"

lemma cached_run_present: "cached_run cl lib hist ns \<Longrightarrow> hd hist \<in> set hist"
  by (induction rule: cached_run.induct) auto

lemma cached_run_versions:
  "cached_run cl lib hist ns \<Longrightarrow> w \<in> set hist \<Longrightarrow> w' \<in> set hist \<Longrightarrow> versions_agree cl w w'"
proof (induction arbitrary: w w' rule: cached_run.induct)
  case (pass hist ns wg wl env clk req out w0 ns')
  then show ?case by (auto simp: versions_agree_refl dest: versions_agree_sym)
next
  case (others hist ns w0)
  then show ?case by (auto simp: versions_agree_refl dest: versions_agree_sym)
qed (simp_all add: versions_agree_refl)

section \<open>One pass\<close>

text \<open>What the pass decides depends on the two reads only; what it writes is written in the present state.\<close>

lemma decide_reads:
  assumes "kc_Get c1 req (pr_Cluster s1) = kc_Get c2 req (pr_Cluster s2)"
    and "\<And>opts. kc_List c1 opts (pr_Cluster s1) = kc_List c2 opts (pr_Cluster s2)"
    and "pr_Namespace s1 = pr_Namespace s2"
  shows "fst (decide c1 lib env req s1) = fst (decide c2 lib env req s2)"
    and "pr_Namespace (snd (decide c1 lib env req s1)) = pr_Namespace (snd (decide c2 lib env req s2))"
  using assms by (simp_all add: decide_def findBuildJob_def Let_def split: sum.split prod.split)

lemma decide_Act_reads:
  assumes "decide c1 lib env req s1 = (Act p h img, s1')"
    and "kc_Get c1 req (pr_Cluster s1) = kc_Get c2 req (pr_Cluster s2)"
    and "\<And>opts. kc_List c1 opts (pr_Cluster s1) = kc_List c2 opts (pr_Cluster s2)"
    and "pr_Namespace s1 = pr_Namespace s2"
  shows "decide c2 lib env req s2 = (Act p h img, s2\<lparr>pr_Namespace := pr_Namespace s1'\<rparr>)"
proof -
  obtain d s2' where d: "decide c2 lib env req s2 = (d, s2')" by fastforce
  have "d = Act p h img" "pr_Namespace s2' = pr_Namespace s1'"
    using decide_reads(1) [OF assms(2-4), of lib env] decide_reads(2) [OF assms(2-4), of lib env]
    by (simp_all add: d assms(1))
  then show ?thesis using decide_cluster [OF d] d by (cases s2; cases s2') simp
qed

lemma act_staggered:
  "act (staggered cl) lib clk p h img \<lparr>pr_Cluster = (wg, wl, wu), pr_Namespace = n\<rparr> =
     (let (out, s) = act cl lib clk p h img \<lparr>pr_Cluster = wu, pr_Namespace = n\<rparr>
      in (out, \<lparr>pr_Cluster = (wg, wl, pr_Cluster s), pr_Namespace = pr_Namespace s\<rparr>))"
  by (simp add: act_def updateStatusIfChanged_def split: prod.split option.split)

lemma Reconcile_staggered_Act:
  assumes "decide (staggered cl) lib env req \<lparr>pr_Cluster = (wg, wl, wu), pr_Namespace = ns\<rparr> = (Act p h img, s1)"
  shows "Reconcile (staggered cl) lib env clk req \<lparr>pr_Cluster = (wg, wl, wu), pr_Namespace = ns\<rparr> =
     (let (out, s) = act cl lib clk p h img \<lparr>pr_Cluster = wu, pr_Namespace = pr_Namespace s1\<rparr>
      in (out, \<lparr>pr_Cluster = (wg, wl, pr_Cluster s), pr_Namespace = pr_Namespace s\<rparr>))"
proof -
  have "s1 = \<lparr>pr_Cluster = (wg, wl, wu), pr_Namespace = pr_Namespace s1\<rparr>"
    using decide_cluster [OF assms] by (cases s1) simp
  then show ?thesis using Reconcile_Act [OF assms, of clk] act_staggered by metis
qed

lemma staggered_pass_cases:
  assumes "Reconcile (staggered cl) lib env clk req \<lparr>pr_Cluster = (wg, wl, wu), pr_Namespace = ns\<rparr> = (out, s')"
  obtains (quiet) "pr_Cluster s' = (wg, wl, wu)"
  | (stored) p h img s1 w where
      "decide (staggered cl) lib env req \<lparr>pr_Cluster = (wg, wl, wu), pr_Namespace = ns\<rparr> = (Act p h img, s1)"
      "pr_Cluster s1 = (wg, wl, wu)" "kc_Get cl req wg = Inr img"
      "kc_StatusUpdate cl (target_image lib p h clk img) wu = (None, w)" "pr_Cluster s' = (wg, wl, w)"
      "pr_Namespace s' = pr_Namespace s1" "out = (delay p, None)"
  | (refused) p h img e w where
      "kc_StatusUpdate cl (target_image lib p h clk img) wu = (Some e, w)" "pr_Cluster s' = (wg, wl, w)"
      "out = (Result0, Some (Wrap ''update status'' e))"
  using assms
proof (cases rule: Reconcile_cases)
  case ignore
  then show ?thesis using quiet decide_cluster [OF ignore(1)] by simp
next
  case (abort e)
  then show ?thesis using quiet decide_cluster [OF abort(1)] by simp
next
  case (act p h img s1)
  have w: "pr_Cluster s1 = (wg, wl, wu)" using decide_cluster [OF act(1)] by simp
  have get: "kc_Get cl req wg = Inr img" using decide_ActD(1) [OF act(1)] by simp
  from act(2) show ?thesis
  proof (cases rule: act_cases)
    case ok
    from ok(3) show ?thesis
    proof (elim disjE conjE)
      assume "s' = s1"
      then show ?thesis using quiet w by simp
    next
      assume "kc_StatusUpdate (staggered cl) (target_image lib p h clk img) (pr_Cluster s1) = (None, pr_Cluster s')"
      then show ?thesis using stored [OF act(1) w get _ _ ok(2,1)] w
        by (cases "kc_StatusUpdate cl (target_image lib p h clk img) wu") simp
    qed
  next
    case (error e)
    then show ?thesis using refused w
      by (cases "kc_StatusUpdate cl (target_image lib p h clk img) wu") simp
  qed
qed

text \<open>Optimistic locking: an accepted write meets the very object that was read.\<close>

lemma stored_is_read:
  assumes cl: "client_contract cl" and locks: "update_locks cl" and agree: "versions_agree cl wg wu"
    and get: "kc_Get cl req wg = Inr img"
    and u: "kc_StatusUpdate cl (target_image lib p h clk img) wu = (None, w)"
  shows "kc_Get cl req wu = Inr img"
proof -
  have key: "key_of (target_image lib p h clk img) = req" using client_Get_key [OF cl get] by simp
  obtain old where "kc_Get cl req wu = Inr old"
    "om_ResourceVersion (im_ObjectMeta old) = om_ResourceVersion (im_ObjectMeta img)"
    using locks u key unfolding update_locks_def by fastforce
  with agree get show ?thesis unfolding versions_agree_def by metis
qed

text \<open>A pass that changes the cluster has read the present image.\<close>

lemma staggered_change:
  assumes cl: "client_contract cl" and locks: "update_locks cl" and agree: "versions_agree cl wg wu"
    and rec: "Reconcile (staggered cl) lib env clk req \<lparr>pr_Cluster = (wg, wl, wu), pr_Namespace = ns\<rparr> =
      (out, \<lparr>pr_Cluster = (wg, wl, w), pr_Namespace = ns'\<rparr>)"
    and change: "w \<noteq> wu"
  obtains p h img s1 where
    "decide (staggered cl) lib env req \<lparr>pr_Cluster = (wg, wl, wu), pr_Namespace = ns\<rparr> = (Act p h img, s1)"
    "kc_Get cl req wg = Inr img" "kc_Get cl req wu = Inr img"
    "kc_StatusUpdate cl (target_image lib p h clk img) wu = (None, w)"
    "out = (delay p, None)"
    "act cl lib clk p h img \<lparr>pr_Cluster = wu, pr_Namespace = pr_Namespace s1\<rparr> =
       (out, \<lparr>pr_Cluster = w, pr_Namespace = ns'\<rparr>)"
  using rec
proof (cases rule: staggered_pass_cases)
  case quiet
  then show ?thesis using change by simp
next
  case (stored p h img s1 w1)
  then have u: "kc_StatusUpdate cl (target_image lib p h clk img) wu = (None, w)" by simp
  have "act cl lib clk p h img \<lparr>pr_Cluster = wu, pr_Namespace = pr_Namespace s1\<rparr> =
       (out, \<lparr>pr_Cluster = w, pr_Namespace = ns'\<rparr>)"
    using rec Reconcile_staggered_Act [OF stored(1), of clk] by (auto split: prod.splits)
  then show ?thesis
    using that [OF stored(1,3) stored_is_read [OF cl locks agree stored(3) u] u] stored(7) by simp
next
  case (refused p h img e w1)
  then show ?thesis using client_Update_error [OF cl refused(1)] change by simp
qed

lemma stale_pass_serial:
  assumes cl: "client_contract cl" and locks: "update_locks cl" and run: "cached_run cl lib hist ns"
    and reads: "wg \<in> set hist" "wl \<in> set hist"
    and rec: "Reconcile (staggered cl) lib env clk req \<lparr>pr_Cluster = (wg, wl, hd hist), pr_Namespace = ns\<rparr> =
      (out, \<lparr>pr_Cluster = (wg, wl, w), pr_Namespace = ns'\<rparr>)"
    and change: "w \<noteq> hd hist"
    and lists: "\<And>opts. kc_List cl opts wl = kc_List cl opts wj"
  shows "Reconcile (staggered cl) lib env clk req \<lparr>pr_Cluster = (hd hist, wj, hd hist), pr_Namespace = ns\<rparr> =
      (out, \<lparr>pr_Cluster = (hd hist, wj, w), pr_Namespace = ns'\<rparr>)"
    and "wj = hd hist \<Longrightarrow> Reconcile cl lib env clk req \<lparr>pr_Cluster = hd hist, pr_Namespace = ns\<rparr> =
      (out, \<lparr>pr_Cluster = w, pr_Namespace = ns'\<rparr>)"
proof -
  have agree: "versions_agree cl wg (hd hist)"
    by (rule cached_run_versions [OF run reads(1) cached_run_present [OF run]])
  obtain p h img s1 where
    dec: "decide (staggered cl) lib env req \<lparr>pr_Cluster = (wg, wl, hd hist), pr_Namespace = ns\<rparr> = (Act p h img, s1)"
    and get: "kc_Get cl req wg = Inr img" "kc_Get cl req (hd hist) = Inr img"
    and act: "act cl lib clk p h img \<lparr>pr_Cluster = hd hist, pr_Namespace = pr_Namespace s1\<rparr> =
       (out, \<lparr>pr_Cluster = w, pr_Namespace = ns'\<rparr>)"
    by (rule staggered_change [OF cl locks agree rec change])
  have dec2: "decide (staggered cl) lib env req \<lparr>pr_Cluster = (hd hist, wj, hd hist), pr_Namespace = ns\<rparr> =
      (Act p h img, \<lparr>pr_Cluster = (hd hist, wj, hd hist), pr_Namespace = pr_Namespace s1\<rparr>)"
    by (subst decide_Act_reads [OF dec]) (simp_all add: get lists)
  show "Reconcile (staggered cl) lib env clk req \<lparr>pr_Cluster = (hd hist, wj, hd hist), pr_Namespace = ns\<rparr> =
      (out, \<lparr>pr_Cluster = (hd hist, wj, w), pr_Namespace = ns'\<rparr>)"
    using Reconcile_staggered_Act [OF dec2, of clk] act by simp
  assume now: "wj = hd hist"
  have dec3: "decide cl lib env req \<lparr>pr_Cluster = hd hist, pr_Namespace = ns\<rparr> =
      (Act p h img, \<lparr>pr_Cluster = hd hist, pr_Namespace = pr_Namespace s1\<rparr>)"
    by (subst decide_Act_reads [OF dec]) (simp_all add: get lists now)
  show "Reconcile cl lib env clk req \<lparr>pr_Cluster = hd hist, pr_Namespace = ns\<rparr> =
      (out, \<lparr>pr_Cluster = w, pr_Namespace = ns'\<rparr>)"
    using Reconcile_Act [OF dec3, of clk] act by simp
qed

text \<open>The statuses that can be stored are the same as in runs of atomic passes, in every state of the history.\<close>

lemma stale_pass_inv:
  assumes cl: "client_contract cl" and ssc: "SetStatusCondition_contract (kl_SetStatusCondition lib)"
    and inv: "cluster_inv ps cl wg" "cluster_inv ps cl wu" and ps: "- {Current} \<subseteq> ps"
    and rec: "Reconcile (staggered cl) lib env clk req \<lparr>pr_Cluster = (wg, wl, wu), pr_Namespace = ns\<rparr> =
      (out, \<lparr>pr_Cluster = (wg, wl, w), pr_Namespace = ns'\<rparr>)"
  shows "cluster_inv ps cl w"
  using rec
proof (cases rule: staggered_pass_cases)
  case quiet
  then show ?thesis using inv(2) by simp
next
  case (refused p h img e w1)
  then show ?thesis using client_Update_error [OF cl refused(1)] inv(2) by simp
next
  case (stored p h img s1 w1)
  then have u: "kc_StatusUpdate cl (target_image lib p h clk img) wu = (None, w)" by simp
  have key: "key_of (target_image lib p h clk img) = req" using client_Get_key [OF cl stored(3)] by simp
  note st = cluster_invD [OF inv(1) stored(3)]
  have "p \<noteq> Current"
    using status_inv_vmid [OF st] decide_ActD(4) [OF stored(1)]
    by (auto simp: is_current_def job_phase_def split: option.splits if_splits)
  then have p: "p \<in> ps" using ps by auto
  have tgt: "status_inv ps (im_Status (target_image lib p h clk img))"
    by (rule status_inv_target [OF ssc st p hashSpec_length [OF decide_ActD(3) [OF stored(1)]]])
  show ?thesis
    unfolding cluster_inv_def
  proof (intro allI impI)
    fix req' img'
    assume g: "kc_Get cl req' w = Inr img'"
    show "status_inv ps (im_Status img')"
    proof (cases "req' = req")
      case True
      with client_Update_ok(1) [OF cl u] g tgt key show ?thesis by auto
    next
      case False
      with client_Update_ok(2) [OF cl u, of req'] g key cluster_invD [OF inv(2)] show ?thesis by simp
    qed
  qed
qed

lemma cached_run_inv:
  assumes cl: "client_contract cl" and ssc: "SetStatusCondition_contract (kl_SetStatusCondition lib)"
    and ps: "- {Current} \<subseteq> ps"
  shows "cached_run cl lib hist ns \<Longrightarrow> w \<in> set hist \<Longrightarrow> cluster_inv ps cl w"
proof (induction arbitrary: w rule: cached_run.induct)
  case (start w0)
  then show ?case by (simp add: cluster_inv_fresh)
next
  case (pass hist ns wg wl env clk req out w0 ns')
  have "cluster_inv ps cl w0"
    by (rule stale_pass_inv [OF cl ssc pass.IH [OF pass.hyps(2)] pass.IH [OF cached_run_present [OF pass.hyps(1)]]
      ps pass.hyps(4)])
  then show ?case using pass by auto
next
  case (others hist ns w0)
  have "cluster_inv ps cl w0"
    by (rule cluster_inv_environment [OF others.IH [OF cached_run_present [OF others.hyps(1)]] others.hyps(2)])
  then show ?case using others by auto
qed simp_all

section \<open>Properties\<close>

text \<open>
  Claim C6. Passes over stale reads serialize. Whatever earlier states the image and the Jobs were
  read from, a pass that changes the cluster has read the image as it is stored at the moment of
  its write, and does exactly what a pass does that reads the image at that moment; and if the
  Jobs have not changed either, it does what the atomic pass does. A pass that read an image which
  has changed since leaves the cluster as it is.
\<close>

theorem stale_pass_serializes:
  assumes cl: "client_contract cl" and locks: "update_locks cl" and run: "cached_run cl lib hist ns"
    and reads: "wg \<in> set hist" "wl \<in> set hist"
    and rec: "Reconcile (staggered cl) lib env clk req \<lparr>pr_Cluster = (wg, wl, hd hist), pr_Namespace = ns\<rparr> =
      (out, \<lparr>pr_Cluster = (wg, wl, w), pr_Namespace = ns'\<rparr>)"
    and change: "w \<noteq> hd hist"
  shows "kc_Get cl req wg = kc_Get cl req (hd hist) \<and> snd out = None \<and>
    Reconcile (staggered cl) lib env clk req \<lparr>pr_Cluster = (hd hist, wl, hd hist), pr_Namespace = ns\<rparr> =
      (out, \<lparr>pr_Cluster = (hd hist, wl, w), pr_Namespace = ns'\<rparr>) \<and>
    ((\<forall>opts. kc_List cl opts wl = kc_List cl opts (hd hist)) \<longrightarrow>
       Reconcile cl lib env clk req \<lparr>pr_Cluster = hd hist, pr_Namespace = ns\<rparr> =
         (out, \<lparr>pr_Cluster = w, pr_Namespace = ns'\<rparr>))"
proof -
  have agree: "versions_agree cl wg (hd hist)"
    by (rule cached_run_versions [OF run reads(1) cached_run_present [OF run]])
  have "kc_Get cl req wg = kc_Get cl req (hd hist) \<and> snd out = None"
    by (rule staggered_change [OF cl locks agree rec change]) simp
  then show ?thesis
    using stale_pass_serial [OF cl locks run reads rec change, of wl]
      stale_pass_serial(2) [OF cl locks run reads rec change _ refl] by simp
qed

text \<open>
  Claim C7. A status always belongs to the spec it is stored with: after a pass over stale reads
  that changed the cluster, the stored image shows the two conditions of a phase with the
  generation of the stored spec, and if it records a build, then the hash of that very spec. An
  update that races with an edit of the spec never marks the new spec as built.
\<close>

theorem stale_pass_status_of_spec:
  assumes cl: "client_contract cl" and ssc: "SetStatusCondition_contract (kl_SetStatusCondition lib)"
    and locks: "update_locks cl" and run: "cached_run cl lib hist ns"
    and reads: "wg \<in> set hist" "wl \<in> set hist"
    and rec: "Reconcile (staggered cl) lib env clk req \<lparr>pr_Cluster = (wg, wl, hd hist), pr_Namespace = ns\<rparr> =
      (out, \<lparr>pr_Cluster = (wg, wl, w), pr_Namespace = ns'\<rparr>)"
    and change: "w \<noteq> hd hist"
  shows "\<exists>p img before. kc_Get cl req w = Inr img \<and> kc_Get cl req (hd hist) = Inr before \<and>
    im_Spec img = im_Spec before \<and>
    has_row img ConditionTypeBuilding (building_row p) \<and>
    has_row img ConditionTypeBuildSucceeded (succeeded_row p) \<and>
    (if p = Succeeded then hashSpec lib (im_Spec img) = Inr (ist_ObservedSpecHash (im_Status img))
     else ist_ObservedSpecHash (im_Status img) = ist_ObservedSpecHash (im_Status before))"
proof -
  have agree: "versions_agree cl wg (hd hist)"
    by (rule cached_run_versions [OF run reads(1) cached_run_present [OF run]])
  obtain p h before s1 where
    dec: "decide (staggered cl) lib env req \<lparr>pr_Cluster = (wg, wl, hd hist), pr_Namespace = ns\<rparr> = (Act p h before, s1)"
    and get: "kc_Get cl req (hd hist) = Inr before" and out: "out = (delay p, None)"
    and act: "act cl lib clk p h before \<lparr>pr_Cluster = hd hist, pr_Namespace = pr_Namespace s1\<rparr> =
       (out, \<lparr>pr_Cluster = w, pr_Namespace = ns'\<rparr>)"
    by (rule staggered_change [OF cl locks agree rec change])
  obtain img where img: "kc_Get cl req w = Inr img" "same_but_version img (target_image lib p h clk before)"
    using act_ok(1) [OF cl ssc _ act [unfolded out], of req] get by auto
  note f = same_but_version_fields [OF img(2)]
  have "has_row img ConditionTypeBuilding (building_row p)" "has_row img ConditionTypeBuildSucceeded (succeeded_row p)"
    using target_rows [OF ssc, of p h clk before] by (simp_all add: has_row_def f)
  then show ?thesis
    using img(1) get f decide_ActD(3) [OF dec] by (intro exI [of _ p] exI [of _ img] exI [of _ before]) simp
qed

text \<open>
  Claim C8. The invariant of the stored statuses needs no atomic pass: in every state of a history
  in which passes read what they like and run into each other, the status of an image is empty or
  shows the condition pair of one phase of a build, never \<open>Building\<close> and \<open>BuildSucceeded\<close> both
  true, with the time of the last build and the hash recorded together, and no template is ever
  recorded.
\<close>

theorem cached_run_status_invariant:
  assumes cl: "client_contract cl" and ssc: "SetStatusCondition_contract (kl_SetStatusCondition lib)"
    and run: "cached_run cl lib hist ns" and w: "w \<in> set hist"
    and get: "kc_Get cl req w = Inr img"
  shows "ist_TemplateVMID (im_Status img) = None \<and> (im_Status img = emptyStatus \<or>
    ((\<exists>p \<in> {Pending, Running, Succeeded, Failed}. shows_phase (im_Status img) p) \<and>
     distinct (map co_Type (ist_Conditions (im_Status img))) \<and>
     \<not> (\<exists>b c. cond_of ConditionTypeBuilding (ist_Conditions (im_Status img)) = Some b \<and>
          cond_of ConditionTypeBuildSucceeded (ist_Conditions (im_Status img)) = Some c \<and>
          co_Status b = ConditionTrue \<and> co_Status c = ConditionTrue) \<and>
     (if ist_LastBuildTime (im_Status img) = None then ist_ObservedSpecHash (im_Status img) = ''''
      else length (ist_ObservedSpecHash (im_Status img)) = 64)))"
proof -
  have "p \<in> {Pending, Running, Succeeded, Failed}" if "p \<noteq> Current" for p
    using that by (cases p) simp_all
  then have "cluster_inv {Pending, Running, Succeeded, Failed} cl w"
    by (intro cached_run_inv [OF cl ssc _ run w]) blast
  from cluster_invD [OF this get] show ?thesis
    unfolding status_inv_def by (elim disjE conjE bexE) (auto simp: shows_phase_def emptyStatus_def)
qed

section \<open>Witnesses\<close>

lemma mem_client_locks: "update_locks (mem_client adm)"
  by (auto simp: update_locks_def mem_StatusUpdate_def split: sum.splits if_splits)

text \<open>A history in which the Job completes after a first pass has listed the Jobs.\<close>

definition sampleHistory :: "memory list" where
  "sampleHistory = [sampleCluster sampleImage [completeJob], sampleCluster sampleImage []]"

lemma sampleHistory_run: "cached_run (mem_client anyJob) mem_libs sampleHistory ns_init"
  unfolding sampleHistory_def
proof (rule cached_run.others)
  show "cached_run (mem_client anyJob) mem_libs [sampleCluster sampleImage []] ns_init"
    by (rule cached_run.start) (auto simp: fresh_cluster_def sampleImage_def emptyStatus_def)
qed (auto simp: environment_step_def versions_agree_def)

lemma sampleHistory_fields [simp]:
  "hd sampleHistory = sampleCluster sampleImage [completeJob]"
  "sampleCluster sampleImage [] \<in> set sampleHistory"
  by (simp_all add: sampleHistory_def)

text \<open>That pass, which writes after the Job has completed.\<close>

lemma sample_stale_pass:
  obtains w ns' where
    "Reconcile (staggered (mem_client anyJob)) mem_libs sampleEnv clock sampleReq
       \<lparr>pr_Cluster = (sampleCluster sampleImage [], sampleCluster sampleImage [], hd sampleHistory), pr_Namespace = ns_init\<rparr> =
     ((delay Pending, None), \<lparr>pr_Cluster = (sampleCluster sampleImage [], sampleCluster sampleImage [], w), pr_Namespace = ns'\<rparr>)"
    "w \<noteq> hd sampleHistory"
proof -
  let ?cl = "mem_client anyJob" and ?w0 = "sampleCluster sampleImage []" and ?w1 = "sampleCluster sampleImage [completeJob]"
  let ?s1 = "\<lparr>pr_Cluster = ?w1, pr_Namespace = sampleCache\<rparr>"
  have dec0: "decide ?cl mem_libs sampleEnv sampleReq (sampleProcess sampleImage []) =
      (Act Pending sampleHash sampleImage, (sampleProcess sampleImage [])\<lparr>pr_Namespace := sampleCache\<rparr>)"
    by (rule sample_decide(1)) simp_all
  have dec: "decide (staggered ?cl) mem_libs sampleEnv sampleReq \<lparr>pr_Cluster = (?w0, ?w0, ?w1), pr_Namespace = ns_init\<rparr> =
      (Act Pending sampleHash sampleImage, \<lparr>pr_Cluster = (?w0, ?w0, ?w1), pr_Namespace = sampleCache\<rparr>)"
    by (subst decide_Act_reads [OF dec0]) simp_all
  have "\<exists>s'. act ?cl mem_libs clock Pending sampleHash sampleImage
      ((sampleProcess sampleImage [completeJob])\<lparr>pr_Namespace := sampleCache\<rparr>) = ((delay Pending, None), s')"
    by (rule sample_act) simp
  then obtain s' where act: "act ?cl mem_libs clock Pending sampleHash sampleImage ?s1 = ((delay Pending, None), s')"
    by (auto simp: sampleProcess_def)
  obtain st where st: "mem_Get sampleReq (pr_Cluster s') = Inr st"
    "same_but_version st (target_image mem_libs Pending sampleHash clock sampleImage)"
    using act_ok(1) [OF mem_client_ok mem_libs_ok _ act, of sampleReq] by auto
  have "cond_of ConditionTypeBuilding (ist_Conditions (im_Status st)) \<noteq> None"
    using target_rows(1) [OF mem_libs_ok, of Pending sampleHash clock sampleImage]
      same_but_version_fields(2) [OF st(2)] by (auto simp: has_row_def)
  then have "st \<noteq> sampleImage" by auto
  then have "pr_Cluster s' \<noteq> ?w1" using st(1) by auto
  then show ?thesis
    using that [of "pr_Cluster s'" "pr_Namespace s'"] Reconcile_staggered_Act [OF dec, of clock] act by simp
qed

theorem stale_pass_serializes_witness:
  "\<exists>w ns'. w \<noteq> hd sampleHistory \<and>
     Reconcile (staggered (mem_client anyJob)) mem_libs sampleEnv clock sampleReq
       \<lparr>pr_Cluster = (hd sampleHistory, sampleCluster sampleImage [], hd sampleHistory), pr_Namespace = ns_init\<rparr> =
     ((delay Pending, None), \<lparr>pr_Cluster = (hd sampleHistory, sampleCluster sampleImage [], w), pr_Namespace = ns'\<rparr>)"
proof -
  obtain w ns' where r: "Reconcile (staggered (mem_client anyJob)) mem_libs sampleEnv clock sampleReq
       \<lparr>pr_Cluster = (sampleCluster sampleImage [], sampleCluster sampleImage [], hd sampleHistory), pr_Namespace = ns_init\<rparr> =
     ((delay Pending, None), \<lparr>pr_Cluster = (sampleCluster sampleImage [], sampleCluster sampleImage [], w), pr_Namespace = ns'\<rparr>)"
    "w \<noteq> hd sampleHistory"
    by (rule sample_stale_pass)
  from stale_pass_serializes [OF mem_client_ok mem_client_locks sampleHistory_run
      sampleHistory_fields(2) sampleHistory_fields(2) r] r(2)
  show ?thesis by blast
qed

theorem stale_pass_status_of_spec_witness:
  "\<exists>w img p. w \<noteq> hd sampleHistory \<and> mem_Get sampleReq w = Inr img \<and>
     has_row img ConditionTypeBuilding (building_row p)"
proof -
  obtain w ns' where r: "Reconcile (staggered (mem_client anyJob)) mem_libs sampleEnv clock sampleReq
       \<lparr>pr_Cluster = (sampleCluster sampleImage [], sampleCluster sampleImage [], hd sampleHistory), pr_Namespace = ns_init\<rparr> =
     ((delay Pending, None), \<lparr>pr_Cluster = (sampleCluster sampleImage [], sampleCluster sampleImage [], w), pr_Namespace = ns'\<rparr>)"
    "w \<noteq> hd sampleHistory"
    by (rule sample_stale_pass)
  from stale_pass_status_of_spec [OF mem_client_ok mem_libs_ok mem_client_locks sampleHistory_run
      sampleHistory_fields(2) sampleHistory_fields(2) r] r(2)
  show ?thesis unfolding mem_client_simps by blast
qed

theorem cached_run_status_invariant_witness:
  "ist_TemplateVMID (im_Status sampleImage) = None \<and> cached_run (mem_client anyJob) mem_libs sampleHistory ns_init"
  using cached_run_status_invariant [OF mem_client_ok mem_libs_ok sampleHistory_run sampleHistory_fields(2), of sampleReq sampleImage]
    sampleHistory_run by simp

end
