(* ===== verification/Namespace_Concurrent.thy ===== *)
theory Namespace_Concurrent
  imports Namespace
begin

text \<open>
  \<open>controllerNamespace\<close> under concurrent callers. The package variables of \<open>namespace.go\<close> are shared
  by all goroutines of the process, and the model of \<open>Namespace\<close> takes a call as one step. Here a call
  takes the steps of \<open>sync.Once.Do\<close> in Go's standard library (a test of the flag, and if it is not
  set the mutex, the test again, the function, the flag, the unlocking) and then loads the cached
  value; the steps of the goroutines interleave freely, and each resolution may meet another
  environment. The theorem says that nothing of this can be told from calls one after the other.
\<close>

section \<open>Steps of a call\<close>

datatype call_pc = Enter | Lock | Check | Resolve | Finish | Unlock | Load | Idle

text \<open>The flag and the mutex of \<open>namespaceOnce\<close>, the cached value, where each goroutine is, and what calls have returned.\<close>

record once_state =
  on_done :: bool
  on_mutex :: "nat option"
  on_cached :: string
  on_pc :: "nat \<Rightarrow> call_pc"
  on_returned :: "string list"

definition at :: "nat \<Rightarrow> call_pc \<Rightarrow> once_state \<Rightarrow> once_state" where
  "at g p s = s\<lparr>on_pc := (on_pc s)(g := p)\<rparr>"

inductive once_step :: "once_state \<Rightarrow> once_state \<Rightarrow> bool" where
  call: "on_pc s g = Idle \<Longrightarrow> once_step s (at g Enter s)"
| fast: "on_pc s g = Enter \<Longrightarrow> on_done s \<Longrightarrow> once_step s (at g Load s)"
| slow: "on_pc s g = Enter \<Longrightarrow> \<not> on_done s \<Longrightarrow> once_step s (at g Lock s)"
| lock: "on_pc s g = Lock \<Longrightarrow> on_mutex s = None \<Longrightarrow> once_step s (at g Check (s\<lparr>on_mutex := Some g\<rparr>))"
| late: "on_pc s g = Check \<Longrightarrow> on_done s \<Longrightarrow> once_step s (at g Unlock s)"
| first: "on_pc s g = Check \<Longrightarrow> \<not> on_done s \<Longrightarrow> once_step s (at g Resolve s)"
| resolve: "on_pc s g = Resolve \<Longrightarrow>
    once_step s (at g Finish (s\<lparr>on_cached := resolveNamespace env\<rparr>))"
| finish: "on_pc s g = Finish \<Longrightarrow> once_step s (at g Unlock (s\<lparr>on_done := True\<rparr>))"
| unlock: "on_pc s g = Unlock \<Longrightarrow> once_step s (at g Load (s\<lparr>on_mutex := None\<rparr>))"
| load: "on_pc s g = Load \<Longrightarrow>
    once_step s (at g Idle (s\<lparr>on_returned := on_returned s @ [on_cached s]\<rparr>))"

definition once_init :: once_state where
  "once_init = \<lparr>on_done = False, on_mutex = None, on_cached = '''', on_pc = (\<lambda>g. Idle), on_returned = []\<rparr>"

inductive once_run :: "once_state \<Rightarrow> bool" where
  start: "once_run once_init"
| step: "once_run s \<Longrightarrow> once_step s s' \<Longrightarrow> once_run s'"

lemma at_fields [simp]:
  "on_pc (at g p s) = (on_pc s)(g := p)" "on_done (at g p s) = on_done s" "on_mutex (at g p s) = on_mutex s"
  "on_cached (at g p s) = on_cached s" "on_returned (at g p s) = on_returned s"
  by (simp_all add: at_def)

section \<open>The invariant\<close>

definition holds_lock :: "call_pc \<Rightarrow> bool" where
  "holds_lock p \<longleftrightarrow> p \<in> {Check, Resolve, Finish, Unlock}"

lemma holds_lock_simps [simp]:
  "holds_lock Check" "holds_lock Resolve" "holds_lock Finish" "holds_lock Unlock"
  "\<not> holds_lock Enter" "\<not> holds_lock Lock" "\<not> holds_lock Load" "\<not> holds_lock Idle"
  by (simp_all add: holds_lock_def)

definition resolved :: "once_state \<Rightarrow> bool" where
  "resolved s \<longleftrightarrow> on_done s \<or> (\<exists>g. on_pc s g = Finish)"

text \<open>Exactly the holder of the mutex is between its locking and its unlocking.\<close>

definition lock_inv :: "once_state \<Rightarrow> bool" where
  "lock_inv s \<longleftrightarrow> (\<forall>g. holds_lock (on_pc s g) = (on_mutex s = Some g))"

text \<open>Nobody resolves once the flag is set, and nobody loads before it is.\<close>

definition order_inv :: "once_state \<Rightarrow> bool" where
  "order_inv s \<longleftrightarrow> (\<forall>g. (on_pc s g = Resolve \<or> on_pc s g = Finish \<longrightarrow> \<not> on_done s) \<and>
     (on_pc s g = Unlock \<or> on_pc s g = Load \<longrightarrow> on_done s))"

text \<open>A resolved value is one of an environment; what has been returned is the cached value.\<close>

definition value_inv :: "once_state \<Rightarrow> bool" where
  "value_inv s \<longleftrightarrow> (resolved s \<longrightarrow> on_cached s \<in> range resolveNamespace) \<and>
     (on_returned s \<noteq> [] \<longrightarrow> on_done s) \<and> set (on_returned s) \<subseteq> {on_cached s}"

lemma lock_invD: "lock_inv s \<Longrightarrow> holds_lock (on_pc s g) \<Longrightarrow> holds_lock (on_pc s g') \<Longrightarrow> g' = g"
  by (simp add: lock_inv_def)

lemma lock_inv_step: "once_step s s' \<Longrightarrow> lock_inv s \<Longrightarrow> lock_inv s'"
  by (erule once_step.cases) (simp_all add: lock_inv_def, (metis holds_lock_simps option.inject)+)

lemma order_inv_step:
  assumes "once_step s s'" "lock_inv s" "order_inv s"
  shows "order_inv s'"
  using assms(1)
proof cases
  case (finish g)
  then have "\<not> (on_pc s g' = Resolve \<or> on_pc s g' = Finish)" if "g' \<noteq> g" for g'
    using lock_invD [OF assms(2), of g g'] that by auto
  with finish assms(3) show ?thesis by (simp add: order_inv_def)
qed (use assms(3) in \<open>auto simp: order_inv_def\<close>)

lemma value_inv_step:
  assumes "once_step s s'" "order_inv s" "value_inv s"
  shows "value_inv s'"
  using assms(1)
proof cases
  case (resolve g env)
  then have "\<not> on_done s" using assms(2) by (simp add: order_inv_def)
  with resolve assms(3) show ?thesis by (simp add: value_inv_def)
next
  case (finish g)
  then have "resolved s" by (auto simp: resolved_def)
  with finish assms(3) show ?thesis by (simp add: value_inv_def)
next
  case (load g)
  then have "on_done s" using assms(2) by (simp add: order_inv_def)
  with load assms(3) show ?thesis by (auto simp: value_inv_def resolved_def)
qed (use assms(3) in \<open>auto simp: value_inv_def resolved_def split: if_splits\<close>)

lemma once_run_inv: "once_run s \<Longrightarrow> lock_inv s \<and> order_inv s \<and> value_inv s"
proof (induction rule: once_run.induct)
  case start
  then show ?case
    by (simp add: lock_inv_def order_inv_def value_inv_def once_init_def resolved_def)
next
  case (step s s')
  then show ?case using lock_inv_step order_inv_step value_inv_step by blast
qed

section \<open>Properties\<close>

lemma ns_calls_replicate: "ns_calls (replicate n env) ns_init = replicate n (resolveNamespace env)"
  by (cases n) (simp_all add: controllerNamespace_def ns_init_def ns_calls_cached Let_def)

lemma replicate_set: "set xs \<subseteq> {x} \<Longrightarrow> xs = replicate (length xs) x"
  by (simp add: replicate_eqI subset_iff)

text \<open>
  Claim C9. Concurrent calls behave like calls one after the other: in every state that any
  interleaving of the steps reaches, the values returned so far are those that the same number of
  sequential calls of \<open>controllerNamespace\<close> return; the namespace is resolved by one goroutine at a
  time and never again after a value has been returned, and nobody loads the variable while it is
  being written.
\<close>

theorem concurrent_calls_sequential:
  assumes run: "once_run s"
  shows "(\<exists>envs. length envs = length (on_returned s) \<and> on_returned s = ns_calls envs ns_init) \<and>
    (\<forall>g g'. on_pc s g = Resolve \<longrightarrow> on_returned s = [] \<and> on_pc s g' \<noteq> Load \<and>
       (on_pc s g' = Resolve \<longrightarrow> g' = g))"
proof (intro conjI allI impI)
  note inv = once_run_inv [OF run]
  show "\<exists>envs. length envs = length (on_returned s) \<and> on_returned s = ns_calls envs ns_init"
  proof (cases "on_returned s = []")
    case True
    then show ?thesis by simp
  next
    case False
    then obtain env where "on_cached s = resolveNamespace env"
      using inv by (auto simp: value_inv_def resolved_def)
    then have "on_returned s = replicate (length (on_returned s)) (resolveNamespace env)"
      using inv replicate_set [of "on_returned s" "resolveNamespace env"] by (simp add: value_inv_def)
    then show ?thesis
      using ns_calls_replicate [of "length (on_returned s)" env] by (metis length_replicate)
  qed
  fix g g'
  assume g: "on_pc s g = Resolve"
  show "on_returned s = []" "on_pc s g' \<noteq> Load"
    using inv g by (auto simp: value_inv_def order_inv_def)
  show "on_pc s g' = Resolve \<Longrightarrow> g' = g"
    using lock_invD [of s g g'] inv g by simp
qed

section \<open>A scheduler\<close>

text \<open>The next step of a goroutine, if it is not waiting for the mutex, and the run of a schedule.\<close>

definition once_next :: "process_env \<Rightarrow> nat \<Rightarrow> once_state \<Rightarrow> once_state option" where
  "once_next env g s = (case on_pc s g of
     Idle \<Rightarrow> Some (at g Enter s)
   | Enter \<Rightarrow> Some (at g (if on_done s then Load else Lock) s)
   | Lock \<Rightarrow> if on_mutex s = None then Some (at g Check (s\<lparr>on_mutex := Some g\<rparr>)) else None
   | Check \<Rightarrow> Some (at g (if on_done s then Unlock else Resolve) s)
   | Resolve \<Rightarrow> Some (at g Finish (s\<lparr>on_cached := resolveNamespace env\<rparr>))
   | Finish \<Rightarrow> Some (at g Unlock (s\<lparr>on_done := True\<rparr>))
   | Unlock \<Rightarrow> Some (at g Load (s\<lparr>on_mutex := None\<rparr>))
   | Load \<Rightarrow> Some (at g Idle (s\<lparr>on_returned := on_returned s @ [on_cached s]\<rparr>)))"

lemma once_next_step: "once_next env g s = Some s' \<Longrightarrow> once_step s s'"
  by (auto simp: once_next_def intro: once_step.intros split: call_pc.splits if_splits)

fun once_schedule :: "process_env \<Rightarrow> nat list \<Rightarrow> once_state \<Rightarrow> once_state option" where
  "once_schedule env [] s = Some s"
| "once_schedule env (g # gs) s = Option.bind (once_next env g s) (once_schedule env gs)"

lemma once_schedule_run: "once_run s \<Longrightarrow> once_schedule env gs s = Some s' \<Longrightarrow> once_run s'"
proof (induction gs arbitrary: s)
  case (Cons g gs)
  then obtain s1 where "once_next env g s = Some s1" "once_schedule env gs s1 = Some s'"
    by (auto simp: bind_eq_Some_conv)
  then show ?case using Cons.IH once_run.step [OF Cons.prems(1) once_next_step] by blast
qed simp

text \<open>Two goroutines: the second one waits for the mutex while the first one resolves.\<close>

definition sampleSchedule :: "nat list" where
  "sampleSchedule = [0, 0, 1, 1, 0, 0, 0, 0, 0, 1, 1, 1, 0, 1]"

lemma sample_schedule:
  "\<exists>s. once_schedule env sampleSchedule once_init = Some s \<and> length (on_returned s) = 2"
  by (simp add: sampleSchedule_def once_next_def once_init_def)

theorem concurrent_calls_sequential_witness:
  "\<exists>s e es. once_run s \<and> length (on_returned s) = 2 \<and> on_returned s = ns_calls (e # es) ns_init"
proof -
  obtain s where s: "once_run s" "length (on_returned s) = 2"
    using sample_schedule once_schedule_run [OF once_run.start] by blast
  obtain envs where "length envs = 2" "on_returned s = ns_calls envs ns_init"
    using concurrent_calls_sequential [OF s(1)] s(2) by auto
  moreover from this(1) obtain e es where "envs = e # es" by (cases envs) auto
  ultimately show ?thesis using s by blast
qed

end
