(* ===== verification/Hcl_Strings.thy ===== *)
theory Hcl_Strings
  imports Crd_Image
begin

text \<open>
  What Packer reads where \<open>renderPkrvars\<close> has written a string. The code quotes with Go's
  \<open>strconv.Quote\<close>, the file is HCL, and the two syntaxes differ: HCL knows fewer escapes and takes
  \<open>${\<close> and \<open>%{\<close> as the start of a template. HCL's reader is not part of the repository; it is the
  parameter \<open>rd\<close>, from the text between the quotes to the constant string it stands for, if there is
  one, with the documented rules of HCL's quoted literals as its contract. Of templates the contract
  says only that a reference to a variable is refused, as Packer does in a file of variable values;
  what a constant template such as \<open>${1}\<close> gives is left open. The string is the one before the
  Unicode normalization that HCL applies to every value.
\<close>

section \<open>The contract of the reader\<close>

abbreviation brace :: char where
  "brace \<equiv> CHR ''{''"

definition marks :: "char set" where
  "marks = {CHR ''$'', CHR ''%''}"

definition prefixed :: "string \<Rightarrow> string option \<Rightarrow> string option" where
  "prefixed p x = map_option (\<lambda>v. p @ v) x"

lemma prefixed_simps [simp]:
  "prefixed p None = None" "prefixed p (Some v) = Some (p @ v)"
  "prefixed [] x = x" "prefixed p (prefixed q x) = prefixed (p @ q) x"
  by (simp_all add: prefixed_def option.map_comp comp_def option.map_ident)

text \<open>The escapes: a backslash and what it introduces, and what that stands for.\<close>

definition hcl_letters :: "(string \<times> string) set" where
  "hcl_letters = {(''n'', [chr 10]), (''r'', [chr 13]), (''t'', [chr 9]), ([dquote], [dquote]), ([bslash], [bslash])}"

definition hcl_escapes :: "(string \<times> string) set" where
  "hcl_escapes = hcl_letters \<union>
     {(CHR ''u'' # hexN 4 r, appendRune r) |r. validRune r \<and> r < 0x10000} \<union>
     {(CHR ''U'' # hexN 8 r, appendRune r) |r. validRune r}"

text \<open>A name that HCL takes for a reference to a variable.\<close>

definition hcl_reference :: "string \<Rightarrow> bool" where
  "hcl_reference x \<longleftrightarrow> x \<noteq> [] \<and> isLetter (hd x) \<and> (\<forall>c \<in> set x. isAlnum c \<or> c = CHR ''_'' \<or> c = CHR ''-'') \<and>
     x \<notin> {''true'', ''false'', ''null''}"

definition hcl_literal_contract :: "(string \<Rightarrow> string option) \<Rightarrow> bool" where
  "hcl_literal_contract rd \<longleftrightarrow>
     rd [] = Some [] \<and>
     (\<forall>c t. 0x20 \<le> byte c \<longrightarrow> c \<noteq> dquote \<longrightarrow> c \<noteq> bslash \<longrightarrow> c \<notin> marks \<longrightarrow> rd (c # t) = prefixed [c] (rd t)) \<and>
     (\<forall>c \<in> marks. \<forall>t. t = [] \<or> hd t \<notin> {brace, c} \<longrightarrow> rd (c # t) = prefixed [c] (rd t)) \<and>
     (\<forall>x t. hcl_reference x \<longrightarrow> rd (''${'' @ x @ ''}'' @ t) = None) \<and>
     (\<forall>c \<in> marks. \<forall>t. rd (c # c # brace # t) = prefixed [c, brace] (rd t)) \<and>
     (\<forall>e v t. (e, v) \<in> hcl_escapes \<longrightarrow> rd (bslash # e @ t) = prefixed v (rd t)) \<and>
     (\<forall>c t. c \<notin> {CHR ''n'', CHR ''r'', CHR ''t'', dquote, bslash, CHR ''u'', CHR ''U''} \<longrightarrow>
        rd (bslash # c # t) = None)"

lemma hcl_literalD:
  assumes "hcl_literal_contract rd"
  shows "rd [] = Some []"
    and "0x20 \<le> byte c \<Longrightarrow> c \<noteq> dquote \<Longrightarrow> c \<noteq> bslash \<Longrightarrow> c \<notin> marks \<Longrightarrow> rd (c # t) = prefixed [c] (rd t)"
    and "c \<in> marks \<Longrightarrow> t = [] \<or> hd t \<notin> {brace, c} \<Longrightarrow> rd (c # t) = prefixed [c] (rd t)"
    and "hcl_reference x \<Longrightarrow> rd (''${'' @ x @ ''}'' @ t) = None"
    and "c \<in> marks \<Longrightarrow> rd (c # c # brace # t) = prefixed [c, brace] (rd t)"
    and "(e, v) \<in> hcl_escapes \<Longrightarrow> rd (bslash # e @ t) = prefixed v (rd t)"
    and "c \<notin> {CHR ''n'', CHR ''r'', CHR ''t'', dquote, bslash, CHR ''u'', CHR ''U''} \<Longrightarrow> rd (bslash # c # t) = None"
proof -
  note c = assms [unfolded hcl_literal_contract_def]
  show "rd [] = Some []" using c by simp
  show "0x20 \<le> byte c \<Longrightarrow> c \<noteq> dquote \<Longrightarrow> c \<noteq> bslash \<Longrightarrow> c \<notin> marks \<Longrightarrow> rd (c # t) = prefixed [c] (rd t)"
    using c by simp
  show "c \<in> marks \<Longrightarrow> t = [] \<or> hd t \<notin> {brace, c} \<Longrightarrow> rd (c # t) = prefixed [c] (rd t)"
    by (rule mp [OF spec [OF bspec [OF c [THEN conjunct2, THEN conjunct2, THEN conjunct1]]]])
  show "hcl_reference x \<Longrightarrow> rd (''${'' @ x @ ''}'' @ t) = None"
    by (rule mp [OF spec [OF spec [OF c [THEN conjunct2, THEN conjunct2, THEN conjunct2, THEN conjunct1]]]])
  show "c \<in> marks \<Longrightarrow> rd (c # c # brace # t) = prefixed [c, brace] (rd t)" using c by simp
  show "(e, v) \<in> hcl_escapes \<Longrightarrow> rd (bslash # e @ t) = prefixed v (rd t)" using c by simp
  show "c \<notin> {CHR ''n'', CHR ''r'', CHR ''t'', dquote, bslash, CHR ''u'', CHR ''U''} \<Longrightarrow> rd (bslash # c # t) = None"
    using c by simp
qed

section \<open>The strings that survive\<close>

text \<open>
  Rune by rune: correct UTF-8, and no control character other than tab, line feed and carriage
  return.
\<close>

definition hcl_rune :: "nat \<Rightarrow> bool" where
  "hcl_rune r \<longleftrightarrow> 0x20 \<le> r \<and> r \<noteq> 0x7F \<or> r \<in> {9, 10, 13}"

function hcl_plain :: "string \<Rightarrow> bool" where
  "hcl_plain [] = True"
| "hcl_plain (c # cs) =
     (case decodeRune (c # cs) of (r, w) \<Rightarrow>
        \<not> (w = 1 \<and> r = RuneError) \<and> hcl_rune r \<and> hcl_plain (drop (w - 1) cs))"
  by pat_completeness auto
termination
  by (relation "measure length") auto







section \<open>Reading what Quote has written\<close>





lemma quoteBody_rune:
  assumes "decodeRune (c # cs) = (r, w)"
  shows "\<not> (w = 1 \<and> r = RuneError) \<Longrightarrow> quoteBody up (c # cs) = escapedRune up r @ quoteBody up (drop (w - 1) cs)"
    and "w = 1 \<and> r = RuneError \<Longrightarrow> quoteBody up (c # cs) = bslash # CHR ''x'' # hexN 2 (byte c) @ quoteBody up cs"
  using assms by auto


declare quoteBody.simps(2) [simp del] hcl_plain.simps(2) [simp del]





section \<open>A reader\<close>

text \<open>
  A reader of literals that meets the contract: it evaluates no template, constant or not, and
  refuses wrong escapes.
\<close>

definition hcl_escape :: "string \<Rightarrow> (string \<times> string) option" where
  "hcl_escape s = (case s of [] \<Rightarrow> None | e # cs \<Rightarrow>
     if e = bslash \<or> e = dquote then Some ([e], cs)
     else if e = CHR ''n'' then Some ([chr 10], cs)
     else if e = CHR ''r'' then Some ([chr 13], cs)
     else if e = CHR ''t'' then Some ([chr 9], cs)
     else if e = CHR ''u'' then map_option (\<lambda>(n, t). (appendRune n, t)) (readHex 4 0 cs)
     else if e = CHR ''U'' then map_option (\<lambda>(n, t). (appendRune n, t)) (readHex 8 0 cs)
     else None)"

lemma hcl_escape_length: "hcl_escape s = Some (p, t) \<Longrightarrow> length t < length s"
  by (auto simp: hcl_escape_def dest!: readHex_length split: list.splits if_splits)

function hcl_read :: "string \<Rightarrow> string option" where
  "hcl_read [] = Some []"
| "hcl_read (c # cs) =
     (if c = bslash then
        (case hcl_escape cs of None \<Rightarrow> None | Some (p, t) \<Rightarrow> prefixed p (hcl_read t))
      else if c = dquote \<or> byte c < 0x20 then None
      else if c \<in> marks \<and> cs \<noteq> [] \<and> hd cs = brace then None
      else if c \<in> marks \<and> take 2 cs = [c, brace] then prefixed [c, brace] (hcl_read (drop 2 cs))
      else prefixed [c] (hcl_read cs))"
  by pat_completeness auto
termination
  by (relation "measure length") (auto dest: hcl_escape_length)

lemma hcl_escapes_read:
  assumes "(e, v) \<in> hcl_escapes"
  shows "hcl_escape (e @ t) = Some (v, t)"
proof -
  from assms consider "(e, v) \<in> hcl_letters"
    | r where "e = CHR ''u'' # hexN 4 r" "v = appendRune r" "r < 0x10000"
    | r where "e = CHR ''U'' # hexN 8 r" "v = appendRune r" "validRune r"
    unfolding hcl_escapes_def by blast
  then show ?thesis
  proof cases
    case 1
    then show ?thesis unfolding hcl_letters_def by (elim insertE emptyE) (simp_all add: hcl_escape_def)
  next
    case 2
    then show ?thesis by (simp add: hcl_escape_def readHex_hexN)
  next
    case 3
    then have "r < 16 ^ 8" by (auto simp: validRune_def)
    with 3 show ?thesis by (simp add: hcl_escape_def readHex_hexN)
  qed
qed

lemma marks_brace: "c \<in> marks \<Longrightarrow> c \<noteq> brace \<and> c \<noteq> bslash \<and> c \<noteq> dquote \<and> \<not> byte c < 0x20"
  by (auto simp: marks_def)

lemma hcl_read_ok: "hcl_literal_contract hcl_read"
  unfolding hcl_literal_contract_def
proof (intro conjI allI ballI impI)
  show "hcl_read (c # t) = prefixed [c] (hcl_read t)" if "c \<in> marks" "t = [] \<or> hd t \<notin> {brace, c}" for c t
    using that marks_brace [OF that(1)] by (cases t) auto
  show "hcl_read (c # c # brace # t) = prefixed [c, brace] (hcl_read t)" if "c \<in> marks" for c t
    using that marks_brace [OF that] by (simp add: numeral_2_eq_2)
  show "hcl_read (''${'' @ x @ ''}'' @ t) = None" for x t
    by (simp add: marks_def)
  show "hcl_read (bslash # e @ t) = prefixed v (hcl_read t)" if "(e, v) \<in> hcl_escapes" for e v t
    using hcl_escapes_read [OF that, of t] by simp
  show "hcl_read (bslash # c # t) = None"
    if "c \<notin> {CHR ''n'', CHR ''r'', CHR ''t'', dquote, bslash, CHR ''u'', CHR ''U''}" for c t
    using that by (simp add: hcl_escape_def)
qed simp_all

text \<open>The escape of HCL is not one of Go: a doubled sign before a brace comes out single.\<close>

lemma doubled_sign_lost: "hcl_read (quoteBody up ''$${x}'') = Some ''${x}''"
proof -
  have "quoteBody up ''$${x}'' = ''$${x}''"
    by (rule quoteBody_identity) (simp add: ball_Un)
  then show ?thesis by (simp add: marks_def numeral_2_eq_2)
qed

section \<open>The rendered file\<close>










section \<open>Properties\<close>




text \<open>A reference to a variable is written as it is.\<close>

lemma quoteBody_printable:
  assumes "\<forall>c \<in> set p. 0x20 \<le> byte c \<and> byte c < 0x7F \<and> byte c \<noteq> 0x22 \<and> byte c \<noteq> 0x5C"
  shows "quoteBody up (p @ q) = p @ quoteBody up q"
  using assms
proof (induction p)
  case (Cons c p)
  have "escapedRune up (byte c) = [c]"
    using Cons.prems by (simp add: escapedRune_def isPrint_def appendRune_ascii)
  then show ?case using Cons quoteBody_rune(1) [of c "p @ q" "byte c" 1 up] by simp
qed simp

lemma quoteBody_reference:
  assumes "hcl_reference x"
  shows "quoteBody up (''${'' @ x @ ''}'' @ q) = ''${'' @ x @ ''}'' @ quoteBody up q"
proof -
  have "0x20 \<le> byte c \<and> byte c < 0x7F \<and> byte c \<noteq> 0x22 \<and> byte c \<noteq> 0x5C"
    if "isAlnum c \<or> c = CHR ''_'' \<or> c = CHR ''-''" for c
    using that unfolding isAlnum_def isLetter_def isLower_def isUpper_def isDigit_def
    by (elim disjE conjE) simp_all
  then have "\<forall>c \<in> set (''${'' @ x @ ''}''). 0x20 \<le> byte c \<and> byte c < 0x7F \<and> byte c \<noteq> 0x22 \<and> byte c \<noteq> 0x5C"
    using assms by (auto simp: hcl_reference_def)
  from quoteBody_printable [OF this, of up q] show ?thesis by simp
qed

text \<open>
  Claim C39. The rules of the API let unreadable values through: take any object that is stored and
  gives a location, and write a checksum in it that begins with a reference to a variable. It is
  stored as well and decodes to the same spec with that checksum, \<open>pkrvarsFromImage\<close> reports no
  error for it if it reported none for the first one, and in the file that \<open>renderPkrvars\<close> then
  writes the line of the checksum holds a quoted text that HCL does not read: the build fails
  only when Packer loads the file.
\<close>

theorem admitted_value_unreadable:
  assumes rd: "hcl_literal_contract rd" and x: "hcl_reference x"
    and adm: "admit PVENodeImageSpec_schema j = Some j1"
    and dec: "dec_object (decode_PVENodeImageSpec dur) j1 = Some spec" "bi_URL (is_BaseImage spec) \<noteq> []"
    and inp: "pkrvarsFromImage up tzdb (img\<lparr>im_Spec := spec\<rparr>) v t = Inr inp"
  shows "(\<exists>j2. admit PVENodeImageSpec_schema (write_checksum (''${'' @ x @ ''}'' @ q) j) = Some j2 \<and>
       dec_object (decode_PVENodeImageSpec dur) j2 = Some (with_checksum (''${'' @ x @ ''}'' @ q) spec)) \<and>
    (\<exists>inp' body. pkrvarsFromImage up tzdb (img\<lparr>im_Spec := with_checksum (''${'' @ x @ ''}'' @ q) spec\<rparr>) v t = Inr inp' \<and>
       ''iso_checksum = '' @ [dquote] @ body @ [dquote] \<in> set (splitOn (CHR 0x0A) (renderPkrvars up inp')) \<and>
       rd body = None)"
proof (rule conjI)
  let ?c = "''${'' @ x @ ''}'' @ q" and ?body = "''${'' @ x @ ''}'' @ quoteBody up q"
  show "\<exists>j2. admit PVENodeImageSpec_schema (write_checksum ?c j) = Some j2 \<and>
       dec_object (decode_PVENodeImageSpec dur) j2 = Some (with_checksum ?c spec)"
    by (rule any_checksum_admitted [OF adm dec])
  have "pkrvarsFromImage up tzdb (img\<lparr>im_Spec := with_checksum ?c spec\<rparr>) v t = Inr (inp\<lparr>pk_ISOChecksum := ?c\<rparr>)"
    by (simp only: pkrvarsFromImage_checksum inp map_sum.simps id_apply)
  moreover have "''iso_checksum = '' @ [dquote] @ ?body @ [dquote] \<in>
      set (splitOn (CHR 0x0A) (renderPkrvars up (inp\<lparr>pk_ISOChecksum := ?c\<rparr>)))"
    using checksum_line [of up "inp\<lparr>pk_ISOChecksum := ?c\<rparr>"] quoteBody_reference [OF x, of up q]
    by (simp add: assignLine_def quote_def)
  moreover have "rd ?body = None" by (rule hcl_literalD(4) [OF rd x])
  ultimately show "\<exists>inp' body. pkrvarsFromImage up tzdb (img\<lparr>im_Spec := with_checksum ?c spec\<rparr>) v t = Inr inp' \<and>
       ''iso_checksum = '' @ [dquote] @ body @ [dquote] \<in> set (splitOn (CHR 0x0A) (renderPkrvars up inp')) \<and>
       rd body = None" by blast
qed

theorem admitted_value_unreadable_witness:
  "\<exists>j2 inp' body. admit PVENodeImageSpec_schema (sampleSpecJson ''https://x.org/u.iso'' ''${x}'' []) = Some j2 \<and>
     ''iso_checksum = '' @ [dquote] @ body @ [dquote] \<in> set (splitOn (CHR 0x0A) (renderPkrvars (\<lambda>_. False) inp')) \<and>
     hcl_read body = None"
proof -
  let ?spec = "with_checksum ''sha256:0'' (sampleStored ''https://x.org/u.iso'')"
  have u: "bi_URL (is_BaseImage ?spec) \<noteq> []" by (simp add: with_checksum_def sampleStored_def)
  have x: "hcl_reference ''x''"
    by (simp add: hcl_reference_def isAlnum_def isLetter_def isLower_def)
  obtain inp where inp: "pkrvarsFromImage (\<lambda>_. False) (\<lambda>_. None) (sampleImage\<lparr>im_Spec := ?spec\<rparr>) 9000 ''t'' = Inr inp"
    by (simp add: pkrvarsFromImage_def time_LoadLocation_def with_checksum_def sampleStored_def)
  have c: "''${'' @ ''x'' @ ''}'' @ '''' = ''${x}''" by simp
  from admitted_value_unreadable [OF hcl_read_ok x sample_checksum(1) sample_checksum(2) [of noDurations] u inp, of "''''"]
  show ?thesis unfolding c sample_checksum(3) by blast
qed

end
