(* ===== verification/Spec2Isabelle.thy ===== *)
theory Spec2Isabelle
  imports Image_Trace Reconcilers Cluster_Init Pkrvars Namespace Cloud_Provider Manager_Main Deep_Copy
    Crd_Image Crd_Status Crd_Class Packer_Variables Work_Queue Stale_Reads
    Namespace_Concurrent Hcl_Strings Rbac
begin

text \<open>
  A verification of karpenter-provider-pve, a Karpenter provider for Proxmox VE written in Go.

  \<^bold>\<open>The program.\<close> It has two binaries. The controller (\<open>cmd/controller\<close>) runs two reconcilers over
  two cluster-scoped resources (\<open>api/v1alpha1\<close>): \<open>PVENodeImage\<close>, a VM template to be built by a
  Kubernetes Job, and \<open>PVENodeClass\<close>, the shape of the VMs cloned from it. \<open>cluster-init\<close>
  (\<open>cmd/cluster-init\<close>) builds a first template from the command line: it writes a variable file
  and runs an embedded Packer (\<open>internal/packer\<close>). \<open>pkg/cloudprovider\<close> is the interface that
  Karpenter calls, a scaffold so far. The controller's image builds use the same kind of variable
  file, rendered from the resource (\<open>internal/controller/pkvars.go\<close>).

  \<^bold>\<open>The theories and the code.\<close>
  \<^item> Prelude: byte strings, machine integers, error values with wrapping, results.
  \<^item> Go's standard library, as far as the source uses it: Go_Utf8, Go_Text, Go_Quote (hex, decimal
    and quoted text), Go_Strings (\<open>TrimSpace\<close>), Go_Sha256, Go_Path (\<open>path\<close>, \<open>filepath\<close>), Go_Embed
    (\<open>embed.FS\<close> and \<open>fs.WalkDir\<close>), Go_Os (files, directories, streams, with faults), Go_Flag
    (\<open>flag.Parse\<close>), Go_Regexp (regular expressions and a matcher), Go_Heap (objects behind pointers
    and slices).
  \<^item> Api_Types, Node_Class: the structs of \<open>api/v1alpha1\<close> and the \<open>status.Object\<close> methods of
    \<open>PVENodeClass\<close>. Deep_Copy: \<open>zz_generated.deepcopy.go\<close>, over structs with addresses.
    Scheme_Registration: \<open>groupversion_info.go\<close> and the \<open>init\<close> functions.
  \<^item> Crd_Json: JSON values, structural schemas, admission with pruning and defaults, the reading
    of single fields. Crd_Image, Crd_Status, Crd_Class: the validation markers and JSON tags of
    \<open>pvenodeimage_types.go\<close> and \<open>pvenodeclass_types.go\<close> as schemas, decoders and encoders.
  \<^item> Kube, Kube_Memory: the API server and the library helpers the reconcilers call, as parameters
    with contracts, and an API server in memory that satisfies all of them.
  \<^item> Namespace: \<open>internal/controller/namespace.go\<close>; Namespace_Concurrent: the same call in the steps
    of \<open>sync.Once\<close>, by any number of goroutines. Pkrvars: \<open>internal/controller/pkvars.go\<close>.
  \<^item> Image_Reconciler: \<open>internal/controller/pvenodeimage_controller.go\<close>, one definition per case of
    \<open>Reconcile\<close>. Image_Decision: its specification as a table of phases, and the refinement.
    Image_Passes: the properties of one pass. Image_Trace: runs of the controller beside the rest
    of the cluster. Reconcilers: \<open>pvenodeclass_controller.go\<close> and what both reconcilers keep.
    Work_Queue: runs with the work queue, from the watches of \<open>SetupWithManager\<close> and the delays.
    Stale_Reads: passes whose three calls meet three states of the cluster. Rbac: the markers of
    both reconcilers, \<open>config/rbac/role.yaml\<close> and the calls that need them.
  \<^item> Packer_Cli: \<open>internal/packer/pcli\<close>, one definition per function. Packer_Run: what its steps
    write. Packer_Properties: its properties.
  \<^item> Cluster_Init: \<open>cmd/cluster-init/main.go\<close>. Packer_Variables: both variable files against the
    declarations of \<open>templates/base.pkr.hcl\<close>. Hcl_Strings: what HCL reads of the rendered strings.
    Manager_Main: \<open>cmd/controller/main.go\<close> and both
    \<open>SetupWithManager\<close>. Cloud_Provider: \<open>pkg/cloudprovider/cloudprovider.go\<close>.

  \<^bold>\<open>State.\<close> The reconciler's process is the cluster, an abstract value behind the client, and the
  cached namespace (the package variables of \<open>namespace.go\<close>). The packer runner and
  \<open>cluster-init\<close> work on an operating system state: nodes by absolute path, working directory,
  umask, environment, streams and the faults an operation meets. The start of the controller
  threads an abstract state through the calls of the manager. Deep copies work on a heap of
  typed blocks by address. Errors are values everywhere; every early return is a branch.

  \<^bold>\<open>Interfaces.\<close> Five contracts are locales, each interpreted on the model: \<open>file_store\<close> (a write is
  read back and spares the other files) on the operating system; \<open>status_object\<close> on the conditions
  of a node class; \<open>reconciler\<close> (results, delays, what passes keep) on both reconcilers; \<open>copyable\<close>
  (a deep copy) on every struct, by combinators for pointers, slices and tuples of fields;
  \<open>api_type\<close> (schema, encoder and decoder of a type agree) on the specs of both resources.

  \<^bold>\<open>What is shown.\<close> For the image reconciler: \<open>Reconcile\<close> refines the table of phases on every branch;
  what a pass shows, writes, returns and leaves alone; that a repeated pass is quiet; when success
  may be reported; over runs, which statuses can ever be stored, and that the schema never refuses
  one of them; with the work queue, that no image is forgotten and that the queue drains where the
  phases ask for no further pass. Atomic passes are a simplification that is then justified: a pass
  over stale reads, with others acting between its calls, does nothing or what the atomic pass does
  at its write, and never marks a spec as built that it has not read; and concurrent callers of
  \<open>controllerNamespace\<close> see what sequential ones do. The same theorems bring out what the unfinished
  code does not do: no template is ever recorded, so no image becomes current, a succeeded image is
  rewritten forever and wakes itself, and a label of 64 characters can match no stored Job.

  For the variable file: a reader recovers every field from the text, no value can add a line, its
  assignments are those the template declares, which values HCL reads back as they were and that a
  stored object can hold one it does not read. For
  the API: what a stored object guarantees to the code that reads it, that it is read back as it
  was written, and where the rules leave gaps. For the role: it grants what the markers say, what a
  pass does under any rules, and that the role lacks nothing. For the packer runner: what lies in its directory when Packer starts, that nothing
  else is touched whatever the arguments, that failed steps never start it, that the search for the
  directory ends. For \<open>cluster-init\<close>: \<open>init\<close> and \<open>build\<close> fit together, what \<open>init\<close> writes, when
  \<open>build\<close> refuses. For the controller's start: flags are read back, the options of both servers, the
  order of the start and its exit codes. For deep copies: equal from outside, made of new objects,
  independent from then on.

  \<^bold>\<open>Bounds.\<close> The only loop with a bound is that of \<open>os.MkdirTemp\<close>: ten thousand draws of a name, as in
  Go; a state where all of them are taken gives its error. All other recursions are on data or
  shorten a path or an argument list. Integers that the API limits are words of their width
  (\<open>int32\<close>, \<open>int64\<close>); durations and times are integers.

  \<^bold>\<open>Parameters.\<close> Code that is not in the repository is an argument: the Kubernetes client,
  \<open>meta.SetStatusCondition\<close>, YAML marshalling, \<open>IsNotFound\<close>, the copy functions of apimachinery, the
  manager, the flags of libraries, cobra's parsing and its refusal, time zone loading, the table of
  printable runes, the embedded binaries, the bytes of the templates, the Packer command, the scheme
  library, the text forms of times and durations, the mapping from a Job to the requests of its
  owners and HCL's reader of quoted literals. What is assumed of them are the named contracts
  (\<open>client_contract\<close>, \<open>selector_contract\<close>, \<open>SetStatusCondition_contract\<close>, \<open>label_limit\<close>, \<open>update_locks\<close>,
  \<open>versions_agree\<close>, \<open>libs_contract\<close>, \<open>scheme_contract\<close>, \<open>enqueue_contract\<close>,
  \<open>hcl_literal_contract\<close>, the premises on the text forms); each has an instance for which the
  witnesses hold.

  \<^bold>\<open>Not modelled.\<close> Logging other than the setup messages of the controller; symbolic links and other
  processes acting on the file system while a function runs; pointers to whole structs, which stand
  for the struct they point to (\<open>in\<close> and \<open>out\<close> of a deep copy are different structs); the validation
  of metadata, which is the API server's own; the time a delay of the work queue takes; of the HCL
  templates everything but the variable declarations (builders and provisioners are data that Packer
  reads); the tests, and of the deployment files everything but the role, the names and the schemas of
  the two resources.
\<close>

end
